theory Spec2Isabelle
  imports Complex_Main
begin

section \<open>Reference wrappers: \<open>wrap\<close> and \<open>find_ref\<close> (itsolv/wrap.h)\<close>

text \<open>
  A \<open>std::reference_wrapper\<close> holds the address of its referent, and \<open>find_ref\<close>
  compares wrappers and iterator positions by \<open>std::addressof\<close> only. An address is a
  natural number. A \<open>std::vector\<close> owns a block of storage starting at \<open>data\<close>; its
  element number \<open>i\<close> lives at address \<open>data + i\<close>, so the elements of one vector have
  pairwise different addresses.
\<close>

type_synonym addr = nat

record 'a cvector =
  data :: addr
  elems :: "'a list"

text \<open>The addresses of \<open>*it\<close> for the iterators \<open>it\<close> of \<open>[begin(vec), end(vec))\<close>, in order.\<close>

definition iter_range :: "'a cvector \<Rightarrow> addr list" where
  "iter_range vec = map (\<lambda>i. data vec + i) [0..<length (elems vec)]"

text \<open>
  \<open>wrap(vec)\<close>: \<open>std::copy(begin(vec), end(vec), std::back_inserter(w))\<close> appends one
  reference wrapper per element, in order; each wrapper is built from the element lvalue
  and so stores that element's address.
\<close>

definition wrap :: "'a cvector \<Rightarrow> addr list" where
  "wrap vec = foldl (\<lambda>w a. w @ [a]) [] (iter_range vec)"

text \<open>
  \<open>find_ref(wparams, begin, end)\<close>. The range is given by the addresses of its elements.
  The loop variable \<open>d\<close> is \<open>std::distance(begin, it)\<close>; \<open>std::find_if\<close> is \<open>List.find\<close>,
  and \<open>it_found != std::end(wparams)\<close> is \<open>List.find \<dots> \<noteq> None\<close>.
\<close>

fun find_ref_loop :: "addr list \<Rightarrow> addr list \<Rightarrow> nat \<Rightarrow> nat list \<Rightarrow> nat list" where
  "find_ref_loop wparams [] d indices = indices"
| "find_ref_loop wparams (a # rest) d indices =
     (let it_found = List.find (\<lambda>w. w = a) wparams
      in find_ref_loop wparams rest (Suc d)
           (if it_found \<noteq> None then indices @ [d] else indices))"

definition find_ref :: "addr list \<Rightarrow> addr list \<Rightarrow> nat list" where
  "find_ref wparams rng = find_ref_loop wparams rng 0 []"

section \<open>The subspace engine (IterativeSolver.h): data\<close>

subsection \<open>Errors\<close>

text \<open>
  The exceptions the engine throws, by their C++ class, each with its message. A failed
  \<open>assert\<close> or a failed range check of the Eigen library aborts the call; it is the
  error \<open>assertion_failed\<close>. The last constructor is no exception and no abort. It is
  the result of \<open>LinearEigensystem::solveReducedProblem\<close> where the source writes NaNs to
  the interpolation matrix and returns \<open>true\<close>: every vector that the caller's class then
  computes from this matrix is filled with NaNs, for which the vector class of this
  model, a parameter over the real numbers, has no value. The model ends there.
\<close>

datatype error =
    runtime_error string
  | logic_error string
  | overflow_error string
  | assertion_failed string
  | not_a_number string

subsection \<open>Numbers\<close>

text \<open>
  The scalar type \<open>double\<close> is \<open>real\<close>: rounding and overflow are left out. Two places of
  the source divide by a number that can be zero and go on with the result, an infinity
  or a NaN; there the type is \<open>double\<close>, with the arithmetic and the comparisons of
  IEEE 754 on the values that are not finite: a comparison with a NaN is false, an
  infinity times zero and the difference of two equal infinities are NaN. The divisor of
  \<open>divide_by_zero\<close> is the zero \<open>+0\<close> that the difference of two equal numbers is.
\<close>

datatype double = Finite real | PlusInfinity | MinusInfinity | NaN

definition divide_by_zero :: "real \<Rightarrow> double" where
  "divide_by_zero a = (if a > 0 then PlusInfinity else if a < 0 then MinusInfinity else NaN)"

fun double_times :: "double \<Rightarrow> double \<Rightarrow> double" where
  "double_times (Finite a) (Finite b) = Finite (a * b)"
| "double_times NaN y = NaN"
| "double_times x NaN = NaN"
| "double_times (Finite a) PlusInfinity =
     (if a > 0 then PlusInfinity else if a < 0 then MinusInfinity else NaN)"
| "double_times (Finite a) MinusInfinity =
     (if a > 0 then MinusInfinity else if a < 0 then PlusInfinity else NaN)"
| "double_times PlusInfinity (Finite b) =
     (if b > 0 then PlusInfinity else if b < 0 then MinusInfinity else NaN)"
| "double_times MinusInfinity (Finite b) =
     (if b > 0 then MinusInfinity else if b < 0 then PlusInfinity else NaN)"
| "double_times PlusInfinity PlusInfinity = PlusInfinity"
| "double_times MinusInfinity MinusInfinity = PlusInfinity"
| "double_times PlusInfinity MinusInfinity = MinusInfinity"
| "double_times MinusInfinity PlusInfinity = MinusInfinity"

fun double_plus :: "double \<Rightarrow> double \<Rightarrow> double" where
  "double_plus (Finite a) (Finite b) = Finite (a + b)"
| "double_plus NaN y = NaN"
| "double_plus x NaN = NaN"
| "double_plus (Finite a) PlusInfinity = PlusInfinity"
| "double_plus (Finite a) MinusInfinity = MinusInfinity"
| "double_plus PlusInfinity (Finite b) = PlusInfinity"
| "double_plus MinusInfinity (Finite b) = MinusInfinity"
| "double_plus PlusInfinity PlusInfinity = PlusInfinity"
| "double_plus MinusInfinity MinusInfinity = MinusInfinity"
| "double_plus PlusInfinity MinusInfinity = NaN"
| "double_plus MinusInfinity PlusInfinity = NaN"

fun double_abs :: "double \<Rightarrow> double" where
  "double_abs (Finite a) = Finite \<bar>a\<bar>"
| "double_abs PlusInfinity = PlusInfinity"
| "double_abs MinusInfinity = PlusInfinity"
| "double_abs NaN = NaN"

text \<open>
  The other place is the normalisation of the eigenvectors. A coefficient of the complex
  matrix of eigenvectors is a complex number, or \<open>None\<close> when one of its two components is
  an infinity or a NaN; which of them, the model does not say. A sum, a difference or a
  product with such an operand is again not a number, also the product with zero.
\<close>

definition cd_times :: "complex option \<Rightarrow> complex option \<Rightarrow> complex option" where
  "cd_times a b = (case a of None \<Rightarrow> None | Some x \<Rightarrow> map_option (\<lambda>y. x * y) b)"

definition cd_minus :: "complex option \<Rightarrow> complex option \<Rightarrow> complex option" where
  "cd_minus a b = (case a of None \<Rightarrow> None | Some x \<Rightarrow> map_option (\<lambda>y. x - y) b)"

definition cd_sum :: "complex option list \<Rightarrow> complex option" where
  "cd_sum zs =
     foldl (\<lambda>a z. case a of None \<Rightarrow> None | Some x \<Rightarrow> map_option (\<lambda>y. x + y) z) (Some 0) zs"

text \<open>\<open>x < a\<close> and \<open>x > a\<close> for a \<open>double\<close> \<open>x\<close> and a finite \<open>a\<close>.\<close>

fun double_less :: "double \<Rightarrow> real \<Rightarrow> bool" where
  "double_less (Finite x) a = (x < a)"
| "double_less MinusInfinity a = True"
| "double_less PlusInfinity a = False"
| "double_less NaN a = False"

fun double_greater :: "double \<Rightarrow> real \<Rightarrow> bool" where
  "double_greater (Finite x) a = (x > a)"
| "double_greater PlusInfinity a = True"
| "double_greater MinusInfinity a = False"
| "double_greater NaN a = False"

subsection \<open>Large vectors: the template parameter \<open>T\<close>\<close>

text \<open>
  The engine touches the caller's vectors only through the member functions that the
  header requires of the class \<open>T\<close>: \<open>x.dot(y)\<close>, \<open>x.axpy(a, y)\<close> (add \<open>a\<close> times \<open>y\<close> to
  \<open>x\<close>) and \<open>x.scal(a)\<close>, each also with a sparse \<open>Pvector\<close> in place of \<open>y\<close>. They are the
  fields of a record of operations, a parameter of every function of the engine:
  \<open>axpy T a y x\<close> and \<open>scal T a x\<close> are the new value of \<open>x\<close>.
\<close>

type_synonym Pvector = "(nat \<times> real) list"

record 'v vector_ops =
  dot :: "'v \<Rightarrow> 'v \<Rightarrow> real"
  axpy :: "real \<Rightarrow> 'v \<Rightarrow> 'v \<Rightarrow> 'v"
  scal :: "real \<Rightarrow> 'v \<Rightarrow> 'v"
  dot_sparse :: "'v \<Rightarrow> Pvector \<Rightarrow> real"
  axpy_sparse :: "real \<Rightarrow> Pvector \<Rightarrow> 'v \<Rightarrow> 'v"

subsection \<open>Small dense matrices: \<open>Eigen::Matrix\<close>\<close>

text \<open>
  A dynamic Eigen matrix is its shape and its coefficients; an Eigen vector
  (\<open>VectorXd\<close>, \<open>VectorXcd\<close>) is a matrix with one column. \<open>conservativeResize\<close> keeps the
  coefficients of the common top-left block; the coefficients it adds are uninitialised
  in Eigen, and so are all coefficients after a \<open>resize\<close> that changes the size: nothing
  below depends on the value such a coefficient has here.
\<close>

record 'a matrix =
  rows :: nat
  cols :: nat
  coeff :: "nat \<Rightarrow> nat \<Rightarrow> 'a"

definition conservativeResize :: "nat \<Rightarrow> nat \<Rightarrow> 'a matrix \<Rightarrow> 'a matrix" where
  "conservativeResize r c M = M\<lparr>rows := r, cols := c\<rparr>"

definition resize :: "nat \<Rightarrow> nat \<Rightarrow> 'a matrix \<Rightarrow> 'a matrix" where
  "resize r c M = M\<lparr>rows := r, cols := c\<rparr>"

definition setZero :: "('a::zero) matrix \<Rightarrow> 'a matrix" where
  "setZero M = M\<lparr>coeff := (\<lambda>i j. 0)\<rparr>"

text \<open>\<open>M(i, j) = v\<close>.\<close>

definition set_coeff :: "nat \<Rightarrow> nat \<Rightarrow> 'a \<Rightarrow> 'a matrix \<Rightarrow> 'a matrix" where
  "set_coeff i j v M = M\<lparr>coeff := (coeff M)(i := (coeff M i)(j := v))\<rparr>"

text \<open>\<open>M.block(i0, j0, p, q)\<close>, read.\<close>

definition block :: "nat \<Rightarrow> nat \<Rightarrow> nat \<Rightarrow> nat \<Rightarrow> 'a matrix \<Rightarrow> 'a matrix" where
  "block i0 j0 p q M = \<lparr>rows = p, cols = q, coeff = (\<lambda>i j. coeff M (i0 + i) (j0 + j))\<rparr>"

text \<open>\<open>M.block(i0, j0, p, q) = N\<close>, written.\<close>

definition set_block :: "nat \<Rightarrow> nat \<Rightarrow> nat \<Rightarrow> nat \<Rightarrow> 'a matrix \<Rightarrow> 'a matrix \<Rightarrow> 'a matrix" where
  "set_block i0 j0 p q N M =
     M\<lparr>coeff := (\<lambda>i j. if i0 \<le> i \<and> i < i0 + p \<and> j0 \<le> j \<and> j < j0 + q
                          then coeff N (i - i0) (j - j0) else coeff M i j)\<rparr>"

text \<open>\<open>std::numeric_limits<double>::epsilon()\<close>.\<close>

definition epsilon :: real where
  "epsilon = 1 / 2 ^ 52"

subsection \<open>The Eigen decompositions\<close>

text \<open>
  The decompositions are code of the Eigen library, not of this repository. They are
  parameters of the engine: \<open>JacobiSVD E M\<close> is the singular value decomposition that
  Eigen computes for \<open>M\<close>, \<open>svd_rank E t M\<close> is its \<open>rank()\<close> after \<open>setThreshold(t)\<close>,
  \<open>svd_solve E t M b\<close> is its \<open>solve(b)\<close> after \<open>setThreshold(t)\<close>, and \<open>EigenSolver E M\<close>
  is the pair of \<open>eigenvalues()\<close> and \<open>eigenvectors()\<close>. A coefficient of a solution can
  be a NaN, which \<open>std::isnan\<close> tests: it is \<open>None\<close>.
\<close>

record jacobi_svd =
  singularValues :: "real matrix"
  matrixU :: "real matrix"
  matrixV :: "real matrix"

record Eigen =
  JacobiSVD :: "real matrix \<Rightarrow> jacobi_svd"
  svd_rank :: "real \<Rightarrow> real matrix \<Rightarrow> nat"
  svd_solve :: "real \<Rightarrow> real matrix \<Rightarrow> real matrix \<Rightarrow> nat \<Rightarrow> real option"
  EigenSolver :: "real matrix \<Rightarrow> complex matrix \<times> complex matrix"

subsection \<open>The Q space\<close>

text \<open>
  Modelled from the spec: the class \<open>Q\<close> (molpro/linalg/iterativesolver/Q.h) is not among
  the sources. The specification (4.3, QSpace) gives it an ordered list of entries, each
  a parameter vector, its action and a scale factor, with \<open>size()\<close>, \<open>keys()\<close>, indexed
  access, \<open>remove(i)\<close> and two forms of \<open>add\<close>. The key of a new entry is a running
  counter, so that keys stay unique when entries are removed.
\<close>

record 'v Q =
  Q_keys :: "int list"
  Q_vectors :: "'v list"
  Q_actions :: "'v list"
  Q_scale_factors :: "real list"
  Q_index :: int

definition Q_size :: "'v Q \<Rightarrow> nat" where
  "Q_size q = length (Q_keys q)"

text \<open>
  Modelled from the spec: \<open>add(r_new, action_new, r_prev, action_prev, rhs, res_res_flag,
  orthogonalise_flag)\<close> "enqueues the difference (r\_prev - r\_new) and its action, scaled
  to unit norm, and records its scale factor. When orthogonalise\_flag is set, the
  difference is first made orthogonal to r\_new before normalisation".
\<close>

definition Q_add_difference ::
  "'v vector_ops \<Rightarrow> 'v \<Rightarrow> 'v \<Rightarrow> 'v \<Rightarrow> 'v \<Rightarrow> bool \<Rightarrow> 'v Q \<Rightarrow> 'v Q" where
  "Q_add_difference T r_new action_new r_prev action_prev orthogonalise q =
     (let d = axpy T (- 1) r_new r_prev;
          hd = axpy T (- 1) action_new action_prev;
          c = (if orthogonalise then dot T r_new d / dot T r_new r_new else 0);
          d' = (if orthogonalise then axpy T (- c) r_new d else d);
          hd' = (if orthogonalise then axpy T (- c) action_new hd else hd);
          scale_factor = 1 / sqrt (dot T d' d')
      in q\<lparr>Q_keys := Q_keys q @ [Q_index q],
            Q_vectors := Q_vectors q @ [scal T scale_factor d'],
            Q_actions := Q_actions q @ [scal T scale_factor hd'],
            Q_scale_factors := Q_scale_factors q @ [scale_factor],
            Q_index := Q_index q + 1\<rparr>)"

text \<open>
  Modelled from the spec: \<open>add(r_new, action_new, rhs, res_res_flag)\<close>, "for promoting a
  converged solution; stores r\_new directly, normalised".
\<close>

definition Q_add_solution :: "'v vector_ops \<Rightarrow> 'v \<Rightarrow> 'v \<Rightarrow> 'v Q \<Rightarrow> 'v Q" where
  "Q_add_solution T r_new action_new q =
     (let scale_factor = 1 / sqrt (dot T r_new r_new)
      in q\<lparr>Q_keys := Q_keys q @ [Q_index q],
            Q_vectors := Q_vectors q @ [scal T scale_factor r_new],
            Q_actions := Q_actions q @ [scal T scale_factor action_new],
            Q_scale_factors := Q_scale_factors q @ [scale_factor],
            Q_index := Q_index q + 1\<rparr>)"

text \<open>
  Modelled from the spec: \<open>remove(i)\<close> "drops entry i and the corresponding rows/cols of
  every cached interaction block; shifts indices of entries > i down by one".
\<close>

definition drop_nth :: "nat \<Rightarrow> 'a list \<Rightarrow> 'a list" where
  "drop_nth i xs = take i xs @ drop (Suc i) xs"

definition Q_remove :: "nat \<Rightarrow> 'v Q \<Rightarrow> 'v Q" where
  "Q_remove i q =
     q\<lparr>Q_keys := drop_nth i (Q_keys q),
       Q_vectors := drop_nth i (Q_vectors q),
       Q_actions := drop_nth i (Q_actions q),
       Q_scale_factors := drop_nth i (Q_scale_factors q)\<rparr>"

text \<open>
  Modelled from the spec: \<open>metric(i, j)\<close> is the overlap of two entries, \<open>action(i, j)\<close>
  the overlap of entry \<open>i\<close> (of its action, in the residual-residual metric) with the
  action of entry \<open>j\<close>, \<open>metric_pspace(i)\<close> and \<open>action_pspace(i)\<close> the overlaps of entry
  \<open>i\<close> and of its action with the P vectors, and \<open>rhs(i)\<close> its overlaps with the
  right-hand sides.
\<close>

definition Q_metric :: "'v vector_ops \<Rightarrow> 'v Q \<Rightarrow> nat \<Rightarrow> nat \<Rightarrow> real" where
  "Q_metric T q i j = dot T (Q_vectors q ! i) (Q_vectors q ! j)"

definition Q_action :: "'v vector_ops \<Rightarrow> bool \<Rightarrow> 'v Q \<Rightarrow> nat \<Rightarrow> nat \<Rightarrow> real" where
  "Q_action T resres q i j =
     dot T ((if resres then Q_actions q else Q_vectors q) ! i) (Q_actions q ! j)"

definition Q_metric_pspace :: "'v vector_ops \<Rightarrow> Pvector list \<Rightarrow> 'v Q \<Rightarrow> nat \<Rightarrow> nat \<Rightarrow> real" where
  "Q_metric_pspace T ps q a i = dot_sparse T (Q_vectors q ! a) (ps ! i)"

definition Q_action_pspace :: "'v vector_ops \<Rightarrow> Pvector list \<Rightarrow> 'v Q \<Rightarrow> nat \<Rightarrow> nat \<Rightarrow> real" where
  "Q_action_pspace T ps q a i = dot_sparse T (Q_actions q ! a) (ps ! i)"

definition Q_rhs :: "'v vector_ops \<Rightarrow> 'v list \<Rightarrow> 'v Q \<Rightarrow> nat \<Rightarrow> nat \<Rightarrow> real" where
  "Q_rhs T rhs q a k = dot T (Q_vectors q ! a) (rhs ! k)"

subsection \<open>The solver state\<close>

text \<open>
  The data members of the class \<open>IterativeSolver\<close> that the functions below read or
  write, under their names. A \<open>std::map<int, std::vector<scalar_type>>\<close> read with
  \<open>operator[]\<close> yields the empty vector at a key it does not hold: it is a total function.
  The P space is the list of its \<open>Pvector\<close>s. The classes \<open>LinearEigensystem\<close> and \<open>DIIS\<close>
  add no data member that is used here; \<open>Optimize\<close> extends the record as the class
  extends the base class.
\<close>

record 'v IterativeSolver =
  m_thresh :: real
  m_linear :: bool
  m_hermitian :: bool
  m_roots :: nat
  m_rspt :: bool
  m_qspace :: "'v Q"
  m_pspace :: "Pvector list"
  m_last_d :: "'v list"
  m_last_hd :: "'v list"
  m_current_r :: "'v list"
  m_current_v :: "'v list"
  m_s_rr :: "real list list"
  m_h_rr :: "real list list"
  m_hh_rr :: "real list list"
  m_rhs_r :: "real list list"
  m_s_qr :: "nat \<Rightarrow> real list"
  m_h_qr :: "nat \<Rightarrow> real list"
  m_h_rq :: "nat \<Rightarrow> real list"
  m_hh_qr :: "nat \<Rightarrow> real list"
  m_s_pr :: "real list list"
  m_h_pr :: "real list list"
  m_h_rp :: "real list list"
  m_working_set :: "nat list"
  m_q_solutions :: "nat \<rightharpoonup> int"
  m_exclude_r_from_redundancy_test :: bool
  m_orthogonalise_Q :: bool
  m_errors :: "real list"
  m_subspaceMatrixResRes :: bool
  m_residual_eigen :: bool
  m_residual_rhs :: bool
  m_rhs :: "'v list"
  m_updateShift :: "real list"
  m_interpolation :: "real matrix"
  m_subspaceMatrix :: "real matrix"
  m_subspaceOverlap :: "real matrix"
  m_subspaceRHS :: "real matrix"
  m_subspaceEigenvectors :: "complex option matrix"
  m_subspaceEigenvalues :: "complex matrix"
  m_values :: "real list"
  m_iterations :: nat
  m_singularity_threshold :: real
  m_augmented_hessian :: real
  m_nullify_solution_before_update :: bool
  m_svdThreshold :: real
  m_maxQ :: nat

record 'v Optimize = "'v IterativeSolver" +
  m_algorithm :: string
  m_minimize :: bool
  m_strong_Wolfe :: bool
  m_Wolfe_1 :: real
  m_Wolfe_2 :: real
  m_linesearch_tolerance :: real
  m_linesearch_grow_factor :: real
  m_linesearch_steplength :: double
  m_best_r :: "'v option"
  m_best_v :: "'v option"
  m_best_f :: real

section \<open>The base class \<open>IterativeSolver\<close>: the conditioning of the subspace\<close>

text \<open>
  \<open>std::min_element(svv.begin(), svv.end()) - svv.begin()\<close>: the position of the first
  smallest element.
\<close>

definition min_element :: "real list \<Rightarrow> nat" where
  "min_element xs =
     foldl (\<lambda>smallest i. if xs ! i < xs ! smallest then i else smallest) 0 [1..<length xs]"

text \<open>
  \<open>propose_singularity_deletion(n, ndim, m, candidates, threshold)\<close>. The pointer \<open>m\<close> with
  the dimension \<open>ndim\<close> is the matrix it points into. The return value \<open>-1\<close> is \<open>None\<close>.
  The loop over the candidates returns the first one whose coefficient in the singular
  vector is larger than \<open>10^-3\<close>.
\<close>

definition propose_singularity_deletion ::
  "Eigen \<Rightarrow> nat \<Rightarrow> real matrix \<Rightarrow> nat list \<Rightarrow> real \<Rightarrow> nat option" where
  "propose_singularity_deletion E n m candidates threshold =
     (let singularTester = block 0 0 n n m;
          svd = JacobiSVD E singularTester;
          svv = map (\<lambda>k. coeff (singularValues svd) k 0) [0..<n];
          most_singular = min_element svv
      in if svv ! most_singular > threshold then None
         else List.find (\<lambda>k. \<bar>coeff (matrixV svd) k most_singular\<bar> > 1 / 10 ^ 3) candidates)"

text \<open>
  The first part of \<open>buildSubspace\<close>: the three matrices are resized and filled block by
  block. Every coefficient is written by at most one of the nested loops, so the loops
  are read as one case distinction on the position, in the order of the loops: Q-Q, P-Q
  and Q-P, R-Q and Q-R, R-P and P-R, R-R. No loop writes the P-P block, nor the P rows
  of the right-hand side.
\<close>

definition assemble_matrix ::
  "'v vector_ops \<Rightarrow> ('v, 'm) IterativeSolver_scheme \<Rightarrow> real matrix" where
  "assemble_matrix T s =
     (let nP = length (m_pspace s); nQ = Q_size (m_qspace s); nR = length (m_s_rr s);
          nX = nP + nQ + nR; oQ = nP; oR = oQ + nQ;
          old = conservativeResize nX nX (m_subspaceMatrix s)
      in old\<lparr>coeff := (\<lambda>r c.
           if oQ \<le> r \<and> r < oR \<and> oQ \<le> c \<and> c < oR
             then Q_action T (m_subspaceMatrixResRes s) (m_qspace s) (r - oQ) (c - oQ)
           else if r < nP \<and> oQ \<le> c \<and> c < oR
             then Q_action_pspace T (m_pspace s) (m_qspace s) (c - oQ) r
           else if oQ \<le> r \<and> r < oR \<and> c < nP
             then Q_action_pspace T (m_pspace s) (m_qspace s) (r - oQ) c
           else if oR \<le> r \<and> r < nX \<and> oQ \<le> c \<and> c < oR then m_h_rq s (c - oQ) ! (r - oR)
           else if oQ \<le> r \<and> r < oR \<and> oR \<le> c \<and> c < nX then m_h_qr s (r - oQ) ! (c - oR)
           else if oR \<le> r \<and> r < nX \<and> c < nP then m_h_rp s ! c ! (r - oR)
           else if r < nP \<and> oR \<le> c \<and> c < nX then m_h_pr s ! r ! (c - oR)
           else if oR \<le> r \<and> r < nX \<and> oR \<le> c \<and> c < nX then m_h_rr s ! (r - oR) ! (c - oR)
           else coeff old r c)\<rparr>)"

definition assemble_overlap ::
  "'v vector_ops \<Rightarrow> ('v, 'm) IterativeSolver_scheme \<Rightarrow> real matrix" where
  "assemble_overlap T s =
     (let nP = length (m_pspace s); nQ = Q_size (m_qspace s); nR = length (m_s_rr s);
          nX = nP + nQ + nR; oQ = nP; oR = oQ + nQ;
          old = conservativeResize nX nX (m_subspaceOverlap s)
      in old\<lparr>coeff := (\<lambda>r c.
           if oQ \<le> r \<and> r < oR \<and> oQ \<le> c \<and> c < oR
             then Q_metric T (m_qspace s) (r - oQ) (c - oQ)
           else if r < nP \<and> oQ \<le> c \<and> c < oR
             then Q_metric_pspace T (m_pspace s) (m_qspace s) (c - oQ) r
           else if oQ \<le> r \<and> r < oR \<and> c < nP
             then Q_metric_pspace T (m_pspace s) (m_qspace s) (r - oQ) c
           else if oR \<le> r \<and> r < nX \<and> oQ \<le> c \<and> c < oR then m_s_qr s (c - oQ) ! (r - oR)
           else if oQ \<le> r \<and> r < oR \<and> oR \<le> c \<and> c < nX then m_s_qr s (r - oQ) ! (c - oR)
           else if oR \<le> r \<and> r < nX \<and> c < nP then m_s_pr s ! c ! (r - oR)
           else if r < nP \<and> oR \<le> c \<and> c < nX then m_s_pr s ! r ! (c - oR)
           else if oR \<le> r \<and> r < nX \<and> oR \<le> c \<and> c < nX then m_s_rr s ! (r - oR) ! (c - oR)
           else coeff old r c)\<rparr>)"

definition assemble_RHS ::
  "'v vector_ops \<Rightarrow> ('v, 'm) IterativeSolver_scheme \<Rightarrow> real matrix" where
  "assemble_RHS T s =
     (let nP = length (m_pspace s); nQ = Q_size (m_qspace s); nR = length (m_s_rr s);
          nX = nP + nQ + nR; oQ = nP; oR = oQ + nQ;
          old = resize nX (length (m_rhs s)) (m_subspaceRHS s)
      in old\<lparr>coeff := (\<lambda>r rhs.
           if oQ \<le> r \<and> r < oR \<and> rhs < length (m_rhs s)
             then Q_rhs T (m_rhs s) (m_qspace s) (r - oQ) rhs
           else if oR \<le> r \<and> r < nX \<and> rhs < length (m_rhs s) then m_rhs_r s ! (r - oR) ! rhs
           else coeff old r rhs)\<rparr>)"

definition assemble ::
  "'v vector_ops \<Rightarrow> ('v, 'm) IterativeSolver_scheme \<Rightarrow> ('v, 'm) IterativeSolver_scheme" where
  "assemble T s =
     (let s1 = s\<lparr>m_subspaceMatrix := assemble_matrix T s,
                 m_subspaceOverlap := assemble_overlap T s,
                 m_subspaceRHS := assemble_RHS T s\<rparr>
      in if m_subspaceMatrixResRes s1 then s1\<lparr>m_subspaceOverlap := m_subspaceMatrix s1\<rparr> else s1)"

text \<open>
  The candidates for deletion: the positions \<open>oQ + a\<close> of the Q vectors whose key is not
  the key of a converged solution. (\<open>solutions_q\<close> maps a Q position to a root exactly
  when some root of \<open>m_q_solutions\<close> has the key at that position.)
\<close>

definition deletion_candidates :: "('v, 'm) IterativeSolver_scheme \<Rightarrow> nat list" where
  "deletion_candidates s =
     map (\<lambda>a. length (m_pspace s) + a)
       (filter (\<lambda>a. Q_keys (m_qspace s) ! a \<notin> ran (m_q_solutions s))
          [0..<Q_size (m_qspace s)])"

text \<open>
  The second part of \<open>buildSubspace\<close>, on the assembled matrices: the value of \<open>del\<close>,
  with \<open>None\<close> also where \<open>nQ = 0\<close> and the test is not made.
\<close>

definition singularity_deletion :: "Eigen \<Rightarrow> ('v, 'm) IterativeSolver_scheme \<Rightarrow> nat option" where
  "singularity_deletion E s =
     (let nP = length (m_pspace s); nQ = Q_size (m_qspace s); nR = length (m_s_rr s);
          nX = nP + nQ + nR
      in if nQ > 0 then
           (let singularTester = (if m_residual_eigen s then m_subspaceOverlap s
                                  else m_subspaceMatrix s)
            in propose_singularity_deletion E
                 (if m_exclude_r_from_redundancy_test s then nX - nR else nX)
                 singularTester (deletion_candidates s)
                 (if nQ > m_maxQ s then 10 ^ 6 else m_singularity_threshold s))
         else None)"

text \<open>
  What \<open>buildSubspace\<close> does with \<open>del \<ge> 0\<close> before it calls itself: the Q vector is
  removed, all errors are set to \<open>10^20\<close>, and the interactions of the later Q vectors with
  the R space move down by one position.
\<close>

definition shift_down ::
  "nat \<Rightarrow> nat \<Rightarrow> nat \<Rightarrow> (nat \<Rightarrow> real list) \<Rightarrow> nat \<Rightarrow> real list" where
  "shift_down d nQ nR f =
     (\<lambda>a. if d \<le> a \<and> a < nQ - 1
          then map (\<lambda>m. if m < nR then f (a + 1) ! m else f a ! m) [0..<length (f a)]
          else f a)"

definition delete_Q ::
  "nat \<Rightarrow> ('v, 'm) IterativeSolver_scheme \<Rightarrow> ('v, 'm) IterativeSolver_scheme" where
  "delete_Q del s =
     (let nQ = Q_size (m_qspace s); nR = length (m_s_rr s); d = del - length (m_pspace s)
      in s\<lparr>m_qspace := Q_remove d (m_qspace s),
            m_errors := replicate (m_roots s) (10 ^ 20),
            m_h_rq := shift_down d nQ nR (m_h_rq s),
            m_h_qr := shift_down d nQ nR (m_h_qr s),
            m_s_qr := shift_down d nQ nR (m_s_qr s),
            m_hh_qr := shift_down d nQ nR (m_hh_qr s)\<rparr>)"

text \<open>
  \<open>buildSubspace\<close>: it assembles, asks for a deletion, and after a deletion starts again.
  Every deletion is a candidate, a position of the Q space, so the Q space shrinks and
  the recursion ends.
\<close>

lemma find_Some_in_set: "List.find P xs = Some x \<Longrightarrow> x \<in> set xs \<and> P x"
  by (induction xs) (auto split: if_splits)

lemma propose_in_candidates:
  "propose_singularity_deletion E n m cs t = Some k \<Longrightarrow> k \<in> set cs"
  by (auto simp: propose_singularity_deletion_def Let_def split: if_splits
      dest: find_Some_in_set)

lemma deletion_in_range:
  "singularity_deletion E s = Some k \<Longrightarrow>
     length (m_pspace s) \<le> k \<and> k - length (m_pspace s) < Q_size (m_qspace s)"
  by (auto simp: singularity_deletion_def deletion_candidates_def Let_def split: if_splits
      dest!: propose_in_candidates)

lemma Q_size_remove: "i < Q_size q \<Longrightarrow> Q_size (Q_remove i q) < Q_size q"
  by (simp add: Q_size_def Q_remove_def drop_nth_def)

lemma assemble_spaces:
  "m_qspace (assemble T s) = m_qspace s"
  "m_pspace (assemble T s) = m_pspace s"
  "m_s_rr (assemble T s) = m_s_rr s"
  by (simp_all add: assemble_def Let_def)

function buildSubspace ::
  "'v vector_ops \<Rightarrow> Eigen \<Rightarrow> ('v, 'm) IterativeSolver_scheme \<Rightarrow> ('v, 'm) IterativeSolver_scheme" where
  "buildSubspace T E s =
     (let s1 = assemble T s in
      case singularity_deletion E s1 of
        Some del \<Rightarrow> buildSubspace T E (delete_Q del s1)
      | None \<Rightarrow> s1)"
  by pat_completeness auto
termination
proof (relation "measure (\<lambda>(T, E, s). Q_size (m_qspace s))")
  show "wf (measure (\<lambda>(T, E, s). Q_size (m_qspace s)))" by simp
next
  fix T :: "'v vector_ops" and E s del and s1 :: "('v, 'm) IterativeSolver_scheme"
  assume "s1 = assemble T s" "singularity_deletion E s1 = Some del"
  then show "((T, E, delete_Q del s1), T, E, s) \<in> measure (\<lambda>(T, E, s). Q_size (m_qspace s))"
    using deletion_in_range [of E s1 del]
      Q_size_remove [of "del - length (m_pspace s1)" "m_qspace s1"]
    by (simp add: delete_Q_def assemble_spaces Let_def)
qed

declare buildSubspace.simps [simp del]

section \<open>The base class \<open>IterativeSolver\<close>: the reduced eigenproblem\<close>

subsection \<open>Matrix algebra\<close>

definition mat_mult :: "('a::semiring_0) matrix \<Rightarrow> 'a matrix \<Rightarrow> 'a matrix" where
  "mat_mult A B =
     \<lparr>rows = rows A, cols = cols B,
      coeff = (\<lambda>i j. sum_list (map (\<lambda>k. coeff A i k * coeff B k j) [0..<cols A]))\<rparr>"

definition asDiagonal :: "('a::zero) matrix \<Rightarrow> 'a matrix" where
  "asDiagonal v =
     \<lparr>rows = rows v, cols = rows v, coeff = (\<lambda>i j. if i = j then coeff v i 0 else 0)\<rparr>"

definition leftCols :: "nat \<Rightarrow> 'a matrix \<Rightarrow> 'a matrix" where
  "leftCols n M = block 0 0 (rows M) n M"

definition adjoint :: "real matrix \<Rightarrow> real matrix" where
  "adjoint M = \<lparr>rows = cols M, cols = rows M, coeff = (\<lambda>i j. coeff M j i)\<rparr>"

definition map_matrix :: "('a \<Rightarrow> 'b) \<Rightarrow> 'a matrix \<Rightarrow> 'b matrix" where
  "map_matrix f M = \<lparr>rows = rows M, cols = cols M, coeff = (\<lambda>i j. f (coeff M i j))\<rparr>"

text \<open>\<open>M.norm()\<close>, the Frobenius norm, here of a real matrix.\<close>

definition matrix_norm :: "real matrix \<Rightarrow> real" where
  "matrix_norm M =
     sqrt (sum_list (map (\<lambda>i. sum_list (map (\<lambda>j. (coeff M i j) ^ 2) [0..<cols M])) [0..<rows M]))"

text \<open>\<open>M.col(k) = N.col(l)\<close>.\<close>

definition set_col :: "nat \<Rightarrow> 'a matrix \<Rightarrow> nat \<Rightarrow> 'a matrix \<Rightarrow> 'a matrix" where
  "set_col k N l M = M\<lparr>coeff := (\<lambda>i j. if j = k then coeff N i l else coeff M i j)\<rparr>"

subsection \<open>The eigenproblem in the orthogonalised subspace\<close>

text \<open>
  The first part of \<open>diagonalizeSubspaceMatrix\<close>, up to the eigenvectors in the original
  subspace. The flag \<open>intel\<close> says whether the macro \<open>__INTEL_COMPILER\<close> is defined. The
  singular value decomposition of the overlap matrix is cut at \<open>rank\<close>; \<open>Hbar\<close> has \<open>rank\<close>
  rows and columns.
\<close>

definition overlap_for_svd :: "('v, 'm) IterativeSolver_scheme \<Rightarrow> real matrix" where
  "overlap_for_svd s =
     (let kept = rows (m_subspaceMatrix s);
          S = block 0 0 kept kept (m_subspaceOverlap s)
      in S\<lparr>coeff := (\<lambda>i j. if i = j \<and> i < rows S \<and> \<bar>coeff S i i - 1\<bar> < 1 / 10 ^ 15
                            then 1 else coeff S i j)\<rparr>)"

definition svmh :: "Eigen \<Rightarrow> ('v, 'm) IterativeSolver_scheme \<Rightarrow> real matrix" where
  "svmh E s =
     (let S = overlap_for_svd s; rank = svd_rank E (m_svdThreshold s) S
      in \<lparr>rows = rank, cols = 1,
          coeff = (\<lambda>k j. 1 / sqrt (coeff (singularValues (JacobiSVD E S)) k 0))\<rparr>)"

definition Hbar :: "Eigen \<Rightarrow> ('v, 'm) IterativeSolver_scheme \<Rightarrow> real matrix" where
  "Hbar E s =
     (let kept = rows (m_subspaceMatrix s);
          H = block 0 0 kept kept (m_subspaceMatrix s);
          S = overlap_for_svd s;
          svd = JacobiSVD E S;
          rank = svd_rank E (m_svdThreshold s) S
      in mat_mult (mat_mult (mat_mult (mat_mult (asDiagonal (svmh E s))
                                                 (adjoint (leftCols rank (matrixU svd))))
                                       H)
                             (leftCols rank (matrixV svd)))
                   (asDiagonal (svmh E s)))"

definition back_transformation :: "Eigen \<Rightarrow> ('v, 'm) IterativeSolver_scheme \<Rightarrow> real matrix" where
  "back_transformation E s =
     (let S = overlap_for_svd s;
          rank = svd_rank E (m_svdThreshold s) S
      in mat_mult (leftCols rank (matrixV (JacobiSVD E S))) (asDiagonal (svmh E s)))"

definition eigenvectors_negligibly_complex :: "complex matrix \<Rightarrow> complex matrix \<Rightarrow> bool" where
  "eigenvectors_negligibly_complex eigenvalues eigenvectors =
     (matrix_norm (map_matrix Im eigenvalues) < 1 / 10 ^ 10
      \<and> matrix_norm (map_matrix Im eigenvectors) < 1 / 10 ^ 10)"

definition solve_Hbar ::
  "Eigen \<Rightarrow> bool \<Rightarrow> ('v, 'm) IterativeSolver_scheme \<Rightarrow> error + ('v, 'm) IterativeSolver_scheme" where
  "solve_Hbar E intel s =
     (let (eigenvalues, eigenvectors) = EigenSolver E (Hbar E s);
          s1 = s\<lparr>m_subspaceEigenvalues := eigenvalues\<rparr>
      in if eigenvectors_negligibly_complex eigenvalues eigenvectors
         then Inr (s1\<lparr>m_subspaceEigenvectors :=
                        map_matrix (\<lambda>x. Some (complex_of_real x))
                          (mat_mult (back_transformation E s) (map_matrix Re eigenvectors))\<rparr>)
         else if intel
         then Inl (runtime_error
                ''Intel compiler does not support working with complex eigen3 entities properly'')
         else Inr (s1\<lparr>m_subspaceEigenvectors :=
                        map_matrix Some
                          (mat_mult (map_matrix complex_of_real (back_transformation E s))
                             eigenvectors)\<rparr>))"

subsection \<open>Sorting the eigensolutions\<close>

text \<open>
  \<open>for (ll = 0; std::count(map.begin(), map.end(), ll) != 0; ll++);\<close> stops at the first
  index that \<open>map\<close> does not hold.
\<close>

function first_unused :: "nat list \<Rightarrow> nat \<Rightarrow> nat" where
  "first_unused map' ll = (if ll \<in> set map' then first_unused map' (Suc ll) else ll)"
  by pat_completeness auto
termination
proof (relation "measure (\<lambda>(map', ll). Suc (Max (set map')) - ll)")
  show "wf (measure (\<lambda>(map', ll). Suc (Max (set map')) - ll))" by simp
next
  fix map' :: "nat list" and ll
  assume "ll \<in> set map'"
  then have "ll \<le> Max (set map')" by simp
  then show "((map', Suc ll), map', ll) \<in> measure (\<lambda>(map', ll). Suc (Max (set map')) - ll)"
    by simp
qed

declare first_unused.simps [simp del]

text \<open>
  The inner loop over \<open>l\<close>: among the indices that \<open>map\<close> does not hold, the first one
  with the smallest real part of the eigenvalue.
\<close>

definition select_lowest :: "complex matrix \<Rightarrow> nat \<Rightarrow> nat list \<Rightarrow> nat" where
  "select_lowest eigval n map' =
     foldl (\<lambda>ll l. if l \<notin> set map' \<and> Re (coeff eigval l 0) < Re (coeff eigval ll 0) then l else ll)
       (first_unused map' 0) [0..<n]"

text \<open>
  The outer loop over \<open>k\<close>, on the triple of \<open>map\<close>, \<open>m_subspaceEigenvalues\<close> and
  \<open>m_subspaceEigenvectors\<close>; \<open>eigval\<close> and \<open>eigvec\<close> are the copies taken before the loop.
\<close>

definition sort_step ::
  "complex matrix \<Rightarrow> complex option matrix \<Rightarrow> nat \<Rightarrow>
   nat list \<times> complex matrix \<times> complex option matrix \<Rightarrow> nat \<Rightarrow>
   nat list \<times> complex matrix \<times> complex option matrix" where
  "sort_step eigval eigvec n st k =
     (case st of (map', values, vectors) \<Rightarrow>
        (let ll = select_lowest eigval n map'
         in (map' @ [ll], set_coeff k 0 (coeff eigval ll 0) values, set_col k eigvec ll vectors)))"

definition sort_eigensolutions ::
  "nat \<Rightarrow> complex matrix \<Rightarrow> complex option matrix \<Rightarrow>
   nat list \<times> complex matrix \<times> complex option matrix" where
  "sort_eigensolutions n eigval eigvec =
     foldl (sort_step eigval eigvec n) ([], eigval, eigvec) [0..<n]"

subsection \<open>Normalisation and phase of the eigenvectors\<close>

text \<open>
  The body of the loop over \<open>k\<close> in the three passes, on the pair of
  \<open>m_subspaceEigenvectors\<close> and \<open>ovlTimesVec\<close>. Eigen's \<open>a.dot(b)\<close> conjugates \<open>a\<close>; in
  \<open>col(k).adjoint().dot(m_subspaceOverlap * col(k))\<close> the adjoint conjugates once more, so
  that \<open>ovl\<close> is \<open>v\<^sup>T S v\<close> without a conjugation, which is zero or negative for some
  complex \<open>v\<close>. The source divides the column by \<open>std::sqrt(ovl.real())\<close> without a test:
  if \<open>ovl.real()\<close> is zero the quotients are infinities and NaNs, if it is negative the
  square root is a NaN and so are the quotients; the loop goes on with them. A row of
  \<open>ovlTimesVec\<close> is written before it is read.
\<close>

definition null_space_vector ::
  "complex matrix \<Rightarrow> nat \<Rightarrow> complex option matrix \<Rightarrow> complex option matrix" where
  "null_space_vector eigenvalues k V =
     (if cmod (coeff eigenvalues k 0) < 1 / 10 ^ 12
      then V\<lparr>coeff := (\<lambda>i j. if j = k
                              then map_option
                                     (\<lambda>z. complex_of_real (Re z + 3256897 / 10 ^ 7 * Im z))
                                     (coeff V i k)
                              else coeff V i j)\<rparr>
      else V)"

definition project_out ::
  "complex option matrix \<Rightarrow> nat \<Rightarrow> complex option matrix \<Rightarrow> nat \<Rightarrow> complex option matrix" where
  "project_out ovlTimesVec k V l =
     (let d = cd_sum (map (\<lambda>i. cd_times (map_option cnj (coeff ovlTimesVec l i)) (coeff V i k))
                        [0..<rows V])
      in V\<lparr>coeff := (\<lambda>i j. if j = k then cd_minus (coeff V i k) (cd_times (coeff V i l) d)
                             else coeff V i j)\<rparr>)"

definition overlap_norm :: "real matrix \<Rightarrow> complex option matrix \<Rightarrow> nat \<Rightarrow> complex option" where
  "overlap_norm S V k =
     cd_sum (map (\<lambda>i. cd_times (coeff V i k)
                        (cd_sum (map (\<lambda>j. cd_times (Some (complex_of_real (coeff S i j)))
                                             (coeff V j k))
                                   [0..<cols S])))
               [0..<rows V])"

text \<open>
  The division of the column \<open>k\<close> by \<open>std::sqrt(ovl.real())\<close>: the quotients are numbers
  only if \<open>ovl\<close> is a number with a positive real part.
\<close>

definition divide_column ::
  "nat \<Rightarrow> complex option \<Rightarrow> complex option matrix \<Rightarrow> complex option matrix" where
  "divide_column k ovl V =
     V\<lparr>coeff := (\<lambda>i j. if j = k
                        then (case ovl of
                                None \<Rightarrow> None
                              | Some z \<Rightarrow> if Re z > 0
                                          then map_option (\<lambda>v. v / complex_of_real (sqrt (Re z)))
                                                 (coeff V i k)
                                          else None)
                        else coeff V i j)\<rparr>"

text \<open>
  The phase: \<open>lmax\<close> is the row of the largest coefficient of the column. If the column
  is not a number, neither is its negative, whatever \<open>lmax\<close> is and whatever the test of
  the sign gives; the model then leaves the column as it is.
\<close>

definition largest_component :: "complex option matrix \<Rightarrow> nat \<Rightarrow> nat" where
  "largest_component V k =
     foldl (\<lambda>lmax l. if (case (coeff V l k, coeff V lmax k) of
                            (Some a, Some b) \<Rightarrow> cmod a > cmod b
                          | _ \<Rightarrow> False)
                      then l else lmax) 0
       [0..<rows V]"

definition normalise_step ::
  "('v, 'm) IterativeSolver_scheme \<Rightarrow> complex option matrix \<times> complex option matrix \<Rightarrow> nat \<Rightarrow>
   complex option matrix \<times> complex option matrix" where
  "normalise_step s st k =
     (case st of (V, ovlTimesVec) \<Rightarrow>
        (let V1 = null_space_vector (m_subspaceEigenvalues s) k V;
             V2 = (if m_hermitian s then foldl (project_out ovlTimesVec k) V1 [0..<k] else V1);
             ovl = overlap_norm (m_subspaceOverlap s) V2 k;
             V3 = divide_column k ovl V2;
             ovlTimesVec1 = ovlTimesVec\<lparr>coeff := (\<lambda>r c.
                 if r = k
                 then cd_sum (map (\<lambda>i. cd_times (map_option cnj (coeff V3 i k))
                                          (Some (complex_of_real (coeff (m_subspaceOverlap s) i c))))
                                [0..<rows V3])
                 else coeff ovlTimesVec r c)\<rparr>;
             lmax = largest_component V3 k;
             V4 = (if (case coeff V3 lmax k of Some z \<Rightarrow> Re z < 0 | None \<Rightarrow> False)
                   then V3\<lparr>coeff := (\<lambda>i j. if j = k then map_option uminus (coeff V3 i k)
                                           else coeff V3 i j)\<rparr>
                   else V3)
         in (V4, ovlTimesVec1)))"

definition normalise_eigenvectors ::
  "('v, 'm) IterativeSolver_scheme \<Rightarrow> complex option matrix" where
  "normalise_eigenvectors s =
     (let V = m_subspaceEigenvectors s;
          ovlTimesVec = \<lparr>rows = cols V, cols = rows V, coeff = (\<lambda>i j. Some 0)\<rparr>
      in fst (foldl (\<lambda>st repeat. foldl (normalise_step s) st [0..<cols V])
                (V, ovlTimesVec) [0..<3]))"

text \<open>\<open>diagonalizeSubspaceMatrix\<close>: the three parts in sequence.\<close>

definition diagonalizeSubspaceMatrix ::
  "Eigen \<Rightarrow> bool \<Rightarrow> ('v, 'm) IterativeSolver_scheme \<Rightarrow> error + ('v, 'm) IterativeSolver_scheme" where
  "diagonalizeSubspaceMatrix E intel s =
     (case solve_Hbar E intel s of
        Inl e \<Rightarrow> Inl e
      | Inr s1 \<Rightarrow>
          (let (map', values, vectors) =
                 sort_eigensolutions (cols (Hbar E s)) (m_subspaceEigenvalues s1)
                   (m_subspaceEigenvectors s1);
               s2 = s1\<lparr>m_subspaceEigenvalues := values, m_subspaceEigenvectors := vectors\<rparr>
           in Inr (s2\<lparr>m_subspaceEigenvectors := normalise_eigenvectors s2\<rparr>)))"

section \<open>The base class \<open>IterativeSolver\<close>: interpolation\<close>

text \<open>\<open>v.resize(n)\<close> of a \<open>std::vector\<close> of numbers: new elements are zero.\<close>

definition resize_list :: "nat \<Rightarrow> real list \<Rightarrow> real list" where
  "resize_list n xs = take n xs @ replicate (n - length xs) 0"

text \<open>
  The body of the loop over the working set in \<open>doInterpolation\<close>, for the root \<open>root\<close>,
  in three steps. First the P, Q and R contributions are added to the solution \<open>x\<close>, to
  the residual \<open>r\<close> and to the P coefficients \<open>xP\<close> of the solution; \<open>nQ\<close> is the number of
  Q vectors that the interpolation matrix knows.
\<close>

definition interpolation_nQ :: "('v, 'm) IterativeSolver_scheme \<Rightarrow> nat" where
  "interpolation_nQ s =
     rows (m_interpolation s) - length (m_pspace s) - length (m_current_r s)"

definition add_P_contribution ::
  "'v vector_ops \<Rightarrow> ('v, 'm) IterativeSolver_scheme \<Rightarrow> nat \<Rightarrow> 'v \<times> real list \<Rightarrow> 'v \<times> real list" where
  "add_P_contribution T s root' st =
     foldl (\<lambda>(x, xP) l.
              (axpy_sparse T (coeff (m_interpolation s) l root') (m_pspace s ! l) x,
               xP[l := coeff (m_interpolation s) l root']))
       st [0..<length (m_pspace s)]"

definition add_Q_contribution ::
  "'v vector_ops \<Rightarrow> ('v, 'm) IterativeSolver_scheme \<Rightarrow> nat \<Rightarrow> 'v \<times> 'v \<Rightarrow> 'v \<times> 'v" where
  "add_Q_contribution T s root' st =
     foldl (\<lambda>(x, r) q.
              (let l = length (m_pspace s) + q
               in (axpy T (coeff (m_interpolation s) l root') (Q_vectors (m_qspace s) ! q) x,
                   axpy T (coeff (m_interpolation s) l root') (Q_actions (m_qspace s) ! q) r)))
       st [0..<interpolation_nQ s]"

definition add_R_contribution ::
  "'v vector_ops \<Rightarrow> ('v, 'm) IterativeSolver_scheme \<Rightarrow> nat \<Rightarrow> 'v \<times> 'v \<Rightarrow> 'v \<times> 'v" where
  "add_R_contribution T s root' st =
     foldl (\<lambda>(x, r) c.
              (let l = length (m_pspace s) + interpolation_nQ s + c
               in (axpy T (coeff (m_interpolation s) l root') (m_current_r s ! c) x,
                   axpy T (coeff (m_interpolation s) l root') (m_current_v s ! c) r)))
       st [0..<length (m_current_r s)]"

definition combine ::
  "'v vector_ops \<Rightarrow> ('v, 'm) IterativeSolver_scheme \<Rightarrow> bool \<Rightarrow> nat \<Rightarrow>
   'v \<times> 'v \<times> real list \<Rightarrow> 'v \<times> 'v \<times> real list" where
  "combine T s actionOnly root' st =
     (case st of (x, r, xP) \<Rightarrow>
        (let nP = length (m_pspace s);
             xP1 = (if nP > 0 then resize_list nP xP else xP);
             (x1, xP2) = (if \<not> actionOnly then add_P_contribution T s root' (x, xP1) else (x, xP1));
             (x2, r2) = add_Q_contribution T s root' (x1, r);
             (x3, r3) = add_R_contribution T s root' (x2, r2)
         in (x3, r3, xP2)))"

text \<open>
  Then, with \<open>m_residual_eigen\<close>, both vectors are scaled by the norm of the solution,
  which must not be zero.
\<close>

definition renormalise ::
  "'v vector_ops \<Rightarrow> ('v, 'm) IterativeSolver_scheme \<Rightarrow> 'v \<times> 'v \<Rightarrow> error + 'v \<times> 'v" where
  "renormalise T s st =
     (case st of (x, r) \<Rightarrow>
        if m_residual_eigen s then
          (let norm = dot T x x in
           if norm = 0 then Inl (runtime_error ''new solution has zero norm'')
           else Inr (scal T (1 / sqrt norm) x, scal T (1 / sqrt norm) r))
        else Inr (x, r))"

text \<open>
  Last, unless only the action is wanted, the eigenvalue times the solution and the
  right-hand side are subtracted from the residual.
\<close>

definition subtract_from_residual ::
  "'v vector_ops \<Rightarrow> ('v, 'm) IterativeSolver_scheme \<Rightarrow> bool \<Rightarrow> nat \<Rightarrow> 'v \<times> 'v \<Rightarrow> 'v \<times> 'v" where
  "subtract_from_residual T s actionOnly root' st =
     (case st of (x, r) \<Rightarrow>
        (let r1 = (if \<not> actionOnly \<and> (m_residual_eigen s \<or> (m_residual_rhs s \<and> m_augmented_hessian s > 0))
                   then axpy T (- Re (coeff (m_subspaceEigenvalues s) root' 0)) x r else r);
             r2 = (if \<not> actionOnly \<and> m_residual_rhs s then axpy T (- 1) (m_rhs s ! root') r1 else r1)
         in (x, r2)))"

definition interpolate_root ::
  "'v vector_ops \<Rightarrow> ('v, 'm) IterativeSolver_scheme \<Rightarrow> bool \<Rightarrow> nat \<Rightarrow>
   'v \<times> 'v \<times> real list \<Rightarrow> error + 'v \<times> 'v \<times> real list" where
  "interpolate_root T s actionOnly root' st =
     (case combine T s actionOnly root' st of (x, r, xP) \<Rightarrow>
        (case renormalise T s (x, r) of
           Inl e \<Rightarrow> Inl e
         | Inr (x1, r1) \<Rightarrow>
             (case subtract_from_residual T s actionOnly root' (x1, r1) of
                (x2, r2) \<Rightarrow> Inr (x2, r2, xP))))"

text \<open>
  The loop over the positions \<open>kkk\<close> of the working set, on the caller's three lists; an
  exception ends it. Without a P space the list \<open>solutionP\<close> is not touched.
\<close>

fun doInterpolation_loop ::
  "'v vector_ops \<Rightarrow> ('v, 'm) IterativeSolver_scheme \<Rightarrow> bool \<Rightarrow> nat list \<Rightarrow>
   'v list \<times> 'v list \<times> real list list \<Rightarrow> error + 'v list \<times> 'v list \<times> real list list" where
  "doInterpolation_loop T s actionOnly [] st = Inr st"
| "doInterpolation_loop T s actionOnly (kkk # ks) (solution, residual, solutionP) =
     (let nP = length (m_pspace s)
      in case interpolate_root T s actionOnly (m_working_set s ! kkk)
                (solution ! kkk, residual ! kkk, if nP > 0 then solutionP ! kkk else []) of
           Inl e \<Rightarrow> Inl e
         | Inr (x, r, xP) \<Rightarrow>
             doInterpolation_loop T s actionOnly ks
               (solution[kkk := x], residual[kkk := r],
                if nP > 0 then solutionP[kkk := xP] else solutionP))"

text \<open>
  \<open>doInterpolation(solution, residual, solutionP, other, actionOnly)\<close>. All vectors of the
  three sets are zeroed first. \<open>nQ\<close> is computed in unsigned arithmetic: if the
  interpolation matrix has fewer than \<open>nP + nR\<close> rows it wraps around to a number that
  fails the first assertion.
\<close>

definition doInterpolation ::
  "'v vector_ops \<Rightarrow> ('v, 'm) IterativeSolver_scheme \<Rightarrow> 'v list \<Rightarrow> 'v list \<Rightarrow> real list list \<Rightarrow>
   'v list \<Rightarrow> bool \<Rightarrow> error + 'v list \<times> 'v list \<times> real list list \<times> 'v list" where
  "doInterpolation T s solution residual solutionP other actionOnly =
     (let solution0 = map (scal T 0) solution;
          residual0 = map (scal T 0) residual;
          other0 = map (scal T 0) other;
          nP = length (m_pspace s);
          nR = length (m_current_r s)
      in if rows (m_interpolation s) < nP + nR
            \<or> \<not> interpolation_nQ s \<le> Q_size (m_qspace s)
         then Inl (assertion_failed ''nQ <= m_qspace.size()'')
         else if \<not> length (m_working_set s) \<le> length solution
         then Inl (assertion_failed ''m_working_set.size() <= solution.size()'')
         else if \<not> (nP = 0 \<or> length solutionP = length residual)
         then Inl (assertion_failed ''nP == 0 || solutionP.size() == residual.size()'')
         else
           (case doInterpolation_loop T s actionOnly [0..<length (m_working_set s)]
                   (solution0, residual0, solutionP) of
              Inl e \<Rightarrow> Inl e
            | Inr (solution1, residual1, solutionP1) \<Rightarrow>
                Inr (solution1, residual1, solutionP1, other0)))"

section \<open>The base class \<open>IterativeSolver\<close>: \<open>addVector\<close>\<close>

text \<open>
  The first loop of \<open>addVector\<close> over the working set: with \<open>m_residual_eigen\<close>, a
  parameter vector whose squared norm is further than \<open>10^-3\<close> from \<open>1\<close> is scaled to unit
  length together with its action. Copies of the first vectors become \<open>m_current_r\<close> and
  \<open>m_current_v\<close>.
\<close>

definition rescale_step ::
  "'v vector_ops \<Rightarrow> ('v, 'm) IterativeSolver_scheme \<Rightarrow> 'v list \<times> 'v list \<Rightarrow> nat \<Rightarrow> 'v list \<times> 'v list" where
  "rescale_step T s st k =
     (case st of (parameters, action) \<Rightarrow>
        if m_residual_eigen s then
          (let sq = dot T (parameters ! k) (parameters ! k) in
           if \<bar>sq - 1\<bar> > 1 / 10 ^ 3
           then (parameters[k := scal T (1 / sqrt sq) (parameters ! k)],
                 action[k := scal T (1 / sqrt sq) (action ! k)])
           else (parameters, action))
        else (parameters, action))"

definition rescale ::
  "'v vector_ops \<Rightarrow> ('v, 'm) IterativeSolver_scheme \<Rightarrow> 'v list \<Rightarrow> 'v list \<Rightarrow> 'v list \<times> 'v list" where
  "rescale T s parameters action =
     foldl (rescale_step T s) (parameters, action) [0..<length (m_working_set s)]"

text \<open>
  The pending pairs \<open>m_last_d\<close>, \<open>m_last_hd\<close> are added to the Q space, one for each
  position of the working set.
\<close>

definition add_last_to_Q ::
  "'v vector_ops \<Rightarrow> ('v, 'm) IterativeSolver_scheme \<Rightarrow> 'v list \<Rightarrow> 'v list \<Rightarrow> 'v Q" where
  "add_last_to_Q T s parameters action =
     foldl (\<lambda>q k. Q_add_difference T (parameters ! k) (action ! k) (m_last_d s ! k)
                     (m_last_hd s ! k) (m_orthogonalise_Q s) q)
       (m_qspace s) [0..<length (m_working_set s)]"

text \<open>
  The interactions of the working vectors with the Q space, with the P space and among
  themselves, as the loops after the comment "this generates another read for the q
  space" compute them.
\<close>

definition interactions ::
  "'v vector_ops \<Rightarrow> ('v, 'm) IterativeSolver_scheme \<Rightarrow> 'v list \<Rightarrow> 'v list \<Rightarrow>
   ('v, 'm) IterativeSolver_scheme" where
  "interactions T s parameters action =
     (let q = m_qspace s;
          nQ = Q_size q;
          nW = length (m_working_set s);
          resres = m_subspaceMatrixResRes s;
          h_qr = (\<lambda>a. map (\<lambda>m. dot T (action ! m)
                              ((if resres then Q_actions q else Q_vectors q) ! a)) [0..<nW])
      in s\<lparr>m_s_qr := (\<lambda>a. if a < nQ
                            then map (\<lambda>m. dot T (parameters ! m) (Q_vectors q ! a)) [0..<nW]
                            else m_s_qr s a),
            m_h_qr := (\<lambda>a. if a < nQ then h_qr a else m_h_qr s a),
            m_hh_qr := (\<lambda>a. if a < nQ
                             then map (\<lambda>m. dot T (action ! m) (Q_actions q ! a)) [0..<nW]
                             else m_hh_qr s a),
            m_h_rq := (\<lambda>a. if a < nQ
                            then map (\<lambda>m. if m_hermitian s then h_qr a ! m
                                           else dot T ((if resres then action else parameters) ! m)
                                                  (Q_actions q ! a)) [0..<nW]
                            else m_h_rq s a),
            m_s_pr := map (\<lambda>p. map (\<lambda>k. dot_sparse T (parameters ! k) (m_pspace s ! p)) [0..<nW])
                        [0..<length (m_pspace s)],
            m_h_pr := map (\<lambda>p. map (\<lambda>k. dot_sparse T (action ! k) (m_pspace s ! p)) [0..<nW])
                        [0..<length (m_pspace s)],
            m_h_rp := map (\<lambda>p. map (\<lambda>k. dot_sparse T (action ! k) (m_pspace s ! p)) [0..<nW])
                        [0..<length (m_pspace s)],
            m_rhs_r := map (\<lambda>m. map (\<lambda>rhs. dot T (parameters ! m) (m_rhs s ! rhs))
                                    [0..<length (m_rhs s)]) [0..<nW],
            m_s_rr := map (\<lambda>m. map (\<lambda>n. dot T (parameters ! n) (parameters ! m)) [0..<nW]) [0..<nW],
            m_h_rr := map (\<lambda>m. map (\<lambda>n. dot T (action ! n)
                                             ((if resres then action else parameters) ! m)) [0..<nW])
                        [0..<nW],
            m_hh_rr := map (\<lambda>m. map (\<lambda>n. dot T (action ! n) (action ! m)) [0..<nW]) [0..<nW]\<rparr>)"

text \<open>
  The loop "move any newly-converged solutions into the q space". Its state is the pair
  of the solver and the caller's two lists; \<open>k\<close> is the loop variable. A root that has
  converged is removed from the working set and the later vectors move down: after the
  \<open>k--\<close> of the body and the \<open>k++\<close> of the loop the next turn has the same \<open>k\<close>.
\<close>

definition converged :: "('v, 'm) IterativeSolver_scheme \<Rightarrow> nat \<Rightarrow> bool" where
  "converged s root' = (m_linear s \<and> m_errors s ! root' < m_thresh s)"

definition move_down :: "nat \<Rightarrow> nat \<Rightarrow> 'a list \<Rightarrow> 'a list" where
  "move_down k n xs = foldl (\<lambda>ys kp. ys[kp - 1 := ys ! kp]) xs [k + 1..<n]"

definition record_solution ::
  "'v vector_ops \<Rightarrow> nat \<Rightarrow> ('v, 'm) IterativeSolver_scheme \<times> 'v list \<times> 'v list \<Rightarrow>
   ('v, 'm) IterativeSolver_scheme" where
  "record_solution T k st =
     (case st of (s, parameters, action) \<Rightarrow>
        (let root' = m_working_set s ! k;
             q = Q_add_solution T (parameters ! k) (action ! k) (m_qspace s)
         in s\<lparr>m_qspace := q, m_q_solutions := (m_q_solutions s)(root' \<mapsto> last (Q_keys q))\<rparr>))"

definition remove_from_working_set ::
  "nat \<Rightarrow> ('v, 'm) IterativeSolver_scheme \<times> 'v list \<times> 'v list \<Rightarrow>
   ('v, 'm) IterativeSolver_scheme \<times> 'v list \<times> 'v list" where
  "remove_from_working_set k st =
     (case st of (s, parameters, action) \<Rightarrow>
        (let n = length (m_working_set s)
         in (s\<lparr>m_working_set := butlast (move_down k n (m_working_set s))\<rparr>,
             move_down k n parameters, move_down k n action)))"

function retire_converged ::
  "'v vector_ops \<Rightarrow> nat \<Rightarrow> ('v, 'm) IterativeSolver_scheme \<times> 'v list \<times> 'v list \<Rightarrow>
   ('v, 'm) IterativeSolver_scheme \<times> 'v list \<times> 'v list" where
  "retire_converged T k (s, parameters, action) =
     (if k < length (m_working_set s) then
        (let root' = m_working_set s ! k;
             s1 = (if converged s root' \<and> m_q_solutions s root' = None
                   then record_solution T k (s, parameters, action) else s)
         in if converged s1 root'
            then retire_converged T k (remove_from_working_set k (s1, parameters, action))
            else retire_converged T (k + 1)
                   (s1\<lparr>m_last_d := m_last_d s1 @ [parameters ! k],
                       m_last_hd := m_last_hd s1 @ [action ! k]\<rparr>, parameters, action))
      else (s, parameters, action))"
  by pat_completeness auto
termination
proof (relation "measure (\<lambda>(T, k, s, parameters, action). length (m_working_set s) - k)")
  show "wf (measure (\<lambda>(T, k, s, parameters, action). length (m_working_set s) - k))" by simp
next
  fix T :: "'v vector_ops" and k and s :: "('v, 'm) IterativeSolver_scheme"
    and parameters action :: "'v list" and root' s1
  assume k: "k < length (m_working_set s)"
    and s1: "s1 = (if converged s root' \<and> m_q_solutions s root' = None
                   then record_solution T k (s, parameters, action) else s)"
  have ws: "m_working_set s1 = m_working_set s"
    by (simp add: s1 record_solution_def Let_def)
  have len: "length (move_down k n xs) = length xs" for n and xs :: "nat list"
    unfolding move_down_def by (induction n) simp_all
  show "((T, k, remove_from_working_set k (s1, parameters, action)), T, k, s, parameters, action)
          \<in> measure (\<lambda>(T, k, s, parameters, action). length (m_working_set s) - k)"
    using k by (simp add: remove_from_working_set_def Let_def ws len)
  show "((T, k + 1, s1\<lparr>m_last_d := m_last_d s1 @ [parameters ! k],
                        m_last_hd := m_last_hd s1 @ [action ! k]\<rparr>, parameters, action),
          T, k, s, parameters, action)
          \<in> measure (\<lambda>(T, k, s, parameters, action). length (m_working_set s) - k)"
    using k by (simp add: ws)
qed

declare retire_converged.simps [simp del]

text \<open>
  The working set with which \<open>addVector\<close> goes on after its first lines: all positions
  of \<open>parameters\<close> in the first call, when the Q space and the working set are empty, and
  the working set otherwise.
\<close>

definition entry_working_set :: "('v, 'm) IterativeSolver_scheme \<Rightarrow> 'v list \<Rightarrow> nat list" where
  "entry_working_set s parameters =
     (if Q_size (m_qspace s) = 0 \<and> m_working_set s = [] then [0..<length parameters]
      else m_working_set s)"

text \<open>
  The second half of \<open>addVector\<close>, from the test of the buffer size on: the working set
  becomes the set of all roots, the errors are evaluated, the converged roots are retired,
  and the residual is established again.
\<close>

definition evaluate_errors ::
  "'v vector_ops \<Rightarrow> ('v, 'm) IterativeSolver_scheme \<Rightarrow> 'v list \<Rightarrow> real list" where
  "evaluate_errors T s action =
     foldl (\<lambda>errors k. errors[m_working_set s ! k := sqrt (dot T (action ! k) (action ! k))])
       (m_errors s) [0..<length (m_working_set s)]"

definition nullify_solution ::
  "'v vector_ops \<Rightarrow> ('v, 'm) IterativeSolver_scheme \<Rightarrow> 'v list \<Rightarrow>
   ('v, 'm) IterativeSolver_scheme \<times> 'v list" where
  "nullify_solution T s parameters =
     (if m_nullify_solution_before_update s then
        (let ks = [0..<length (m_working_set s)]
         in (s\<lparr>m_last_d := map (\<lambda>k. m_current_r s ! k) ks,
               m_last_hd := map (\<lambda>k. m_current_v s ! k) ks\<rparr>,
             foldl (\<lambda>ps k. ps[k := scal T 0 (ps ! k)]) parameters ks))
      else (s, parameters))"

definition addVector_finish ::
  "'v vector_ops \<Rightarrow> ('v, 'm) IterativeSolver_scheme \<Rightarrow> 'v list \<Rightarrow> 'v list \<Rightarrow> real list list \<Rightarrow>
   'v list \<Rightarrow>
   error + ('v, 'm) IterativeSolver_scheme \<times> 'v list \<times> 'v list \<times> real list list \<times> 'v list \<times> nat" where
  "addVector_finish T s parameters action parametersP other =
     (if m_roots s > length parameters
      then Inl (runtime_error ''Cannot yet work with buffer smaller than number of roots'')
      else
        (let s1 = s\<lparr>m_errors := resize_list (m_roots s) (m_errors s),
                    m_working_set := [0..<m_roots s]\<rparr>
         in case (if m_linear s1 then doInterpolation T s1 parameters action parametersP other False
                  else Inr (parameters, action, parametersP, other)) of
              Inl e \<Rightarrow> Inl e
            | Inr (parameters1, action1, parametersP1, other1) \<Rightarrow>
                (let s2 = s1\<lparr>m_errors := evaluate_errors T s1 action1\<rparr>
                 in case doInterpolation T s2 parameters1 action1 parametersP1 other1 True of
                      Inl e \<Rightarrow> Inl e
                    | Inr (parameters2, action2, parametersP2, other2) \<Rightarrow>
                        (case retire_converged T 0
                                (s2\<lparr>m_last_d := [], m_last_hd := []\<rparr>, parameters2, action2) of
                           (s3, parameters3, action3) \<Rightarrow>
                             if length (m_last_d s3) \<noteq> length (m_working_set s3)
                             then Inl (assertion_failed ''m_last_d.size() == m_working_set.size()'')
                             else
                               (case doInterpolation T s3 parameters3 action3 parametersP2 other2
                                       False of
                                  Inl e \<Rightarrow> Inl e
                                | Inr (parameters4, action4, parametersP4, other4) \<Rightarrow>
                                    (case nullify_solution T s3 parameters4 of
                                       (s4, parameters5) \<Rightarrow>
                                         Inr (s4\<lparr>m_current_r := [], m_current_v := []\<rparr>,
                                              parameters5, action4, parametersP4, other4,
                                              length (m_working_set s4))))))))"

text \<open>
  \<open>addVector(parameters, action, parametersP, other)\<close>. The pure virtual function
  \<open>solveReducedProblem\<close> is the parameter \<open>srp\<close>; its return value is not used. The result
  is the new state of the solver, the caller's four sets of vectors, and the return
  value.
\<close>

definition addVector ::
  "'v vector_ops \<Rightarrow> Eigen \<Rightarrow>
   (('v, 'm) IterativeSolver_scheme \<Rightarrow> error + bool \<times> ('v, 'm) IterativeSolver_scheme) \<Rightarrow>
   ('v, 'm) IterativeSolver_scheme \<Rightarrow> 'v list \<Rightarrow> 'v list \<Rightarrow> real list list \<Rightarrow> 'v list \<Rightarrow>
   error + ('v, 'm) IterativeSolver_scheme \<times> 'v list \<times> 'v list \<times> real list list \<times> 'v list \<times> nat" where
  "addVector T E srp s parameters action parametersP other =
     (let s1 = (if m_roots s < 1 then s\<lparr>m_roots := length parameters\<rparr> else s);
          s2 = (if Q_size (m_qspace s1) = 0 \<and> m_working_set s1 = []
                then s1\<lparr>m_working_set := [0..<length parameters]\<rparr> else s1);
          nW = length (m_working_set s2)
      in if nW = 0 then Inr (s2, parameters, action, parametersP, other, 0)
         else if \<not> length parameters \<ge> nW
         then Inl (assertion_failed ''parameters.size() >= m_working_set.size()'')
         else if length parameters \<noteq> length action
         then Inl (assertion_failed ''parameters.size() == action.size()'')
         else
           (let s3 = s2\<lparr>m_iterations := m_iterations s2 + 1, m_current_r := [], m_current_v := []\<rparr>;
                (parameters1, action1) = rescale T s3 parameters action;
                s4 = s3\<lparr>m_current_r := take nW parameters1, m_current_v := take nW action1\<rparr>
            in if m_last_d s4 \<noteq> [] \<and> length (m_last_d s4) \<noteq> nW
               then Inl (assertion_failed ''m_last_d.size() == m_working_set.size()'')
               else if m_last_d s4 \<noteq> [] \<and> length (m_last_hd s4) \<noteq> nW
               then Inl (assertion_failed ''m_last_hd.size() == m_working_set.size()'')
               else
                 (let s5 = (if m_last_d s4 \<noteq> []
                            then s4\<lparr>m_qspace := add_last_to_Q T s4 parameters1 action1,
                                    m_last_d := [], m_last_hd := []\<rparr>
                            else s4);
                      s6 = interactions T s5 parameters1 action1;
                      s7 = buildSubspace T E s6
                  in case srp s7 of
                       Inl e \<Rightarrow> Inl e
                     | Inr (update, s8) \<Rightarrow>
                         addVector_finish T s8 parameters1 action1 parametersP other)))"

section \<open>The class \<open>LinearEigensystem\<close>\<close>

text \<open>
  \<open>LinearEigensystem::solveReducedProblem\<close>. \<open>block(0, 0, rows, n)\<close> of the eigenvector
  matrix is in range only if the matrix has at least \<open>n\<close> columns; Eigen checks the range
  with an assertion. The real part of the block becomes the interpolation matrix, a
  matrix of real numbers in this model: if a coefficient of the block is not a number,
  the result is \<open>not_a_number\<close>.
\<close>

definition block_is_finite :: "nat \<Rightarrow> nat \<Rightarrow> 'a option matrix \<Rightarrow> bool" where
  "block_is_finite p q M = list_all (\<lambda>i. list_all (\<lambda>j. coeff M i j \<noteq> None) [0..<q]) [0..<p]"

definition LinearEigensystem_solveReducedProblem ::
  "Eigen \<Rightarrow> bool \<Rightarrow> ('v, 'm) IterativeSolver_scheme \<Rightarrow>
   error + bool \<times> ('v, 'm) IterativeSolver_scheme" where
  "LinearEigensystem_solveReducedProblem E intel s =
     (if m_rspt s then Inl (logic_error ''RSPT not yet implemented'')
      else
        (case diagonalizeSubspaceMatrix E intel s of
           Inl e \<Rightarrow> Inl e
         | Inr s1 \<Rightarrow>
             (let V = m_subspaceEigenvectors s1;
                  n = min (m_roots s1) (rows V)
              in if n > cols V then Inl (assertion_failed ''block'')
                 else if \<not> block_is_finite (rows V) n V
                 then Inl (not_a_number ''m_interpolation'')
                 else
                   (let s2 = s1\<lparr>m_interpolation :=
                                  map_matrix (\<lambda>z. Re (the z)) (block 0 0 (rows V) n V)\<rparr>
                    in Inr (True, s2\<lparr>m_updateShift :=
                              map (\<lambda>root'. - (1 + epsilon)
                                     * (if root' < rows V then Re (coeff (m_subspaceEigenvalues s2) root' 0)
                                        else 0))
                                [0..<m_roots s2]\<rparr>)))))"

section \<open>The class \<open>Optimize\<close>\<close>

text \<open>
  \<open>interpolatedMinimum(x, f, x0, x1, f0, f1, g0, g1)\<close>. The result \<open>None\<close> is the return
  value \<open>false\<close> (the references \<open>x\<close> and \<open>f\<close> are not written); \<open>Some (x, f)\<close> is \<open>true\<close>
  with the values written. The source does not test for \<open>c2 = 0\<close>: there \<open>g1 - g0\<close> is
  \<open>+0\<close>, the quotient \<open>-0.5 * g0 / c2\<close> is an infinity or a NaN, and so are \<open>x\<close> and \<open>f\<close>.
  In the cubic case the divisor \<open>3 * (2 * f0 - 2 * f1 + g0 + g1)\<close> is not zero, as the
  first test has failed.
\<close>

definition interpolatedMinimum ::
  "real \<Rightarrow> real \<Rightarrow> real \<Rightarrow> real \<Rightarrow> real \<Rightarrow> real \<Rightarrow> (double \<times> double) option" where
  "interpolatedMinimum x0 x1 f0 f1 g0 g1 =
     (if \<bar>2 * f1 - g1 - 2 * f0 - g0\<bar> < 1 / 10 ^ 10 then
        (let c2 = (g1 - g0) / 2 in
         if c2 < 0 then None
         else
           (let quotient = (if c2 = 0 then divide_by_zero (- (1 / 2) * g0)
                            else Finite (- (1 / 2) * g0 / c2));
                x = double_plus (Finite x0) (double_times quotient (Finite (x1 - x0)));
                f = double_plus (double_plus (Finite f0) (double_times (Finite g0) x))
                      (double_times (double_times (Finite c2) x) x)
            in Some (x, f)))
      else
        (let discriminant = (3 * f0 - 3 * f1 + g0) ^ 2 + (6 * f0 - 6 * f1 + g0) * g1 + g1 ^ 2 in
         if discriminant < 0 then None
         else
           (let alpham = (if 2 * f0 - 2 * f1 + g0 + g1 = 0
                          then g0 / (2 * f1 - 2 * f0 - 2 * g1)
                          else (3 * f0 - 3 * f1 + 2 * g0 + g1 - sqrt discriminant)
                                 / (3 * (2 * f0 - 2 * f1 + g0 + g1)));
                alphap = (if 2 * f0 - 2 * f1 + g0 + g1 = 0
                          then g0 / (2 * f1 - 2 * f0 - 2 * g1)
                          else (3 * f0 - 3 * f1 + 2 * g0 + g1 + sqrt discriminant)
                                 / (3 * (2 * f0 - 2 * f1 + g0 + g1)));
                fm = f0 + alpham * (g0 + alpham * (- 3 * f0 + 3 * f1 - 2 * g0 - g1
                                      + alpham * (2 * f0 - 2 * f1 + g0 + g1)));
                fp = f0 + alphap * (g0 + alphap * (- 3 * f0 + 3 * f1 - 2 * g0 - g1
                                      + alphap * (2 * f0 - 2 * f1 + g0 + g1)));
                f = min fm fp;
                x = x0 + (if fm < fp then alpham else alphap) * (x1 - x0)
            in Some (Finite x, Finite f))))"

text \<open>
  The quantities that \<open>Optimize::solveReducedProblem\<close> computes first when the Q space is
  not empty: the step length, the two function values and the two gradients projected
  on the step, and the two Wolfe tests.
\<close>

definition ls_step :: "('v, 'm) Optimize_scheme \<Rightarrow> real" where
  "ls_step s = 1 / (Q_scale_factors (m_qspace s) ! (Q_size (m_qspace s) - 1))"

definition ls_f0 :: "('v, 'm) Optimize_scheme \<Rightarrow> real" where
  "ls_f0 s = m_best_f s"

definition ls_f1 :: "('v, 'm) Optimize_scheme \<Rightarrow> real" where
  "ls_f1 s = last (m_values s)"

definition ls_g1 :: "('v, 'm) Optimize_scheme \<Rightarrow> real" where
  "ls_g1 s = ls_step s * (m_h_qr s (Q_size (m_qspace s) - 1) ! 0)"

definition ls_g0 :: "'v vector_ops \<Rightarrow> ('v, 'm) Optimize_scheme \<Rightarrow> real" where
  "ls_g0 T s =
     ls_step s * dot T (the (m_best_v s)) (Q_vectors (m_qspace s) ! (Q_size (m_qspace s) - 1))"

definition Wolfe_1 :: "'v vector_ops \<Rightarrow> ('v, 'm) Optimize_scheme \<Rightarrow> bool" where
  "Wolfe_1 T s = (ls_f1 s \<le> ls_f0 s + m_Wolfe_1 s * ls_g0 T s)"

definition Wolfe_2 :: "'v vector_ops \<Rightarrow> ('v, 'm) Optimize_scheme \<Rightarrow> bool" where
  "Wolfe_2 T s =
     (if m_strong_Wolfe s then ls_g1 s \<ge> m_Wolfe_2 s * ls_g0 T s
      else \<bar>ls_g1 s\<bar> \<le> m_Wolfe_2 s * \<bar>ls_g0 T s\<bar>)"

text \<open>The backward pass of L-BFGS over the Q space, for one \<open>a\<close> and for all.\<close>

definition LBFGS_row ::
  "'v vector_ops \<Rightarrow> ('v, 'm) Optimize_scheme \<Rightarrow> real matrix \<Rightarrow> nat \<Rightarrow> real matrix" where
  "LBFGS_row T s minusAlpha a =
     (let q = m_qspace s;
          M1 = set_coeff a 0 (- (m_h_qr s a ! 0)) minusAlpha;
          M2 = foldl (\<lambda>M b. set_coeff a 0
                        (coeff M a 0 - coeff M b 0 * Q_action T (m_subspaceMatrixResRes s) q a b) M)
                 M1 [a + 1..<Q_size q]
      in set_coeff a 0 (coeff M2 a 0 / Q_action T (m_subspaceMatrixResRes s) q a a) M2)"

definition LBFGS_backward ::
  "'v vector_ops \<Rightarrow> ('v, 'm) Optimize_scheme \<Rightarrow> real matrix \<Rightarrow> real matrix" where
  "LBFGS_backward T s minusAlpha =
     foldl (LBFGS_row T s) minusAlpha (rev [0..<Q_size (m_qspace s)])"

text \<open>The code from the label \<open>accept\<close> on; it returns \<open>true\<close>.\<close>

definition Optimize_accept ::
  "'v vector_ops \<Rightarrow> ('v, 'm) Optimize_scheme \<Rightarrow> bool \<times> ('v, 'm) Optimize_scheme" where
  "Optimize_accept T s =
     (let n = Q_size (m_qspace s);
          s1 = s\<lparr>m_linesearch_steplength := Finite 0\<rparr>;
          s2 = s1\<lparr>m_interpolation :=
                    set_coeff n 0 1 (setZero (conservativeResize (n + 1) 1 (m_interpolation s1)))\<rparr>;
          s3 = s2\<lparr>m_nullify_solution_before_update := True\<rparr>;
          s4 = (if m_algorithm s3 = ''L-BFGS''
                then s3\<lparr>m_interpolation := LBFGS_backward T s3 (m_interpolation s3)\<rparr>
                else s3)
      in (True, s4\<lparr>m_best_r := Some (hd (m_current_r s4)),
                   m_best_v := Some (hd (m_current_v s4)),
                   m_best_f := last (m_values s4)\<rparr>))"

text \<open>
  The code that is reached when a new line-search step of relative length \<open>alpha\<close> is
  needed; it returns \<open>false\<close>.
\<close>

definition Optimize_linesearch ::
  "double \<Rightarrow> ('v, 'm) Optimize_scheme \<Rightarrow> bool \<times> ('v, 'm) Optimize_scheme" where
  "Optimize_linesearch alpha s =
     (let n = Q_size (m_qspace s);
          s1 = s\<lparr>m_interpolation :=
                   set_coeff n 0 1 (setZero (conservativeResize (n + 1) 1 (m_interpolation s)))\<rparr>;
          s2 = s1\<lparr>m_linesearch_steplength :=
                   double_times (double_plus alpha (Finite (- 1))) (Finite (ls_step s))\<rparr>;
          s3 = (if ls_f1 s \<le> ls_f0 s
                then s2\<lparr>m_best_r := Some (hd (m_current_r s2)),
                        m_best_v := Some (hd (m_current_v s2)),
                        m_best_f := last (m_values s2)\<rparr>
                else s2)
      in (False, s3\<lparr>m_nullify_solution_before_update := False\<rparr>))"

text \<open>
  \<open>Optimize::solveReducedProblem\<close>. The variable \<open>interpolated\<close> is first the return value
  of \<open>interpolatedMinimum\<close> and is then cleared when the interpolant goes the wrong way;
  \<open>alpha\<close> is read only where \<open>interpolated\<close> holds. The function throws nothing.
\<close>

definition Optimize_solveReducedProblem ::
  "'v vector_ops \<Rightarrow> ('v, 'm) Optimize_scheme \<Rightarrow> error + bool \<times> ('v, 'm) Optimize_scheme" where
  "Optimize_solveReducedProblem T s =
     (let n = Q_size (m_qspace s) in
      if n > 0 then
        (let f0 = ls_f0 s; f1 = ls_f1 s; g1 = ls_g1 s; g0 = ls_g0 T s in
         if g1 < m_thresh s \<or> (Wolfe_1 T s \<and> Wolfe_2 T s) then Inr (Optimize_accept T s)
         else
           (case interpolatedMinimum 0 1 f0 f1 g0 g1 of
              None \<Rightarrow> Inr (Optimize_linesearch (Finite (m_linesearch_grow_factor s)) s)
            | Some (alpha, finterp) \<Rightarrow>
                (let interpolated = \<not> ((g0 > 0 \<and> g1 > 0 \<and> double_greater alpha 0)
                                        \<or> (g0 < 0 \<and> g1 < 0 \<and> double_less alpha 1)) in
                 if \<not> interpolated \<or> double_greater alpha (m_linesearch_grow_factor s)
                 then Inr (Optimize_linesearch (Finite (m_linesearch_grow_factor s)) s)
                 else if double_less (double_abs (double_plus alpha (Finite (- 1))))
                           (m_linesearch_tolerance s)
                 then Inr (Optimize_accept T s)
                 else Inr (Optimize_linesearch alpha s))))
      else Inr (Optimize_accept T s))"

text \<open>
  The third way to the label \<open>accept\<close> ("if we are within spitting distance already, don't
  bother to make a line step"): the interpolation has found a minimum that does not go
  the wrong way, it is not beyond the grow factor, and it is within the line-search
  tolerance of the unit step.
\<close>

definition near_unit_step :: "'v vector_ops \<Rightarrow> ('v, 'm) Optimize_scheme \<Rightarrow> bool" where
  "near_unit_step T s =
     (case interpolatedMinimum 0 1 (ls_f0 s) (ls_f1 s) (ls_g0 T s) (ls_g1 s) of
        Some (alpha, finterp) \<Rightarrow>
          \<not> ((ls_g0 T s > 0 \<and> ls_g1 s > 0 \<and> double_greater alpha 0)
              \<or> (ls_g0 T s < 0 \<and> ls_g1 s < 0 \<and> double_less alpha 1))
          \<and> \<not> double_greater alpha (m_linesearch_grow_factor s)
          \<and> double_less (double_abs (double_plus alpha (Finite (- 1)))) (m_linesearch_tolerance s)
      | None \<Rightarrow> False)"

section \<open>The class \<open>DIIS\<close>\<close>

text \<open>
  \<open>DIIS::solveReducedProblem\<close>. \<open>nDim\<close> is a \<open>size_t\<close>: on a subspace matrix without rows
  it would wrap around, and the vectors of that length cannot be constructed. \<open>Rhs\<close> and
  \<open>Coeffs\<close> have \<open>nDim\<close> rows.
\<close>

definition DIIS_solveReducedProblem ::
  "Eigen \<Rightarrow> ('v, 'm) IterativeSolver_scheme \<Rightarrow> error + bool \<times> ('v, 'm) IterativeSolver_scheme" where
  "DIIS_solveReducedProblem E s =
     (let s1 = s\<lparr>m_updateShift := [- (1 + epsilon) * coeff (m_subspaceMatrix s) 0 0]\<rparr> in
      if m_roots s1 > 1 then Inl (logic_error ''DIIS does not handle multiple solutions'')
      else if rows (m_subspaceMatrix s1) = 0 then Inl (assertion_failed ''nDim'')
      else
        (let nDim = rows (m_subspaceMatrix s1) - 1;
             interpolation0 = resize (nDim + 1) 1 (m_interpolation s1)
         in if nDim > 0 then
              (let B = block 0 0 nDim nDim (m_subspaceMatrix s1);
                   Rhs = \<lparr>rows = nDim, cols = 1,
                           coeff = (\<lambda>i j. - coeff (block 0 nDim nDim 1 (m_subspaceMatrix s1)) i j)\<rparr>;
                   Coeffs = svd_solve E (m_svdThreshold s1) B Rhs
               in if list_ex (\<lambda>k. Coeffs k = None) [0..<nDim]
                  then Inl (overflow_error ''NaN detected in DIIS submatrix solution'')
                  else
                    (let interpolation1 =
                           set_block 0 0 nDim 1
                             \<lparr>rows = nDim, cols = 1, coeff = (\<lambda>i j. the (Coeffs i))\<rparr>
                             interpolation0
                     in Inr (True, s1\<lparr>m_interpolation := set_coeff nDim 0 1 interpolation1\<rparr>)))
            else Inr (True, s1\<lparr>m_interpolation := set_coeff nDim 0 1 interpolation0\<rparr>)))"

section \<open>Constructors and an instance of the vector class\<close>

text \<open>
  The state that the constructor of \<open>IterativeSolver\<close> builds. \<open>m_maxQ\<close> is
  \<open>std::max(m_roots, size_t(16))\<close> with \<open>m_roots\<close> already set to \<open>0\<close>. A default Eigen
  matrix has no rows and no columns; members that the constructor leaves out are empty.
\<close>

definition empty_matrix :: "('a::zero) matrix" where
  "empty_matrix = \<lparr>rows = 0, cols = 0, coeff = (\<lambda>i j. 0)\<rparr>"

definition Q_init :: "'v Q" where
  "Q_init = \<lparr>Q_keys = [], Q_vectors = [], Q_actions = [], Q_scale_factors = [], Q_index = 0\<rparr>"

definition IterativeSolver_init :: "'v IterativeSolver" where
  "IterativeSolver_init =
     \<lparr>m_thresh = 1 / 10 ^ 8,
      m_linear = False,
      m_hermitian = False,
      m_roots = 0,
      m_rspt = False,
      m_qspace = Q_init,
      m_pspace = [],
      m_last_d = [],
      m_last_hd = [],
      m_current_r = [],
      m_current_v = [],
      m_s_rr = [],
      m_h_rr = [],
      m_hh_rr = [],
      m_rhs_r = [],
      m_s_qr = (\<lambda>a. []),
      m_h_qr = (\<lambda>a. []),
      m_h_rq = (\<lambda>a. []),
      m_hh_qr = (\<lambda>a. []),
      m_s_pr = [],
      m_h_pr = [],
      m_h_rp = [],
      m_working_set = [],
      m_q_solutions = Map.empty,
      m_exclude_r_from_redundancy_test = False,
      m_orthogonalise_Q = True,
      m_errors = [],
      m_subspaceMatrixResRes = False,
      m_residual_eigen = False,
      m_residual_rhs = False,
      m_rhs = [],
      m_updateShift = [],
      m_interpolation = empty_matrix,
      m_subspaceMatrix = empty_matrix,
      m_subspaceOverlap = empty_matrix,
      m_subspaceRHS = empty_matrix,
      m_subspaceEigenvectors = \<lparr>rows = 0, cols = 0, coeff = (\<lambda>i j. Some 0)\<rparr>,
      m_subspaceEigenvalues = empty_matrix,
      m_values = [],
      m_iterations = 0,
      m_singularity_threshold = 1 / 10 ^ 5,
      m_augmented_hessian = 0,
      m_nullify_solution_before_update = False,
      m_svdThreshold = 1 / 10 ^ 15,
      m_maxQ = max 0 16\<rparr>"

text \<open>The constructor of \<open>LinearEigensystem\<close>.\<close>

definition LinearEigensystem_init :: "'v IterativeSolver" where
  "LinearEigensystem_init =
     IterativeSolver_init\<lparr>m_residual_rhs := False, m_residual_eigen := True, m_linear := True\<rparr>"

text \<open>The constructor of \<open>DIIS\<close>; \<open>setMode(DIISmode)\<close> sets \<open>m_subspaceMatrixResRes\<close>.\<close>

definition DIIS_init :: "'v IterativeSolver" where
  "DIIS_init =
     IterativeSolver_init
       \<lparr>m_residual_rhs := False, m_residual_eigen := False, m_roots := 1,
        m_subspaceMatrixResRes := True, m_exclude_r_from_redundancy_test := True,
        m_singularity_threshold := 1 / 10 ^ 15, m_orthogonalise_Q := False\<rparr>"

text \<open>
  The constructor of \<open>Optimize\<close>. It does not initialise \<open>m_best_f\<close>; the two pointers
  \<open>m_best_r\<close> and \<open>m_best_v\<close> are null.
\<close>

definition Optimize_init :: "string \<Rightarrow> bool \<Rightarrow> 'v Optimize" where
  "Optimize_init algorithm minimize =
     (IterativeSolver.extend IterativeSolver_init
        (Optimize.fields algorithm minimize True (1 / 10 ^ 4) (9 / 10) (2 / 10) 3 (Finite 0) None None 0))
       \<lparr>m_linear := False, m_residual_rhs := False, m_residual_eigen := False, m_roots := 1,
        m_subspaceMatrixResRes := False, m_singularity_threshold := 0,
        m_orthogonalise_Q := False, m_exclude_r_from_redundancy_test := True,
        m_hermitian := False\<rparr>"

text \<open>
  An instance of the vector class for the examples: vectors are lists of coefficients,
  with the operations as the header documents them.
\<close>

definition dense_ops :: "(real list) vector_ops" where
  "dense_ops =
     \<lparr>dot = (\<lambda>x y. sum_list (map2 (*) x y)),
      axpy = (\<lambda>a y x. map2 (\<lambda>xi yi. xi + a * yi) x y),
      scal = (\<lambda>a x. map (\<lambda>xi. a * xi) x),
      dot_sparse = (\<lambda>x p. sum_list (map (\<lambda>(i, c). c * x ! i) p)),
      axpy_sparse = (\<lambda>a p x. fold (\<lambda>(i, c) x. x[i := x ! i + a * c]) p x)\<rparr>"

text \<open>
  An \<open>Optimize\<close> solver in the middle of a run, with \<open>m_Wolfe_1\<close> set to \<open>1/2\<close>: one
  entry in the Q space, the unit step; the best point so far has the value \<open>0\<close> and the
  gradient \<open>-1\<close> along the step; the current point has the value \<open>-9/20\<close> and the
  gradient \<open>1/10\<close> along the step.
\<close>

definition optimize_example :: "(real list) Optimize" where
  "optimize_example =
     (Optimize_init ''L-BFGS'' True)
       \<lparr>m_Wolfe_1 := 1 / 2,
        m_qspace := \<lparr>Q_keys = [0], Q_vectors = [[1]], Q_actions = [[11 / 10]],
                     Q_scale_factors = [1], Q_index = 1\<rparr>,
        m_best_r := Some [0], m_best_v := Some [- 1], m_best_f := 0,
        m_values := [0, - (9 / 20)],
        m_current_r := [[1]], m_current_v := [[1 / 10]],
        m_h_qr := (\<lambda>a. [])(0 := [1 / 10]),
        m_working_set := [0]\<rparr>"

text \<open>
  An \<open>Optimize\<close> solver in the middle of a run for which the quadratic interpolation has
  no curvature: the values are \<open>0\<close> and \<open>1\<close>, and both gradients along the step are \<open>1\<close>.
\<close>

definition optimize_flat :: "(real list) Optimize" where
  "optimize_flat =
     (Optimize_init ''L-BFGS'' True)
       \<lparr>m_qspace := \<lparr>Q_keys = [0], Q_vectors = [[1]], Q_actions = [[1]],
                     Q_scale_factors = [1], Q_index = 1\<rparr>,
        m_best_r := Some [0], m_best_v := Some [1], m_best_f := 0,
        m_values := [0, 1],
        m_current_r := [[1]], m_current_v := [[1]],
        m_h_qr := (\<lambda>a. [])(0 := [1]),
        m_working_set := [0]\<rparr>"

text \<open>
  The Eigen decompositions of a matrix with one row and one column, in closed form: the
  singular value of \<open>(m)\<close> is \<open>\<bar>m\<bar>\<close> with \<open>U = (sgn m)\<close> and \<open>V = (1)\<close>; its eigenvalue is
  \<open>m\<close> with the eigenvector \<open>(1)\<close>; the solution of \<open>(m) c = (b)\<close> is \<open>b / m\<close>.
\<close>

definition matrix_1x1 :: "'a \<Rightarrow> 'a matrix" where
  "matrix_1x1 a = \<lparr>rows = 1, cols = 1, coeff = (\<lambda>i j. a)\<rparr>"

definition eigen_1x1 :: Eigen where
  "eigen_1x1 =
     \<lparr>JacobiSVD = (\<lambda>M. \<lparr>singularValues = matrix_1x1 \<bar>coeff M 0 0\<bar>,
                         matrixU = matrix_1x1 (if coeff M 0 0 < 0 then - 1 else 1),
                         matrixV = matrix_1x1 1\<rparr>),
      svd_rank = (\<lambda>t M. if coeff M 0 0 = 0 then 0 else 1),
      svd_solve = (\<lambda>t M b k. Some (if coeff M 0 0 = 0 then 0 else coeff b 0 0 / coeff M 0 0)),
      EigenSolver = (\<lambda>M. (matrix_1x1 (complex_of_real (coeff M 0 0)), matrix_1x1 1))\<rparr>"

text \<open>
  A \<open>DIIS\<close> solver whose subspace matrix is \<open>((1, 1/2), (1/2, 1))\<close>: \<open>nDim = 1\<close>, and the
  equation to solve is \<open>(1) c = (-1/2)\<close>.
\<close>

definition diis_example :: "(real list) IterativeSolver" where
  "diis_example =
     DIIS_init\<lparr>m_subspaceMatrix :=
                 \<lparr>rows = 2, cols = 2, coeff = (\<lambda>i j. if i = j then 1 else 1 / 2)\<rparr>\<rparr>"

text \<open>
  The first call of \<open>addVector\<close> on a new \<open>LinearEigensystem\<close> solver, with the one
  parameter vector \<open>(1)\<close> and its action \<open>(2)\<close>: the state after the first loop, and the
  state on which \<open>solveReducedProblem\<close> is called.
\<close>

definition eigen_call_prepared :: "(real list) IterativeSolver" where
  "eigen_call_prepared =
     LinearEigensystem_init\<lparr>m_roots := 1, m_working_set := [0], m_iterations := 1,
       m_current_r := [[1]], m_current_v := [[2]]\<rparr>"

definition eigen_call_reduced :: "(real list) IterativeSolver" where
  "eigen_call_reduced =
     buildSubspace dense_ops eigen_1x1 (interactions dense_ops eigen_call_prepared [[1]] [[2]])"

text \<open>
  A \<open>LinearEigensystem\<close> solver whose one root has converged: the solution is in the Q
  space and the working set is empty.
\<close>

definition eigen_converged :: "(real list) IterativeSolver" where
  "eigen_converged =
     LinearEigensystem_init
       \<lparr>m_roots := 1,
        m_qspace := \<lparr>Q_keys = [0], Q_vectors = [[1]], Q_actions = [[2]],
                     Q_scale_factors = [1], Q_index = 1\<rparr>,
        m_q_solutions := [0 \<mapsto> 0], m_errors := [0]\<rparr>"

text \<open>
  A \<open>LinearEigensystem\<close> solver on which \<open>solveReducedProblem\<close> has just run in the first
  call, with the one parameter vector \<open>(1)\<close> and its action \<open>(2)\<close>: the subspace is the R
  vector alone, the eigenvalue is \<open>2\<close> and the interpolation matrix is \<open>(1)\<close>.
\<close>

definition interpolation_example :: "(real list) IterativeSolver" where
  "interpolation_example =
     LinearEigensystem_init
       \<lparr>m_roots := 1, m_working_set := [0], m_current_r := [[1]], m_current_v := [[2]],
        m_interpolation := matrix_1x1 1, m_subspaceEigenvalues := matrix_1x1 2\<rparr>"

text \<open>
  What the loop of \<open>doInterpolation\<close> holds in \<open>solution[kkk]\<close>, \<open>residual[kkk]\<close> and
  \<open>solutionP[kkk]\<close> after the P, Q and R contributions have been added to the zeroed
  vectors, before the renormalisation.
\<close>

definition assembled ::
  "'v vector_ops \<Rightarrow> ('v, 'm) IterativeSolver_scheme \<Rightarrow> bool \<Rightarrow> 'v list \<Rightarrow> 'v list \<Rightarrow>
   real list list \<Rightarrow> nat \<Rightarrow> 'v \<times> 'v \<times> real list" where
  "assembled T s actionOnly solution residual solutionP kkk =
     combine T s actionOnly (m_working_set s ! kkk)
       (scal T 0 (solution ! kkk), scal T 0 (residual ! kkk),
        if length (m_pspace s) > 0 then solutionP ! kkk else [])"

text \<open>
  A \<open>LinearEigensystem\<close> solver whose subspace matrix is the rotation \<open>((0, -1), (1, 0))\<close>
  with the unit matrix as overlap, and the Eigen decompositions for it in closed form:
  the singular values of the unit matrix are \<open>1\<close> and \<open>1\<close> with \<open>U = V = 1\<close>; the
  eigenvalues of \<open>((a, -b), (b, a))\<close> are \<open>a + b i\<close> and \<open>a - b i\<close> with the normalised
  eigenvectors \<open>(1, -i) / sqrt 2\<close> and \<open>(1, i) / sqrt 2\<close>.
\<close>

definition unit_matrix :: "nat \<Rightarrow> ('a::zero_neq_one) matrix" where
  "unit_matrix n = \<lparr>rows = n, cols = n, coeff = (\<lambda>i j. if i = j then 1 else 0)\<rparr>"

definition eigen_rotation :: Eigen where
  "eigen_rotation =
     \<lparr>JacobiSVD = (\<lambda>M. \<lparr>singularValues = \<lparr>rows = 2, cols = 1, coeff = (\<lambda>i j. 1)\<rparr>,
                         matrixU = unit_matrix 2, matrixV = unit_matrix 2\<rparr>),
      svd_rank = (\<lambda>t M. 2),
      svd_solve = (\<lambda>t M b k. Some (coeff b k 0)),
      EigenSolver = (\<lambda>M. (\<lparr>rows = 2, cols = 1,
                              coeff = (\<lambda>i j. if i = 0 then Complex (coeff M 0 0) (coeff M 1 0)
                                             else Complex (coeff M 0 0) (- coeff M 1 0))\<rparr>,
                           \<lparr>rows = 2, cols = 2,
                              coeff = (\<lambda>i j. if i = 0 then complex_of_real (1 / sqrt 2)
                                             else if j = 0 then Complex 0 (- 1 / sqrt 2)
                                             else Complex 0 (1 / sqrt 2))\<rparr>))\<rparr>"

definition rotation_example :: "(real list) IterativeSolver" where
  "rotation_example =
     LinearEigensystem_init
       \<lparr>m_roots := 1,
        m_subspaceMatrix := \<lparr>rows = 2, cols = 2,
                              coeff = (\<lambda>i j. if i = j then 0 else if i = 0 then - 1 else 1)\<rparr>,
        m_subspaceOverlap := unit_matrix 2\<rparr>"



text \<open>
  The eigenvectors of the two examples in the original subspace, as the first part of
  \<open>diagonalizeSubspaceMatrix\<close> leaves them.
\<close>

definition rotation_vectors :: "complex option matrix" where
  "rotation_vectors =
     map_matrix Some
       (mat_mult (map_matrix complex_of_real (back_transformation eigen_rotation rotation_example))
          (snd (EigenSolver eigen_rotation (Hbar eigen_rotation rotation_example))))"


text \<open>
  The column \<open>k\<close> of \<open>V\<close> has no norm in the metric \<open>S\<close>: \<open>v\<^sup>T S v\<close> is not a number, or its
  real part is not positive.
\<close>

definition no_norm :: "real matrix \<Rightarrow> complex option matrix \<Rightarrow> nat \<Rightarrow> bool" where
  "no_norm S V k =
     (case overlap_norm S V k of None \<Rightarrow> True | Some z \<Rightarrow> \<not> Re z > 0)"

text \<open>
  The same first call with vectors of two coefficients, the parameter vector \<open>(1, 0)\<close>
  and its action \<open>(2, e)\<close>: the residual is \<open>(2, e) - 2 (1, 0) = (0, e)\<close>.
\<close>

definition eigen_open_prepared :: "real \<Rightarrow> (real list) IterativeSolver" where
  "eigen_open_prepared e =
     LinearEigensystem_init\<lparr>m_roots := 1, m_working_set := [0], m_iterations := 1,
       m_current_r := [[1, 0]], m_current_v := [[2, e]]\<rparr>"

definition eigen_open_reduced :: "real \<Rightarrow> (real list) IterativeSolver" where
  "eigen_open_reduced e =
     buildSubspace dense_ops eigen_1x1
       (interactions dense_ops (eigen_open_prepared e) [[1, 0]] [[2, e]])"

section \<open>Verification\<close>

subsection \<open>Properties of \<open>wrap\<close> and \<open>find_ref\<close>\<close>

lemma foldl_snoc_conv: "foldl (\<lambda>w a. w @ [a]) acc xs = acc @ xs"
  by (induction xs arbitrary: acc) simp_all

lemma wrap_eq_iter_range: "wrap vec = iter_range vec"
  by (simp add: wrap_def foldl_snoc_conv)

lemma find_eq_None_iff: "(List.find (\<lambda>w. w = a) ws = None) = (a \<notin> set ws)"
  by (induction ws) auto

lemma find_eq_Some_iff: "(\<exists>y. List.find (\<lambda>w. w = a) ws = Some y) = (a \<in> set ws)"
  using find_eq_None_iff [of a ws] by auto

lemma find_ref_loop_filter:
  "find_ref_loop ws rng d acc =
     acc @ map (\<lambda>i. d + i) (filter (\<lambda>i. rng ! i \<in> set ws) [0..<length rng])"
proof (induction rng arbitrary: d acc)
  case Nil
  show ?case by simp
next
  case (Cons a rest)
  have split: "[0..<length (a # rest)] = 0 # map Suc [0..<length rest]"
    by (simp add: upt_conv_Cons map_Suc_upt del: upt_Suc)
  show ?case
    unfolding split
    by (simp add: Cons.IH find_eq_None_iff find_eq_Some_iff filter_map comp_def Let_def del: upt_Suc)
qed

lemma find_ref_filter:
  "find_ref ws rng = filter (\<lambda>i. rng ! i \<in> set ws) [0..<length rng]"
  by (simp add: find_ref_def find_ref_loop_filter)

lemma length_iter_range: "length (iter_range vec) = length (elems vec)"
  by (simp add: iter_range_def)

text \<open>
  C9. For every sequence, \<open>find_ref(wrap(seq), seq.begin, seq.end)\<close> is \<open>0..seq.len-1\<close>;
  and for every list \<open>ws\<close> of wrapped references, \<open>find_ref\<close> returns exactly the
  positions in the original sequence of the elements that \<open>ws\<close> refers to, each once
  and in ascending order.
\<close>

theorem find_ref_wrap_roundtrip:
  "find_ref (wrap vec) (iter_range vec) = [0..<length (elems vec)]
   \<and> find_ref ws (iter_range vec)
       = filter (\<lambda>i. wrap vec ! i \<in> set ws) [0..<length (elems vec)]
   \<and> sorted_wrt (<) (find_ref ws (iter_range vec))
   \<and> set (find_ref ws (iter_range vec))
       = {i. i < length (elems vec) \<and> wrap vec ! i \<in> set ws}"
proof -
  have all: "filter (\<lambda>i. iter_range vec ! i \<in> set (iter_range vec)) [0..<length (elems vec)]
             = [0..<length (elems vec)]"
    by (rule filter_True) (simp add: length_iter_range)
  have sub: "find_ref ws (iter_range vec)
             = filter (\<lambda>i. wrap vec ! i \<in> set ws) [0..<length (elems vec)]"
    by (simp add: find_ref_filter wrap_eq_iter_range length_iter_range)
  have srt: "sorted_wrt (<) (filter (\<lambda>i. wrap vec ! i \<in> set ws) [0..<length (elems vec)])"
    by (rule sorted_wrt_filter) (simp add: sorted_wrt_upt del: upt_Suc)
  show ?thesis
    using all srt by (auto simp: sub find_ref_filter wrap_eq_iter_range length_iter_range)
qed

text \<open>
  The test \<open>find_ref_some\<close> of test\_wrap.cpp: five parameters, the wrappers of positions
  0, 2 and 4 erased, so that references to positions 1 and 3 remain.
\<close>

theorem find_ref_wrap_roundtrip_witness:
  "find_ref (wrap \<lparr>data = 100, elems = [1, 2, 3, 4, 5 :: int]\<rparr>)
      (iter_range \<lparr>data = 100, elems = [1, 2, 3, 4, 5 :: int]\<rparr>) = [0, 1, 2, 3, 4]
   \<and> find_ref [101, 103] (iter_range \<lparr>data = 100, elems = [1, 2, 3, 4, 5 :: int]\<rparr>) = [1, 3]"
proof -
  have w: "wrap \<lparr>data = 100, elems = [1, 2, 3, 4, 5 :: int]\<rparr> = [100, 101, 102, 103, 104]"
    by (simp add: wrap_def iter_range_def upt_conv_Cons)
  show ?thesis
    using find_ref_wrap_roundtrip
      [of "\<lparr>data = 100, elems = [1, 2, 3, 4, 5 :: int]\<rparr>" "[101, 103]"]
    by (simp add: w upt_conv_Cons)
qed

subsection \<open>\<open>Optimize::solveReducedProblem\<close>: when the current point is accepted\<close>

lemma fst_Optimize_accept: "fst (Optimize_accept T s) = True"
  by (simp add: Optimize_accept_def Let_def)

lemma fst_Optimize_linesearch: "fst (Optimize_linesearch a s) = False"
  by (simp add: Optimize_linesearch_def Let_def)

lemma optimize_example_values:
  "Q_size (m_qspace optimize_example) = 1"
  "ls_step optimize_example = 1"
  "ls_f0 optimize_example = 0"
  "ls_f1 optimize_example = - (9 / 20)"
  "ls_g1 optimize_example = 1 / 10"
  "ls_g0 dense_ops optimize_example = - 1"
  "m_thresh optimize_example = 1 / 10 ^ 8"
  "m_Wolfe_1 optimize_example = 1 / 2"
  "m_linesearch_grow_factor optimize_example = 3"
  "m_linesearch_tolerance optimize_example = 2 / 10"
  by (simp_all add: optimize_example_def Optimize_init_def IterativeSolver_init_def
       IterativeSolver.defs Optimize.defs Q_size_def ls_step_def ls_f0_def ls_f1_def
       ls_g1_def ls_g0_def dense_ops_def)

lemma optimize_example_minimum:
  "interpolatedMinimum 0 1 0 (- (9 / 20)) (- 1) (1 / 10)
     = Some (Finite (10 / 11), Finite (- (5 / 11)))"
  by (simp add: interpolatedMinimum_def Let_def)

lemma optimize_example_accepted:
  "Optimize_solveReducedProblem dense_ops optimize_example
     = Inr (Optimize_accept dense_ops optimize_example)"
  by (simp add: Optimize_solveReducedProblem_def Let_def optimize_example_values
        optimize_example_minimum Wolfe_1_def)

lemma optimize_flat_values:
  "Q_size (m_qspace optimize_flat) = 1"
  "ls_step optimize_flat = 1"
  "ls_f0 optimize_flat = 0"
  "ls_f1 optimize_flat = 1"
  "ls_g1 optimize_flat = 1"
  "ls_g0 dense_ops optimize_flat = 1"
  "m_thresh optimize_flat = 1 / 10 ^ 8"
  "m_Wolfe_1 optimize_flat = 1 / 10 ^ 4"
  "m_linesearch_grow_factor optimize_flat = 3"
  "m_linesearch_tolerance optimize_flat = 2 / 10"
  by (simp_all add: optimize_flat_def Optimize_init_def IterativeSolver_init_def
       IterativeSolver.defs Optimize.defs Q_size_def ls_step_def ls_f0_def ls_f1_def
       ls_g1_def ls_g0_def dense_ops_def)

lemma optimize_flat_minimum:
  "interpolatedMinimum 0 1 0 1 1 1 = Some (MinusInfinity, NaN)"
  by (simp add: interpolatedMinimum_def divide_by_zero_def Let_def)

text \<open>
  C4, as the claim states it, fails: on \<open>optimize_example\<close> the Q space is not empty,
  \<open>g1 = 1/10\<close> is not below the threshold \<open>10^-8\<close>, and the first Wolfe condition fails
  (\<open>f1 = -9/20 > f0 + c1 * g0 = -1/2\<close>); the interpolated minimum is at \<open>alpha = 10/11\<close>,
  within the tolerance \<open>0.2\<close> of \<open>1\<close>, and the point is accepted.
\<close>

theorem Optimize_accept_iff_Wolfe_counterexample:
  "map_sum id fst (Optimize_solveReducedProblem dense_ops optimize_example) = Inr True
   \<and> 0 < Q_size (m_qspace optimize_example)
   \<and> \<not> ls_g1 optimize_example < m_thresh optimize_example
   \<and> \<not> (Wolfe_1 dense_ops optimize_example \<and> Wolfe_2 dense_ops optimize_example)"
  by (simp add: optimize_example_accepted fst_Optimize_accept optimize_example_values Wolfe_1_def)

text \<open>
  C4, amended. With a non-empty Q space, \<open>Optimize::solveReducedProblem\<close> always returns,
  and it accepts the current point (returns \<open>true\<close>) if and only if \<open>g1\<close> is below the
  convergence threshold, or both Wolfe conditions hold, or the minimum of the
  interpolation is so close to the unit step that no line-search step is made.
\<close>

theorem Optimize_accept_iff:
  assumes "0 < Q_size (m_qspace s)"
  shows "\<exists>s'. Optimize_solveReducedProblem T s
                = Inr (ls_g1 s < m_thresh s \<or> (Wolfe_1 T s \<and> Wolfe_2 T s) \<or> near_unit_step T s,
                       s')"
proof (cases "ls_g1 s < m_thresh s \<or> (Wolfe_1 T s \<and> Wolfe_2 T s)")
  case True
  then have "Optimize_solveReducedProblem T s = Inr (Optimize_accept T s)"
    using assms by (auto simp: Optimize_solveReducedProblem_def Let_def)
  then show ?thesis using True fst_Optimize_accept [of T s] by (auto simp: prod_eq_iff)
next
  case False
  show ?thesis
  proof (cases "interpolatedMinimum 0 1 (ls_f0 s) (ls_f1 s) (ls_g0 T s) (ls_g1 s)")
    case None
    then have "Optimize_solveReducedProblem T s
                 = Inr (Optimize_linesearch (Finite (m_linesearch_grow_factor s)) s)"
      using assms False by (auto simp: Optimize_solveReducedProblem_def Let_def)
    then show ?thesis
      using False None fst_Optimize_linesearch [of "Finite (m_linesearch_grow_factor s)" s]
      by (auto simp: near_unit_step_def prod_eq_iff)
  next
    case (Some af)
    obtain alpha finterp where af: "af = (alpha, finterp)" by (cases af)
    show ?thesis
      using assms False Some af fst_Optimize_linesearch [of _ s] fst_Optimize_accept [of T s]
      by (auto simp: Optimize_solveReducedProblem_def near_unit_step_def Let_def prod_eq_iff)
  qed
qed

theorem Optimize_accept_iff_witness:
  "0 < Q_size (m_qspace optimize_example)
   \<and> Optimize_solveReducedProblem dense_ops optimize_example
       = Inr (Optimize_accept dense_ops optimize_example)
   \<and> near_unit_step dense_ops optimize_example
   \<and> 0 < Q_size (m_qspace optimize_flat)
   \<and> interpolatedMinimum 0 1 (ls_f0 optimize_flat) (ls_f1 optimize_flat)
        (ls_g0 dense_ops optimize_flat) (ls_g1 optimize_flat) = Some (MinusInfinity, NaN)
   \<and> (\<exists>s'. Optimize_solveReducedProblem dense_ops optimize_flat = Inr (False, s')
           \<and> m_linesearch_steplength s' = MinusInfinity)"
proof -
  have a: "0 < Q_size (m_qspace optimize_example)" "0 < Q_size (m_qspace optimize_flat)"
    by (simp_all add: optimize_example_values optimize_flat_values)
  have n: "near_unit_step dense_ops optimize_example"
    using Optimize_accept_iff [OF a(1), of dense_ops] optimize_example_accepted
      fst_Optimize_accept [of dense_ops optimize_example]
    by (auto simp: optimize_example_values Wolfe_1_def prod_eq_iff)
  have f: "\<not> (ls_g1 optimize_flat < m_thresh optimize_flat
              \<or> (Wolfe_1 dense_ops optimize_flat \<and> Wolfe_2 dense_ops optimize_flat)
              \<or> near_unit_step dense_ops optimize_flat)"
    by (simp add: optimize_flat_values optimize_flat_minimum Wolfe_1_def near_unit_step_def)
  have l: "Optimize_solveReducedProblem dense_ops optimize_flat
             = Inr (Optimize_linesearch MinusInfinity optimize_flat)"
    by (simp add: Optimize_solveReducedProblem_def Let_def optimize_flat_values
          optimize_flat_minimum Wolfe_1_def)
  have m: "m_linesearch_steplength (snd (Optimize_linesearch MinusInfinity optimize_flat))
             = MinusInfinity"
    by (simp add: Optimize_linesearch_def Let_def optimize_flat_values)
  have "\<exists>s'. Optimize_solveReducedProblem dense_ops optimize_flat = Inr (False, s')
           \<and> m_linesearch_steplength s' = MinusInfinity"
    using Optimize_accept_iff [OF a(2), of dense_ops] f l m by auto
  then show ?thesis
    using a n optimize_example_accepted optimize_flat_minimum
    by (simp add: optimize_flat_values)
qed

subsection \<open>\<open>DIIS::solveReducedProblem\<close>\<close>

text \<open>
  C5. For a \<open>DIIS\<close> solver (one root) with a subspace matrix \<open>H\<close> of \<open>nX > 0\<close> rows,
  \<open>solveReducedProblem\<close> takes \<open>nDim = nX - 1\<close>, the leading \<open>nDim\<close> by \<open>nDim\<close> block \<open>B\<close>
  of \<open>H\<close> and the negated first \<open>nDim\<close> rows \<open>b\<close> of column \<open>nDim\<close> of \<open>H\<close>, and the solution
  \<open>c\<close> of Eigen's SVD solver with the threshold \<open>m_svdThreshold\<close>. If a coefficient of
  \<open>c\<close> is a NaN it throws; otherwise the interpolation matrix has \<open>nDim + 1\<close> rows and one
  column, with \<open>c\<close> in the rows \<open>0..nDim-1\<close> and \<open>1\<close> in the last row.
\<close>

theorem DIIS_solveReducedProblem_spec:
  assumes "m_roots s \<le> 1" and "0 < rows (m_subspaceMatrix s)"
  shows "let H = m_subspaceMatrix s;
             nDim = rows H - 1;
             B = \<lparr>rows = nDim, cols = nDim, coeff = (\<lambda>i j. coeff H i j)\<rparr>;
             b = \<lparr>rows = nDim, cols = 1, coeff = (\<lambda>i j. - coeff H i (nDim + j))\<rparr>;
             c = svd_solve E (m_svdThreshold s) B b
         in if \<exists>k<nDim. c k = None
            then DIIS_solveReducedProblem E s
                   = Inl (overflow_error ''NaN detected in DIIS submatrix solution'')
            else \<exists>s'. DIIS_solveReducedProblem E s = Inr (True, s')
                   \<and> rows (m_interpolation s') = nDim + 1 \<and> cols (m_interpolation s') = 1
                   \<and> (\<forall>i<nDim. coeff (m_interpolation s') i 0 = the (c i))
                   \<and> coeff (m_interpolation s') nDim 0 = 1"
proof -
  have ex: "list_ex P [0..<n] = (\<exists>k<n. P k)" for P :: "nat \<Rightarrow> bool" and n
    by (auto simp: list_ex_iff)
  show ?thesis
    using assms
    by (auto simp: DIIS_solveReducedProblem_def Let_def ex block_def resize_def set_coeff_def
          set_block_def)
qed

lemma diis_example_values:
  "m_roots diis_example = 1"
  "rows (m_subspaceMatrix diis_example) = 2"
  "coeff (m_subspaceMatrix diis_example) = (\<lambda>i j. if i = j then 1 else 1 / 2)"
  by (simp_all add: diis_example_def DIIS_init_def IterativeSolver_init_def)

theorem DIIS_solveReducedProblem_spec_witness:
  "m_roots diis_example \<le> 1 \<and> 0 < rows (m_subspaceMatrix diis_example)
   \<and> (\<exists>s'. DIIS_solveReducedProblem eigen_1x1 diis_example = Inr (True, s')
         \<and> rows (m_interpolation s') = 2 \<and> cols (m_interpolation s') = 1
         \<and> coeff (m_interpolation s') 0 0 = - (1 / 2)
         \<and> coeff (m_interpolation s') 1 0 = 1)"
  using DIIS_solveReducedProblem_spec [of diis_example eigen_1x1]
  by (auto simp: diis_example_values Let_def eigen_1x1_def)

subsection \<open>\<open>addVector\<close>: the working set on exit\<close>


lemma converged_cong:
  "m_linear t = m_linear s \<Longrightarrow> m_errors t = m_errors s \<Longrightarrow> m_thresh t = m_thresh s \<Longrightarrow>
   converged t = converged s"
  by (auto simp: converged_def fun_eq_iff)

lemma length_move_down: "length (move_down k n xs) = length xs"
  unfolding move_down_def by (induction n) simp_all

lemma nth_move_down:
  "n \<le> length xs \<Longrightarrow> i < length xs \<Longrightarrow>
   move_down k n xs ! i = (if k \<le> i \<and> Suc i < n then xs ! Suc i else xs ! i)"
proof (induction n arbitrary: i)
  case 0
  then show ?case by (simp add: move_down_def)
next
  case (Suc n)
  show ?case
  proof (cases "k + 1 \<le> n")
    case True
    then have "move_down k (Suc n) xs = (move_down k n xs)[n - 1 := move_down k n xs ! n]"
      by (simp add: move_down_def)
    then show ?thesis
      using Suc.prems True Suc.IH [of i] Suc.IH [of n]
      by (auto simp: length_move_down nth_list_update)
  next
    case False
    then have "move_down k (Suc n) xs = xs" by (simp add: move_down_def)
    then show ?thesis using False by auto
  qed
qed

lemma butlast_move_down:
  assumes "k < length xs"
  shows "butlast (move_down k (length xs) xs) = take k xs @ drop (Suc k) xs"
proof (rule nth_equalityI)
  show "length (butlast (move_down k (length xs) xs)) = length (take k xs @ drop (Suc k) xs)"
    using assms by (simp add: length_move_down)
next
  fix i assume "i < length (butlast (move_down k (length xs) xs))"
  then have i: "i < length xs - 1" by (simp add: length_move_down)
  then show "butlast (move_down k (length xs) xs) ! i = (take k xs @ drop (Suc k) xs) ! i"
    using assms by (auto simp: nth_butlast length_move_down nth_move_down nth_append)
qed

lemma record_solution_fields:
  "m_working_set (record_solution T k (s, ps, as)) = m_working_set s"
  "m_linear (record_solution T k (s, ps, as)) = m_linear s"
  "m_errors (record_solution T k (s, ps, as)) = m_errors s"
  "m_thresh (record_solution T k (s, ps, as)) = m_thresh s"
  "m_roots (record_solution T k (s, ps, as)) = m_roots s"
  "m_last_d (record_solution T k (s, ps, as)) = m_last_d s"
  "m_last_hd (record_solution T k (s, ps, as)) = m_last_hd s"
  by (simp_all add: record_solution_def Let_def)

lemma converged_record_solution:
  "converged (record_solution T k (s, ps, as)) = converged s"
  by (rule converged_cong) (simp_all add: record_solution_fields)

text \<open>One turn of the loop, as an equation for each of its three cases.\<close>

lemma retire_converged_done:
  "\<not> k < length (m_working_set s) \<Longrightarrow> retire_converged T k (s, ps, as) = (s, ps, as)"
  by (subst retire_converged.simps) simp

lemma retire_converged_remove:
  assumes "k < length (m_working_set s)" and "converged s (m_working_set s ! k)"
  shows "retire_converged T k (s, ps, as) =
           retire_converged T k
             (remove_from_working_set k
                (if m_q_solutions s (m_working_set s ! k) = None
                 then record_solution T k (s, ps, as) else s, ps, as))"
  using assms
  by (subst retire_converged.simps) (simp add: Let_def converged_record_solution)

lemma retire_converged_keep:
  assumes "k < length (m_working_set s)" and "\<not> converged s (m_working_set s ! k)"
  shows "retire_converged T k (s, ps, as) =
           retire_converged T (k + 1)
             (s\<lparr>m_last_d := m_last_d s @ [ps ! k], m_last_hd := m_last_hd s @ [as ! k]\<rparr>, ps, as)"
  using assms
  by (subst retire_converged.simps) (simp add: Let_def)

lemma remove_from_working_set_fields:
  assumes "k < length (m_working_set s)"
  shows "m_working_set (fst (remove_from_working_set k (s, ps, as)))
           = take k (m_working_set s) @ drop (Suc k) (m_working_set s)"
    and "m_linear (fst (remove_from_working_set k (s, ps, as))) = m_linear s"
    and "m_errors (fst (remove_from_working_set k (s, ps, as))) = m_errors s"
    and "m_thresh (fst (remove_from_working_set k (s, ps, as))) = m_thresh s"
    and "m_roots (fst (remove_from_working_set k (s, ps, as))) = m_roots s"
    and "m_last_d (fst (remove_from_working_set k (s, ps, as))) = m_last_d s"
    and "m_q_solutions (fst (remove_from_working_set k (s, ps, as))) = m_q_solutions s"
    and "m_qspace (fst (remove_from_working_set k (s, ps, as))) = m_qspace s"
  using assms by (simp_all add: remove_from_working_set_def Let_def butlast_move_down)

lemma retire_converged_working_set:
  "retire_converged T k st = (s', ps', as') \<Longrightarrow>
   m_working_set s' = take k (m_working_set (fst st))
                        @ filter (\<lambda>r. \<not> converged (fst st) r) (drop k (m_working_set (fst st)))
   \<and> m_linear s' = m_linear (fst st) \<and> m_errors s' = m_errors (fst st)
   \<and> m_thresh s' = m_thresh (fst st) \<and> m_roots s' = m_roots (fst st)
   \<and> length (m_last_d s') = length (m_last_d (fst st))
        + length (filter (\<lambda>r. \<not> converged (fst st) r) (drop k (m_working_set (fst st))))"
proof (induction T k st arbitrary: s' ps' as' rule: retire_converged.induct)
  case (1 T k s ps as)
  let ?W = "m_working_set s"
  show ?case
  proof (cases "k < length ?W")
    case False
    then show ?thesis using "1.prems" by (simp add: retire_converged_done)
  next
    case k: True
    let ?root = "?W ! k"
    let ?s1 = "if converged s ?root \<and> m_q_solutions s ?root = None
               then record_solution T k (s, ps, as) else s"
    have dropk: "drop k ?W = ?root # drop (Suc k) ?W"
      using k by (simp add: Cons_nth_drop_Suc)
    have c1: "converged ?s1 = converged s" by (simp add: converged_record_solution)
    show ?thesis
    proof (cases "converged s ?root")
      case conv: True
      let ?t = "fst (remove_from_working_set k (?s1, ps, as))"
      have t: "m_working_set ?t = take k ?W @ drop (Suc k) ?W"
              "m_linear ?t = m_linear s" "m_errors ?t = m_errors s" "m_thresh ?t = m_thresh s"
              "m_roots ?t = m_roots s" "m_last_d ?t = m_last_d s"
        using remove_from_working_set_fields [of k ?s1 ps as] k
        by (simp_all add: record_solution_fields)
      have ct: "converged ?t = converged s" by (rule converged_cong) (simp_all only: t)
      have eq: "retire_converged T k (remove_from_working_set k (?s1, ps, as)) = (s', ps', as')"
        using "1.prems" retire_converged_remove [OF k conv, of T ps as] conv by simp
      have c1r: "converged ?s1 ?root" using conv c1 by simp
      note IH = "1.IH"(1) [OF k refl refl c1r eq]
      have tk: "take k (take k ?W @ drop (Suc k) ?W) = take k ?W"
        using k by simp
      have dk: "drop k (take k ?W @ drop (Suc k) ?W) = drop (Suc k) ?W"
        using k by simp
      show ?thesis
        using IH conv unfolding t ct tk dk by (simp add: dropk)
    next
      case nconv: False
      let ?s2 = "?s1\<lparr>m_last_d := m_last_d ?s1 @ [ps ! k], m_last_hd := m_last_hd ?s1 @ [as ! k]\<rparr>"
      have s1: "?s1 = s" using nconv by simp
      have eq: "retire_converged T (k + 1) (?s2, ps, as) = (s', ps', as')"
        using "1.prems" retire_converged_keep [OF k nconv, of T ps as] nconv by simp
      have c2: "converged ?s2 = converged s" by (rule converged_cong) (simp_all add: s1)
      have nc1: "\<not> converged ?s1 ?root" using nconv c1 by simp
      note IH = "1.IH"(2) [OF k refl refl nc1 eq]
      have tk: "take (Suc k) ?W = take k ?W @ [?root]"
        using k by (simp add: take_Suc_conv_app_nth)
      have f2: "m_working_set ?s2 = ?W" "m_linear ?s2 = m_linear s" "m_errors ?s2 = m_errors s"
        "m_thresh ?s2 = m_thresh s" "m_roots ?s2 = m_roots s"
        "length (m_last_d ?s2) = Suc (length (m_last_d s))"
        using nconv by simp_all
      show ?thesis
        using IH nconv unfolding fst_conv c2 f2 by (simp add: tk dropk)
    qed
  qed
qed


lemma record_solution_q:
  "m_q_solutions (record_solution T k (s, ps, as))
     = (m_q_solutions s)(m_working_set s ! k \<mapsto>
          last (Q_keys (Q_add_solution T (ps ! k) (as ! k) (m_qspace s))))"
  "Q_size (m_qspace (record_solution T k (s, ps, as))) = Suc (Q_size (m_qspace s))"
  by (simp_all add: record_solution_def Let_def Q_size_def Q_add_solution_def)

lemma retire_converged_q_solutions:
  "retire_converged T k st = (s', ps', as') \<Longrightarrow>
   m_q_solutions (fst st) \<subseteq>\<^sub>m m_q_solutions s'
   \<and> dom (m_q_solutions s')
       = dom (m_q_solutions (fst st))
         \<union> {r \<in> set (drop k (m_working_set (fst st))). converged (fst st) r}
   \<and> Q_size (m_qspace s')
       = Q_size (m_qspace (fst st))
         + card {r \<in> set (drop k (m_working_set (fst st))).
                   converged (fst st) r \<and> m_q_solutions (fst st) r = None}"
proof (induction T k st arbitrary: s' ps' as' rule: retire_converged.induct)
  case (1 T k s ps as)
  let ?W = "m_working_set s"
  show ?case
  proof (cases "k < length ?W")
    case False
    then show ?thesis using "1.prems" by (simp add: retire_converged_done)
  next
    case k: True
    let ?root = "?W ! k"
    let ?s1 = "if converged s ?root \<and> m_q_solutions s ?root = None
               then record_solution T k (s, ps, as) else s"
    have dropk: "drop k ?W = ?root # drop (Suc k) ?W"
      using k by (simp add: Cons_nth_drop_Suc)
    have c1: "converged ?s1 = converged s" by (simp add: converged_record_solution)
    show ?thesis
    proof (cases "converged s ?root")
      case conv: True
      let ?t = "fst (remove_from_working_set k (?s1, ps, as))"
      have t: "m_working_set ?t = take k ?W @ drop (Suc k) ?W"
              "m_q_solutions ?t = m_q_solutions ?s1" "m_qspace ?t = m_qspace ?s1"
        using remove_from_working_set_fields [of k ?s1 ps as] k
        by (simp_all add: record_solution_fields)
      have ct: "converged ?t = converged s"
        using remove_from_working_set_fields [of k ?s1 ps as] k c1
        by (intro converged_cong) (simp_all add: record_solution_fields)
      have eq: "retire_converged T k (remove_from_working_set k (?s1, ps, as)) = (s', ps', as')"
        using "1.prems" retire_converged_remove [OF k conv, of T ps as] conv by simp
      have c1r: "converged ?s1 ?root" using conv c1 by simp
      note IH = "1.IH"(1) [OF k refl refl c1r eq]
      have dk: "drop k (take k ?W @ drop (Suc k) ?W) = drop (Suc k) ?W"
        using k by simp
      show ?thesis
      proof (cases "m_q_solutions s ?root = None")
        case new: True
        define upd where
          "upd = (m_q_solutions s)(?root \<mapsto>
                    last (Q_keys (Q_add_solution T (ps ! k) (as ! k) (m_qspace s))))"
        have q1: "m_q_solutions ?s1 = upd"
                 "Q_size (m_qspace ?s1) = Suc (Q_size (m_qspace s))"
          using conv new by (simp_all add: record_solution_q upd_def)
        have le: "m_q_solutions s \<subseteq>\<^sub>m upd"
          using new by (auto simp: map_le_def upd_def)
        have updN: "(upd r = None) = (m_q_solutions s r = None \<and> r \<noteq> ?root)" for r
          by (simp add: upd_def)
        have sets: "{r \<in> set (drop k ?W). converged s r \<and> m_q_solutions s r = None}
              = insert ?root {r \<in> set (drop (Suc k) ?W). converged s r \<and> upd r = None}"
          using conv new by (auto simp: dropk updN)
        have card: "card {r \<in> set (drop k ?W). converged s r \<and> m_q_solutions s r = None}
              = Suc (card {r \<in> set (drop (Suc k) ?W). converged s r \<and> upd r = None})"
          unfolding sets by (subst card_insert_disjoint) (auto simp: updN)
        have dom: "dom (m_q_solutions s) \<union> {r \<in> set (drop k ?W). converged s r}
              = dom upd \<union> {r \<in> set (drop (Suc k) ?W). converged s r}"
          using conv by (auto simp: dropk upd_def)
        have IH1: "upd \<subseteq>\<^sub>m m_q_solutions s'"
          and IH2: "dom (m_q_solutions s')
                      = dom upd \<union> {r \<in> set (drop (Suc k) ?W). converged s r}"
          and IH3: "Q_size (m_qspace s')
                      = Suc (Q_size (m_qspace s))
                        + card {r \<in> set (drop (Suc k) ?W). converged s r \<and> upd r = None}"
          using IH unfolding t ct dk q1 fst_conv by blast+
        show ?thesis
          unfolding fst_conv card dom
          using map_le_trans [OF le IH1] IH2 IH3 by simp
      next
        case old: False
        have q1: "?s1 = s" using old by auto
        have sets: "{r \<in> set (drop k ?W). converged s r \<and> m_q_solutions s r = None}
              = {r \<in> set (drop (Suc k) ?W). converged s r \<and> m_q_solutions s r = None}"
          using old by (auto simp: dropk)
        have dom: "dom (m_q_solutions s) \<union> {r \<in> set (drop k ?W). converged s r}
              = dom (m_q_solutions s) \<union> {r \<in> set (drop (Suc k) ?W). converged s r}"
          using old by (auto simp: dropk)
        show ?thesis
          using IH [unfolded t ct dk fst_conv] unfolding q1 fst_conv sets dom by simp
      qed
    next
      case nconv: False
      let ?s2 = "?s1\<lparr>m_last_d := m_last_d ?s1 @ [ps ! k], m_last_hd := m_last_hd ?s1 @ [as ! k]\<rparr>"
      have s1: "?s1 = s" using nconv by simp
      have eq: "retire_converged T (k + 1) (?s2, ps, as) = (s', ps', as')"
        using "1.prems" retire_converged_keep [OF k nconv, of T ps as] nconv by simp
      have c2: "converged ?s2 = converged s" by (rule converged_cong) (simp_all add: s1)
      have nc1: "\<not> converged ?s1 ?root" using nconv c1 by simp
      note IH = "1.IH"(2) [OF k refl refl nc1 eq]
      have f2: "m_working_set ?s2 = ?W" "m_q_solutions ?s2 = m_q_solutions s"
        "m_qspace ?s2 = m_qspace s"
        using nconv by simp_all
      have sets: "{r \<in> set (drop k ?W). converged s r \<and> m_q_solutions s r = None}
              = {r \<in> set (drop (k + 1) ?W). converged s r \<and> m_q_solutions s r = None}"
         "{r \<in> set (drop k ?W). converged s r} = {r \<in> set (drop (k + 1) ?W). converged s r}"
        using nconv by (auto simp: dropk)
      show ?thesis
        using IH unfolding fst_conv c2 f2 sets by simp
    qed
  qed
qed


lemma buildSubspace_None:
  "singularity_deletion E (assemble T s) = None \<Longrightarrow> buildSubspace T E s = assemble T s"
  by (subst buildSubspace.simps) simp

lemma buildSubspace_Some:
  "singularity_deletion E (assemble T s) = Some del \<Longrightarrow>
   buildSubspace T E s = buildSubspace T E (delete_Q del (assemble T s))"
  by (subst buildSubspace.simps) simp

lemma assemble_fields:
  "m_q_solutions (assemble T s) = m_q_solutions s"
  "m_roots (assemble T s) = m_roots s"
  "m_linear (assemble T s) = m_linear s"
  "m_thresh (assemble T s) = m_thresh s"
  "m_working_set (assemble T s) = m_working_set s"
  "m_errors (assemble T s) = m_errors s"
  "m_maxQ (assemble T s) = m_maxQ s"
  by (simp_all add: assemble_def Let_def)

lemma delete_Q_fields:
  "m_q_solutions (delete_Q d s) = m_q_solutions s"
  "m_roots (delete_Q d s) = m_roots s"
  "m_linear (delete_Q d s) = m_linear s"
  "m_thresh (delete_Q d s) = m_thresh s"
  "m_working_set (delete_Q d s) = m_working_set s"
  "m_pspace (delete_Q d s) = m_pspace s"
  "m_maxQ (delete_Q d s) = m_maxQ s"
  by (simp_all add: delete_Q_def Let_def)

lemma buildSubspace_fields:
  "m_q_solutions (buildSubspace T E s) = m_q_solutions s
   \<and> m_roots (buildSubspace T E s) = m_roots s
   \<and> m_linear (buildSubspace T E s) = m_linear s
   \<and> m_thresh (buildSubspace T E s) = m_thresh s
   \<and> m_working_set (buildSubspace T E s) = m_working_set s"
proof (induction T E s rule: buildSubspace.induct)
  case (1 T E s)
  show ?case
  proof (cases "singularity_deletion E (assemble T s)")
    case None
    then show ?thesis by (simp add: buildSubspace_None assemble_fields)
  next
    case (Some del)
    then show ?thesis
      using "1.IH" [OF refl Some]
      by (simp add: buildSubspace_Some assemble_fields delete_Q_fields)
  qed
qed

lemma nullify_solution_fields:
  "m_working_set (fst (nullify_solution T s ps)) = m_working_set s"
  "m_roots (fst (nullify_solution T s ps)) = m_roots s"
  "m_linear (fst (nullify_solution T s ps)) = m_linear s"
  "m_thresh (fst (nullify_solution T s ps)) = m_thresh s"
  "m_errors (fst (nullify_solution T s ps)) = m_errors s"
  "m_q_solutions (fst (nullify_solution T s ps)) = m_q_solutions s"
  "m_qspace (fst (nullify_solution T s ps)) = m_qspace s"
  by (simp_all add: nullify_solution_def Let_def)

lemma addVector_finish_inv:
  assumes "addVector_finish T s ps as pP ot = Inr res"
  shows "\<exists>s2 p2 a2 s3 p3 a3 p4 s4 p5 a4 pP4 o4.
    retire_converged T 0 (s2, p2, a2) = (s3, p3, a3)
    \<and> nullify_solution T s3 p4 = (s4, p5)
    \<and> (s4\<lparr>m_current_r := [], m_current_v := []\<rparr>, p5, a4, pP4, o4,
         length (m_working_set s4)) = res
    \<and> m_roots s \<le> length ps \<and> m_working_set s2 = [0..<m_roots s]
    \<and> m_roots s2 = m_roots s \<and> m_linear s2 = m_linear s \<and> m_thresh s2 = m_thresh s
    \<and> m_q_solutions s2 = m_q_solutions s \<and> m_qspace s2 = m_qspace s \<and> m_last_d s2 = []"
proof (cases "m_linear s")
  case True
  show ?thesis
    using assms True unfolding addVector_finish_def Let_def
    apply (simp split: if_splits sum.splits prod.splits)
    apply (intro exI conjI)
              apply assumption
             apply assumption
            apply assumption
           apply simp_all
    done
next
  case False
  show ?thesis
    using assms False unfolding addVector_finish_def Let_def
    apply (simp split: if_splits sum.splits prod.splits)
    apply (intro exI conjI)
              apply assumption
             apply assumption
            apply assumption
           apply simp_all
    done
qed


lemma nullify_solution_fst:
  "nullify_solution T s ps = (s4, p5) \<Longrightarrow>
   m_working_set s4 = m_working_set s \<and> m_roots s4 = m_roots s \<and> m_linear s4 = m_linear s
   \<and> m_thresh s4 = m_thresh s \<and> m_errors s4 = m_errors s
   \<and> m_q_solutions s4 = m_q_solutions s \<and> m_qspace s4 = m_qspace s"
  by (auto simp: nullify_solution_def Let_def split: if_splits)

lemma addVector_finish_spec:
  assumes "addVector_finish T s ps as pP ot = Inr (s', ps', as', pP', ot', n)"
  shows "n = length (m_working_set s')
    \<and> m_working_set s' = filter (\<lambda>r. \<not> converged s' r) [0..<m_roots s']
    \<and> m_roots s' = m_roots s \<and> m_linear s' = m_linear s \<and> m_thresh s' = m_thresh s
    \<and> m_q_solutions s \<subseteq>\<^sub>m m_q_solutions s'
    \<and> dom (m_q_solutions s') = dom (m_q_solutions s) \<union> {r. r < m_roots s \<and> converged s' r}
    \<and> Q_size (m_qspace s')
        = Q_size (m_qspace s)
          + card {r. r < m_roots s \<and> converged s' r \<and> m_q_solutions s r = None}"
proof -
  obtain s2 p2 a2 s3 p3 a3 p4 s4 p5 a4 pP4 o4 where
    rt: "retire_converged T 0 (s2, p2, a2) = (s3, p3, a3)"
    and nl: "nullify_solution T s3 p4 = (s4, p5)"
    and res: "(s4\<lparr>m_current_r := [], m_current_v := []\<rparr>, p5, a4, pP4, o4,
               length (m_working_set s4)) = (s', ps', as', pP', ot', n)"
    and s2: "m_working_set s2 = [0..<m_roots s]" "m_roots s2 = m_roots s"
      "m_linear s2 = m_linear s" "m_thresh s2 = m_thresh s"
      "m_q_solutions s2 = m_q_solutions s" "m_qspace s2 = m_qspace s"
    using addVector_finish_inv [OF assms] by blast
  have s': "s' = s4\<lparr>m_current_r := [], m_current_v := []\<rparr>"
    and n: "n = length (m_working_set s4)"
    using res by simp_all
  note f4 = nullify_solution_fst [OF nl]
  have f: "m_working_set s' = m_working_set s3" "m_roots s' = m_roots s3"
    "m_linear s' = m_linear s3" "m_thresh s' = m_thresh s3" "m_errors s' = m_errors s3"
    "m_q_solutions s' = m_q_solutions s3" "m_qspace s' = m_qspace s3"
    using f4 by (simp_all add: s')
  have c3: "converged s' = converged s3" by (rule converged_cong) (simp_all add: f)
  note ws = retire_converged_working_set [OF rt, unfolded fst_conv]
  note qs = retire_converged_q_solutions [OF rt, unfolded fst_conv]
  have c2: "converged s2 = converged s3"
    by (rule converged_cong) (use ws in simp_all)
  have set_upt: "{r \<in> set [0..<N]. P r} = {r. r < N \<and> P r}" for P and N :: nat
    by auto
  show ?thesis
    using ws qs n f4 unfolding c2 s2
    by (simp add: f c3 set_upt)
qed

lemma rescale_step_length:
  "length (fst (rescale_step T s st k)) = length (fst st)
   \<and> length (snd (rescale_step T s st k)) = length (snd st)"
  by (cases st) (simp add: rescale_step_def Let_def)

lemma rescale_length:
  "length (fst (rescale T s ps as)) = length ps \<and> length (snd (rescale T s ps as)) = length as"
proof -
  have "length (fst (foldl (rescale_step T s) st ks)) = length (fst st)
        \<and> length (snd (foldl (rescale_step T s) st ks)) = length (snd st)" for st ks
    by (induction ks arbitrary: st) (simp_all add: rescale_step_length)
  then show ?thesis by (simp add: rescale_def)
qed

lemma interactions_fields:
  "m_q_solutions (interactions T s ps as) = m_q_solutions s"
  "m_roots (interactions T s ps as) = m_roots s"
  "m_linear (interactions T s ps as) = m_linear s"
  "m_thresh (interactions T s ps as) = m_thresh s"
  "m_working_set (interactions T s ps as) = m_working_set s"
  "m_qspace (interactions T s ps as) = m_qspace s"
  by (simp_all add: interactions_def Let_def)

lemma addVector_inv:
  assumes "addVector T E srp s ps as pP ot = Inr res"
  shows "(entry_working_set s ps = []
          \<and> res = (if m_roots s < 1 then s\<lparr>m_roots := length ps\<rparr> else s, ps, as, pP, ot, 0))
       \<or> (entry_working_set s ps \<noteq> []
          \<and> (\<exists>s7 u s8 ps1 as1. srp s7 = Inr (u, s8)
                \<and> addVector_finish T s8 ps1 as1 pP ot = Inr res
                \<and> m_q_solutions s7 = m_q_solutions s))"
proof (cases "entry_working_set s ps = []")
  case True
  then show ?thesis
    using assms unfolding addVector_def Let_def entry_working_set_def
    by (auto split: if_splits)
next
  case False
  have "\<exists>s7 u s8 ps1 as1. srp s7 = Inr (u, s8)
                \<and> addVector_finish T s8 ps1 as1 pP ot = Inr res
                \<and> m_q_solutions s7 = m_q_solutions s"
    using assms False unfolding addVector_def Let_def entry_working_set_def
    apply (simp split: if_splits sum.splits prod.splits)
       apply (intro exI conjI, assumption, assumption, simp add: buildSubspace_fields interactions_fields)+
    done
  then show ?thesis using False by simp
qed

subsection \<open>Evaluation of the first call on a \<open>LinearEigensystem\<close> and on a \<open>DIIS\<close> solver\<close>


lemma first_unused_notin: "ll \<notin> set m \<Longrightarrow> first_unused m ll = ll"
  by (subst first_unused.simps) simp

lemmas eigen_defs =
  LinearEigensystem_solveReducedProblem_def diagonalizeSubspaceMatrix_def solve_Hbar_def
  Hbar_def svmh_def overlap_for_svd_def back_transformation_def
  eigenvectors_negligibly_complex_def matrix_norm_def map_matrix_def mat_mult_def
  asDiagonal_def leftCols_def adjoint_def set_col_def block_def set_coeff_def
  sort_eigensolutions_def sort_step_def select_lowest_def
  normalise_eigenvectors_def normalise_step_def null_space_vector_def project_out_def
  overlap_norm_def largest_component_def divide_column_def block_is_finite_def
  cd_times_def cd_minus_def cd_sum_def eigen_1x1_def matrix_1x1_def

lemmas finish_defs =
  addVector_finish_def
  doInterpolation_def interpolate_root_def combine_def renormalise_def subtract_from_residual_def
  add_P_contribution_def add_Q_contribution_def add_R_contribution_def interpolation_nQ_def
  evaluate_errors_def nullify_solution_def resize_list_def converged_def
  Q_size_def Q_init_def dense_ops_def record_solution_def remove_from_working_set_def move_down_def
  Q_add_solution_def

lemma LinearEigensystem_1x1:
  fixes s :: "('v, 'm) IterativeSolver_scheme"
  assumes "rows (m_subspaceMatrix s) = 1" "coeff (m_subspaceMatrix s) 0 0 = 2"
    "coeff (m_subspaceOverlap s) 0 0 = 1" "cols (m_subspaceOverlap s) = 1"
    "m_roots s = 1" "\<not> m_rspt s" "\<not> m_hermitian s"
  shows "\<exists>s8. LinearEigensystem_solveReducedProblem eigen_1x1 False s = Inr (True, s8)
     \<and> rows (m_interpolation s8) = 1 \<and> coeff (m_interpolation s8) 0 0 = 1
     \<and> coeff (m_subspaceEigenvalues s8) 0 0 = 2"
  using assms
  by (simp add: eigen_defs Let_def upt_rec first_unused_notin)

lemma addVector_finish_one_root:
  fixes s :: "(real list, 'm) IterativeSolver_scheme"
  assumes "m_roots s = 1" "m_linear s" "m_residual_eigen s" "\<not> m_residual_rhs s"
    "m_pspace s = []" "m_current_r s = [[1]]" "m_current_v s = [[2]]"
    "rows (m_interpolation s) = 1" "coeff (m_interpolation s) 0 0 = 1"
    "coeff (m_subspaceEigenvalues s) 0 0 = 2" "m_thresh s = 1 / 10 ^ 8"
    "m_q_solutions s = Map.empty" "m_qspace s = Q_init" "\<not> m_nullify_solution_before_update s"
    "m_errors s = []"
  shows "map_sum id (\<lambda>(s', p, a, pP, ot, n).
            (m_working_set s', m_errors s', m_q_solutions s' 0, Q_keys (m_qspace s'), p, a, n))
           (addVector_finish dense_ops s [[1]] [[2]] [] [])
         = Inr ([], [0], Some 0, [0], [[0]], [[0]], 0)"
  using assms
  by (simp add: finish_defs Let_def upt_rec retire_converged_remove retire_converged_done)

lemma dense_dot_1: "dot dense_ops [a] [b] = a * b"
  by (simp add: dense_ops_def)

lemma eigen_call_addVector:
  "addVector dense_ops eigen_1x1 srp LinearEigensystem_init [[1]] [[2]] [] [] =
     (case srp eigen_call_reduced of Inl e \<Rightarrow> Inl e
      | Inr (u, s8) \<Rightarrow> addVector_finish dense_ops s8 [[1]] [[2]] [] [])"
  by (simp add: addVector_def eigen_call_reduced_def eigen_call_prepared_def LinearEigensystem_init_def IterativeSolver_init_def
        Q_init_def Q_size_def rescale_def rescale_step_def dense_dot_1 Let_def upt_rec)

lemma buildSubspace_empty_Q:
  "Q_size (m_qspace s) = 0 \<Longrightarrow> buildSubspace T E s = assemble T s"
  by (rule buildSubspace_None) (simp add: singularity_deletion_def assemble_spaces Let_def)

lemma eigen_call_reduced_values:
  "rows (m_subspaceMatrix eigen_call_reduced) = 1" "coeff (m_subspaceMatrix eigen_call_reduced) 0 0 = 2"
  "coeff (m_subspaceOverlap eigen_call_reduced) 0 0 = 1" "cols (m_subspaceOverlap eigen_call_reduced) = 1"
  "m_roots eigen_call_reduced = 1" "\<not> m_rspt eigen_call_reduced" "\<not> m_hermitian eigen_call_reduced"
  "m_linear eigen_call_reduced" "m_residual_eigen eigen_call_reduced" "\<not> m_residual_rhs eigen_call_reduced"
  "m_pspace eigen_call_reduced = []" "m_current_r eigen_call_reduced = [[1]]" "m_current_v eigen_call_reduced = [[2]]"
  "m_thresh eigen_call_reduced = 1 / 10 ^ 8"
  "m_q_solutions eigen_call_reduced = Map.empty" "m_qspace eigen_call_reduced = Q_init"
  "\<not> m_nullify_solution_before_update eigen_call_reduced" "m_errors eigen_call_reduced = []"
  by (simp_all add: eigen_call_reduced_def eigen_call_prepared_def buildSubspace_empty_Q interactions_def assemble_def
        assemble_matrix_def assemble_overlap_def assemble_RHS_def conservativeResize_def resize_def
        LinearEigensystem_init_def IterativeSolver_init_def Q_init_def Q_size_def dense_ops_def
        empty_matrix_def Let_def upt_rec)

lemma LinearEigensystem_frame:
  assumes "LinearEigensystem_solveReducedProblem E intel s = Inr (u, s')"
  shows "s' = s\<lparr>m_subspaceEigenvalues := m_subspaceEigenvalues s',
                  m_subspaceEigenvectors := m_subspaceEigenvectors s',
                  m_interpolation := m_interpolation s',
                  m_updateShift := m_updateShift s'\<rparr>"
  using assms
  by (auto simp: LinearEigensystem_solveReducedProblem_def diagonalizeSubspaceMatrix_def
        solve_Hbar_def Let_def split: if_splits sum.splits prod.splits)

lemma eigen_call_run:
  "map_sum id (\<lambda>(s', p, a, pP, ot, n).
            (m_working_set s', m_errors s', m_q_solutions s' 0, Q_keys (m_qspace s'), p, a, n))
     (addVector dense_ops eigen_1x1 (LinearEigensystem_solveReducedProblem eigen_1x1 False)
        LinearEigensystem_init [[1]] [[2]] [] [])
   = Inr ([], [0], Some 0, [0], [[0]], [[0]], 0)"
proof -
  obtain s8 where srp: "LinearEigensystem_solveReducedProblem eigen_1x1 False eigen_call_reduced = Inr (True, s8)"
    and s8: "rows (m_interpolation s8) = 1" "coeff (m_interpolation s8) 0 0 = 1"
      "coeff (m_subspaceEigenvalues s8) 0 0 = 2"
    using LinearEigensystem_1x1 [of eigen_call_reduced] eigen_call_reduced_values by auto
  note fr = LinearEigensystem_frame [OF srp]
  have f: "m_roots s8 = 1" "m_linear s8" "m_residual_eigen s8" "\<not> m_residual_rhs s8"
    "m_pspace s8 = []" "m_current_r s8 = [[1]]" "m_current_v s8 = [[2]]"
    "m_thresh s8 = 1 / 10 ^ 8" "m_q_solutions s8 = Map.empty" "m_qspace s8 = Q_init"
    "\<not> m_nullify_solution_before_update s8" "m_errors s8 = []"
    by (subst fr, simp add: eigen_call_reduced_values)+
  show ?thesis
    using addVector_finish_one_root [of s8] f s8 by (simp add: eigen_call_addVector srp)
qed

lemmas model_defs =
  addVector_def addVector_finish_def rescale_def rescale_step_def interactions_def
  assemble_def assemble_matrix_def assemble_overlap_def assemble_RHS_def
  doInterpolation_def interpolate_root_def combine_def renormalise_def subtract_from_residual_def
  add_P_contribution_def add_Q_contribution_def add_R_contribution_def interpolation_nQ_def
  evaluate_errors_def nullify_solution_def resize_list_def converged_def
  conservativeResize_def resize_def set_coeff_def setZero_def block_def set_block_def
  Q_size_def Q_init_def IterativeSolver_init_def empty_matrix_def dense_ops_def

subsection \<open>\<open>addVector\<close>: the claims on the working set\<close>

lemma length_resize_list: "length (resize_list n xs) = n"
  by (simp add: resize_list_def)

lemma foldl_update_upt:
  "m \<le> length e0 \<Longrightarrow>
   length (foldl (\<lambda>e k. e[k := f k]) e0 [0..<m]) = length e0
   \<and> (\<forall>r. foldl (\<lambda>e k. e[k := f k]) e0 [0..<m] ! r = (if r < m then f r else e0 ! r))"
proof (induction m)
  case 0
  then show ?case by simp
next
  case (Suc m)
  then show ?case by (auto simp: nth_list_update less_Suc_eq)
qed

lemma evaluate_errors_all_roots:
  assumes "m_working_set s = [0..<n]" and "length (m_errors s) = n"
  shows "length (evaluate_errors T s action) = n
     \<and> (\<forall>r<n. evaluate_errors T s action ! r = sqrt (dot T (action ! r) (action ! r)))"
proof -
  have "foldl (\<lambda>errors k. errors[[0..<n] ! k := sqrt (dot T (action ! k) (action ! k))]) e0 ks
        = foldl (\<lambda>errors k. errors[k := sqrt (dot T (action ! k) (action ! k))]) e0 ks"
    if "set ks \<subseteq> {0..<n}" for ks e0
    using that by (induction ks arbitrary: e0) simp_all
  then have "evaluate_errors T s action
        = foldl (\<lambda>errors k. errors[k := sqrt (dot T (action ! k) (action ! k))]) (m_errors s) [0..<n]"
    by (simp add: evaluate_errors_def assms(1))
  then show ?thesis
    using foldl_update_upt [of n "m_errors s" "\<lambda>k. sqrt (dot T (action ! k) (action ! k))"] assms(2)
    by simp
qed

lemma retire_converged_errors:
  "retire_converged T k st = (s', ps', as') \<Longrightarrow> m_errors s' = m_errors (fst st)"
  using retire_converged_working_set by blast

lemma addVector_finish_errors:
  assumes "addVector_finish T s ps as pP ot = Inr (s', ps', as', pP', ot', n)"
  shows "\<exists>x residual xP ot1.
      (if m_linear s
       then doInterpolation T
              (s\<lparr>m_errors := resize_list (m_roots s) (m_errors s),
                 m_working_set := [0..<m_roots s]\<rparr>) ps as pP ot False
              = Inr (x, residual, xP, ot1)
       else residual = as)
      \<and> length (m_errors s') = m_roots s
      \<and> (\<forall>r<m_roots s. m_errors s' ! r = sqrt (dot T (residual ! r) (residual ! r)))"
proof -
  let ?s1 = "s\<lparr>m_errors := resize_list (m_roots s) (m_errors s),
                m_working_set := [0..<m_roots s]\<rparr>"
  obtain x residual xP ot1 where
    i: "(if m_linear s then doInterpolation T ?s1 ps as pP ot False
         else Inr (ps, as, pP, ot)) = Inr (x, residual, xP, ot1)"
    using assms unfolding addVector_finish_def Let_def
    by (cases "if m_linear s then doInterpolation T ?s1 ps as pP ot False
         else Inr (ps, as, pP, ot)") (auto split: if_splits)
  have e: "m_errors s' = evaluate_errors T ?s1 residual"
    using assms i unfolding addVector_finish_def Let_def
    by (auto split: if_splits sum.splits prod.splits
          dest!: retire_converged_errors simp: nullify_solution_def Let_def)
  have ev: "length (evaluate_errors T ?s1 residual) = m_roots s
     \<and> (\<forall>r<m_roots s. evaluate_errors T ?s1 residual ! r
            = sqrt (dot T (residual ! r) (residual ! r)))"
    by (rule evaluate_errors_all_roots) (simp_all add: length_resize_list)
  have r: "(if m_linear s
       then doInterpolation T ?s1 ps as pP ot False = Inr (x, residual, xP, ot1)
       else residual = as)"
    using i by (auto split: if_splits)
  have "(if m_linear s
       then doInterpolation T ?s1 ps as pP ot False = Inr (x, residual, xP, ot1)
       else residual = as)
      \<and> length (m_errors s') = m_roots s
      \<and> (\<forall>r<m_roots s. m_errors s' ! r = sqrt (dot T (residual ! r) (residual ! r)))"
    using r ev unfolding e by blast
  then show ?thesis by blast
qed

lemma rescale_cong:
  assumes "m_residual_eigen s = m_residual_eigen t"
    and "length (m_working_set s) = length (m_working_set t)"
  shows "rescale T s = rescale T t"
proof -
  have "rescale_step T s = rescale_step T t"
    by (intro ext) (simp add: rescale_step_def assms(1) split: prod.splits)
  then show ?thesis by (intro ext) (simp add: rescale_def assms(2))
qed

lemma addVector_late:
  assumes "addVector T E srp s ps as pP ot = Inr res" and "entry_working_set s ps \<noteq> []"
  shows "\<exists>s7 u s8. srp s7 = Inr (u, s8)
     \<and> m_q_solutions s7 = m_q_solutions s
     \<and> addVector_finish T s8
          (fst (rescale T (s\<lparr>m_working_set := entry_working_set s ps\<rparr>) ps as))
          (snd (rescale T (s\<lparr>m_working_set := entry_working_set s ps\<rparr>) ps as)) pP ot = Inr res"
proof -
  define s2 where "s2 = (if Q_size (m_qspace (if m_roots s < 1 then s\<lparr>m_roots := length ps\<rparr> else s)) = 0
                 \<and> m_working_set (if m_roots s < 1 then s\<lparr>m_roots := length ps\<rparr> else s) = []
             then (if m_roots s < 1 then s\<lparr>m_roots := length ps\<rparr> else s)
                    \<lparr>m_working_set := [0..<length ps]\<rparr>
             else (if m_roots s < 1 then s\<lparr>m_roots := length ps\<rparr> else s))"
  define s3 where "s3 = s2\<lparr>m_iterations := m_iterations s2 + 1, m_current_r := [],
                           m_current_v := []\<rparr>"
  have ws: "m_working_set s3 = entry_working_set s ps" "m_working_set s2 = entry_working_set s ps"
    and q: "m_q_solutions s3 = m_q_solutions s"
    and re: "m_residual_eigen s3 = m_residual_eigen s"
    by (simp_all add: s3_def s2_def entry_working_set_def)
  have r: "rescale T s3 = rescale T (s\<lparr>m_working_set := entry_working_set s ps\<rparr>)"
    by (rule rescale_cong) (simp_all add: ws re)
  obtain ps1 as1 where pa: "rescale T s3 ps as = (ps1, as1)"
    by (cases "rescale T s3 ps as") auto
  note u = addVector_def [of T E srp s ps as pP ot, unfolded Let_def, folded s2_def,
      folded s3_def]
  have "\<exists>s7 u s8. srp s7 = Inr (u, s8) \<and> m_q_solutions s7 = m_q_solutions s
          \<and> addVector_finish T s8 ps1 as1 pP ot = Inr res"
    using assms unfolding u ws pa
    apply (simp split: if_splits sum.splits prod.splits)
     apply (intro exI conjI, assumption, simp add: buildSubspace_fields interactions_fields q,
        assumption)+
    done
  then show ?thesis using pa r by simp
qed

lemma dense_dot_2: "dot dense_ops [a, b] [c, d] = a * c + b * d"
  by (simp add: dense_ops_def)

lemma eigen_open_addVector:
  "addVector dense_ops eigen_1x1 srp LinearEigensystem_init [[1, 0]] [[2, e]] [] [] =
     (case srp (eigen_open_reduced e) of Inl e \<Rightarrow> Inl e
      | Inr (u, s8) \<Rightarrow> addVector_finish dense_ops s8 [[1, 0]] [[2, e]] [] [])"
  by (simp add: addVector_def eigen_open_reduced_def eigen_open_prepared_def
        LinearEigensystem_init_def IterativeSolver_init_def
        Q_init_def Q_size_def rescale_def rescale_step_def dense_dot_2 Let_def upt_rec)

lemma eigen_open_reduced_values:
  "rows (m_subspaceMatrix (eigen_open_reduced e)) = 1"
  "coeff (m_subspaceMatrix (eigen_open_reduced e)) 0 0 = 2"
  "coeff (m_subspaceOverlap (eigen_open_reduced e)) 0 0 = 1"
  "cols (m_subspaceOverlap (eigen_open_reduced e)) = 1"
  "m_roots (eigen_open_reduced e) = 1" "\<not> m_rspt (eigen_open_reduced e)"
  "\<not> m_hermitian (eigen_open_reduced e)"
  "m_linear (eigen_open_reduced e)" "m_residual_eigen (eigen_open_reduced e)"
  "\<not> m_residual_rhs (eigen_open_reduced e)"
  "m_pspace (eigen_open_reduced e) = []" "m_current_r (eigen_open_reduced e) = [[1, 0]]"
  "m_current_v (eigen_open_reduced e) = [[2, e]]"
  "m_thresh (eigen_open_reduced e) = 1 / 10 ^ 8"
  "m_q_solutions (eigen_open_reduced e) = Map.empty" "m_qspace (eigen_open_reduced e) = Q_init"
  "\<not> m_nullify_solution_before_update (eigen_open_reduced e)"
  "m_errors (eigen_open_reduced e) = []"
  by (simp_all add: eigen_open_reduced_def eigen_open_prepared_def buildSubspace_empty_Q
        interactions_def assemble_def
        assemble_matrix_def assemble_overlap_def assemble_RHS_def conservativeResize_def resize_def
        LinearEigensystem_init_def IterativeSolver_init_def Q_init_def Q_size_def dense_ops_def
        empty_matrix_def Let_def upt_rec)

lemma addVector_finish_open_root:
  fixes s :: "(real list, 'm) IterativeSolver_scheme"
  assumes "m_roots s = 1" "m_linear s" "m_residual_eigen s" "\<not> m_residual_rhs s"
    "m_pspace s = []" "m_current_r s = [[1, 0]]" "m_current_v s = [[2, e]]"
    "rows (m_interpolation s) = 1" "coeff (m_interpolation s) 0 0 = 1"
    "coeff (m_subspaceEigenvalues s) 0 0 = 2" "m_thresh s = 1 / 10 ^ 8"
    "m_q_solutions s = Map.empty" "m_qspace s = Q_init" "\<not> m_nullify_solution_before_update s"
    "m_errors s = []"
  shows "map_sum id (\<lambda>(s', p, a, pP, ot, n).
            (m_working_set s', m_errors s', m_q_solutions s' 0, m_linear s', m_thresh s',
             m_roots s', n))
           (addVector_finish dense_ops s [[1, 0]] [[2, e]] [] [])
         = Inr (if \<bar>e\<bar> < 1 / 10 ^ 8 then ([], [\<bar>e\<bar>], Some 0, True, 1 / 10 ^ 8, 1, 0)
                else ([0], [\<bar>e\<bar>], None, True, 1 / 10 ^ 8, 1, 1))"
  using assms
  by (simp add: finish_defs Let_def upt_rec retire_converged_keep retire_converged_remove
        retire_converged_done)

lemma eigen_open_run:
  "map_sum id (\<lambda>(s', p, a, pP, ot, n).
            (m_working_set s', m_errors s', m_q_solutions s' 0, m_linear s', m_thresh s',
             m_roots s', n))
     (addVector dense_ops eigen_1x1 (LinearEigensystem_solveReducedProblem eigen_1x1 False)
        LinearEigensystem_init [[1, 0]] [[2, e]] [] [])
   = Inr (if \<bar>e\<bar> < 1 / 10 ^ 8 then ([], [\<bar>e\<bar>], Some 0, True, 1 / 10 ^ 8, 1, 0)
          else ([0], [\<bar>e\<bar>], None, True, 1 / 10 ^ 8, 1, 1))"
proof -
  obtain s8 where srp: "LinearEigensystem_solveReducedProblem eigen_1x1 False (eigen_open_reduced e)
                          = Inr (True, s8)"
    and s8: "rows (m_interpolation s8) = 1" "coeff (m_interpolation s8) 0 0 = 1"
      "coeff (m_subspaceEigenvalues s8) 0 0 = 2"
    using LinearEigensystem_1x1 [of "eigen_open_reduced e"] eigen_open_reduced_values by auto
  note fr = LinearEigensystem_frame [OF srp]
  have f: "m_roots s8 = 1" "m_linear s8" "m_residual_eigen s8" "\<not> m_residual_rhs s8"
    "m_pspace s8 = []" "m_current_r s8 = [[1, 0]]" "m_current_v s8 = [[2, e]]"
    "m_thresh s8 = 1 / 10 ^ 8" "m_q_solutions s8 = Map.empty" "m_qspace s8 = Q_init"
    "\<not> m_nullify_solution_before_update s8" "m_errors s8 = []"
    by (subst fr, simp add: eigen_open_reduced_values)+
  show ?thesis
    using addVector_finish_open_root [of s8 e] f s8 by (simp add: eigen_open_addVector srp)
qed

lemma diis_open_run:
  "map_sum id (\<lambda>(s', p, a, pP, ot, n).
            (m_working_set s', m_errors s', m_linear s', m_thresh s', m_roots s', p, a, n))
     (addVector dense_ops eigen_1x1 (DIIS_solveReducedProblem eigen_1x1)
        (DIIS_init :: (real list) IterativeSolver) [[1]] [[e]] [] [])
   = Inr ([0], [\<bar>e\<bar>], False, 1 / 10 ^ 8, 1, [[1]], [[e]], 1)"
  by (simp add: model_defs DIIS_init_def DIIS_solveReducedProblem_def Let_def
       buildSubspace_empty_Q retire_converged_keep retire_converged_done upt_rec)

lemma LinearEigensystem_keeps_q_solutions:
  "LinearEigensystem_solveReducedProblem E intel t = Inr (u, t') \<Longrightarrow>
   m_q_solutions t' = m_q_solutions t"
  by (subst LinearEigensystem_frame, assumption) simp

lemma DIIS_keeps_q_solutions:
  "DIIS_solveReducedProblem E t = Inr (u, t') \<Longrightarrow> m_q_solutions t' = m_q_solutions t"
  by (auto simp: DIIS_solveReducedProblem_def Let_def split: if_splits)

lemma Optimize_keeps_q_solutions:
  "Optimize_solveReducedProblem T t = Inr (u, t') \<Longrightarrow> m_q_solutions t' = m_q_solutions t"
  by (auto simp: Optimize_solveReducedProblem_def Optimize_accept_def Optimize_linesearch_def
        Let_def split: if_splits option.splits prod.splits)

text \<open>
  C1, as the claim states it, fails for the variants that are not linear. In the first
  call on a new \<open>DIIS\<close> solver with the parameter vector \<open>(1)\<close> and the residual
  \<open>(10^-9)\<close>, the error of root 0 is the norm \<open>10^-9\<close> of that residual, below the
  threshold \<open>10^-8\<close>, and root 0 is still in the working set on exit; the call returns 1.
\<close>

theorem addVector_working_set_counterexample:
  "map_sum id (\<lambda>(s', p, a, pP, ot, n).
       (m_working_set s', m_errors s', m_errors s' ! 0 < m_thresh s', m_thresh s', a, n))
     (addVector dense_ops eigen_1x1 (DIIS_solveReducedProblem eigen_1x1)
        (DIIS_init :: (real list) IterativeSolver) [[1]] [[1 / 10 ^ 9]] [] [])
   = Inr ([0], [sqrt (dot dense_ops [1 / 10 ^ 9] [1 / 10 ^ 9])], True, 1 / 10 ^ 8,
          [[1 / 10 ^ 9]], 1)"
proof -
  define e :: real where "e = 1 / 10 ^ 9"
  have e: "\<bar>e\<bar> = e" "e < 1 / 10 ^ 8" by (simp_all add: e_def)
  obtain s' p a pP ot n where
    r: "addVector dense_ops eigen_1x1 (DIIS_solveReducedProblem eigen_1x1)
          (DIIS_init :: (real list) IterativeSolver) [[1]] [[e]] [] []
        = Inr (s', p, a, pP, ot, n)"
    using diis_open_run [of e] by (auto simp: map_sum_def split: sum.splits)
  have "map_sum id (\<lambda>(s', p, a, pP, ot, n).
       (m_working_set s', m_errors s', m_errors s' ! 0 < m_thresh s', m_thresh s', a, n))
     (addVector dense_ops eigen_1x1 (DIIS_solveReducedProblem eigen_1x1)
        (DIIS_init :: (real list) IterativeSolver) [[1]] [[e]] [] [])
   = Inr ([0], [sqrt (dot dense_ops [e] [e])], True, 1 / 10 ^ 8, [[e]], 1)"
    using diis_open_run [of e] e by (simp add: r dense_dot_1)
  then show ?thesis unfolding e_def .
qed

text \<open>
  C1, amended. When \<open>addVector\<close> returns, its return value is the size of the working set.
  If the working set was empty after the first lines, it is empty on exit. Otherwise
  \<open>solveReducedProblem\<close> has returned, and the error of every root \<open>r\<close> of \<open>0..m_roots-1\<close>
  is \<open>sqrt \<langle>residual r, residual r\<rangle>\<close>, where the residuals are, for a linear solver, those
  that \<open>doInterpolation\<close> computes in the state that \<open>solveReducedProblem\<close> left, for all
  roots, from the rescaled parameters and actions, and for the others the rescaled actions
  themselves. The working set on exit consists, in ascending order, of the roots
  \<open>0..m_roots-1\<close> except those that \<open>m_linear\<close> holds for and whose error is below the
  threshold: with \<open>m_linear\<close> a root is out of the working set exactly when its error is
  below the threshold, without \<open>m_linear\<close> no root leaves it. The roots recorded in
  \<open>m_q_solutions\<close> on exit are those recorded on entry and those that are out of the
  working set; a root recorded on entry keeps its record. (This for every
  \<open>solveReducedProblem\<close> that leaves \<open>m_q_solutions\<close> alone, as those of
  \<open>LinearEigensystem\<close>, \<open>DIIS\<close> and \<open>Optimize\<close> do.)
\<close>

theorem addVector_working_set:
  assumes "\<forall>t u t'. srp t = Inr (u, t') \<longrightarrow> m_q_solutions t' = m_q_solutions t"
    and "addVector T E srp s parameters action parametersP other
           = Inr (s', parameters', action', parametersP', other', n)"
  shows "n = length (m_working_set s')
     \<and> (entry_working_set s parameters = [] \<longrightarrow>
          m_working_set s' = [] \<and> m_q_solutions s' = m_q_solutions s)
     \<and> (entry_working_set s parameters \<noteq> [] \<longrightarrow>
          (\<exists>t u t' x residual xP ot1.
              srp t = Inr (u, t')
            \<and> m_linear s' = m_linear t' \<and> m_roots s' = m_roots t' \<and> m_thresh s' = m_thresh t'
            \<and> (if m_linear t'
               then doInterpolation T
                      (t'\<lparr>m_errors := resize_list (m_roots t') (m_errors t'),
                          m_working_set := [0..<m_roots t']\<rparr>)
                      (fst (rescale T (s\<lparr>m_working_set := entry_working_set s parameters\<rparr>)
                              parameters action))
                      (snd (rescale T (s\<lparr>m_working_set := entry_working_set s parameters\<rparr>)
                              parameters action))
                      parametersP other False
                    = Inr (x, residual, xP, ot1)
               else residual
                    = snd (rescale T (s\<lparr>m_working_set := entry_working_set s parameters\<rparr>)
                             parameters action))
            \<and> length (m_errors s') = m_roots s'
            \<and> (\<forall>r<m_roots s'. m_errors s' ! r = sqrt (dot T (residual ! r) (residual ! r))))
          \<and> m_working_set s'
              = filter (\<lambda>r. \<not> (m_linear s' \<and> m_errors s' ! r < m_thresh s')) [0..<m_roots s']
          \<and> dom (m_q_solutions s')
              = dom (m_q_solutions s)
                \<union> {r. r < m_roots s' \<and> m_linear s' \<and> m_errors s' ! r < m_thresh s'})
     \<and> m_q_solutions s \<subseteq>\<^sub>m m_q_solutions s'"
proof (cases "entry_working_set s parameters = []")
  case True
  then have "(s', parameters', action', parametersP', other', n)
      = (if m_roots s < 1 then s\<lparr>m_roots := length parameters\<rparr> else s,
         parameters, action, parametersP, other, 0)"
    using addVector_inv [OF assms(2)] by simp
  then have "n = 0" and "m_working_set s' = m_working_set s"
    and "m_q_solutions s' = m_q_solutions s" and "m_qspace s' = m_qspace s"
    by (simp_all split: if_splits)
  then show ?thesis
    using True by (auto simp: entry_working_set_def split: if_splits)
next
  case False
  define ps1 where
    "ps1 = fst (rescale T (s\<lparr>m_working_set := entry_working_set s parameters\<rparr>) parameters action)"
  define as1 where
    "as1 = snd (rescale T (s\<lparr>m_working_set := entry_working_set s parameters\<rparr>) parameters action)"
  obtain s7 u s8 where srp: "srp s7 = Inr (u, s8)"
    and q7: "m_q_solutions s7 = m_q_solutions s"
    and fin: "addVector_finish T s8 ps1 as1 parametersP other
                = Inr (s', parameters', action', parametersP', other', n)"
    using addVector_late [OF assms(2) False] unfolding ps1_def as1_def by blast
  have q8: "m_q_solutions s8 = m_q_solutions s"
    using assms(1) srp q7 by simp
  note spec = addVector_finish_spec [OF fin]
  obtain x residual xP ot1 where
    res: "if m_linear s8
          then doInterpolation T
                 (s8\<lparr>m_errors := resize_list (m_roots s8) (m_errors s8),
                     m_working_set := [0..<m_roots s8]\<rparr>) ps1 as1 parametersP other False
               = Inr (x, residual, xP, ot1)
          else residual = as1"
    and len: "length (m_errors s') = m_roots s8"
    and err: "\<forall>r<m_roots s8. m_errors s' ! r = sqrt (dot T (residual ! r) (residual ! r))"
    using addVector_finish_errors [OF fin] by blast
  have ex: "\<exists>t u t' x residual xP ot1.
              srp t = Inr (u, t')
            \<and> m_linear s' = m_linear t' \<and> m_roots s' = m_roots t' \<and> m_thresh s' = m_thresh t'
            \<and> (if m_linear t'
               then doInterpolation T
                      (t'\<lparr>m_errors := resize_list (m_roots t') (m_errors t'),
                          m_working_set := [0..<m_roots t']\<rparr>) ps1 as1 parametersP other False
                    = Inr (x, residual, xP, ot1)
               else residual = as1)
            \<and> length (m_errors s') = m_roots s'
            \<and> (\<forall>r<m_roots s'. m_errors s' ! r = sqrt (dot T (residual ! r) (residual ! r)))"
    apply (rule exI [of _ s7], rule exI [of _ u], rule exI [of _ s8], rule exI [of _ x],
           rule exI [of _ residual], rule exI [of _ xP], rule exI [of _ ot1])
    using srp spec res len err by simp
  have rest: "n = length (m_working_set s')
     \<and> m_working_set s'
              = filter (\<lambda>r. \<not> (m_linear s' \<and> m_errors s' ! r < m_thresh s')) [0..<m_roots s']
     \<and> dom (m_q_solutions s')
              = dom (m_q_solutions s)
                \<union> {r. r < m_roots s' \<and> m_linear s' \<and> m_errors s' ! r < m_thresh s'}
     \<and> m_q_solutions s \<subseteq>\<^sub>m m_q_solutions s'"
    using spec by (simp add: q8 converged_def)
  show ?thesis
    using False ex rest unfolding ps1_def as1_def by simp
qed

theorem addVector_working_set_witness:
  "(\<exists>s' p a pP ot.
      addVector dense_ops eigen_1x1 (LinearEigensystem_solveReducedProblem eigen_1x1 False)
        LinearEigensystem_init [[1, 0]] [[2, 1 / 10 ^ 9]] [] [] = Inr (s', p, a, pP, ot, 0)
      \<and> m_working_set s' = [] \<and> m_errors s' = [sqrt (dot dense_ops [0, 1 / 10 ^ 9] [0, 1 / 10 ^ 9])]
      \<and> m_thresh s' = 1 / 10 ^ 8
      \<and> m_q_solutions s' 0 = Some 0 \<and> dom (m_q_solutions s') = {0}
      \<and> (\<exists>residual. m_errors s' ! 0 = sqrt (dot dense_ops (residual ! 0) (residual ! 0))))
   \<and> (\<exists>s' p a pP ot.
      addVector dense_ops eigen_1x1 (LinearEigensystem_solveReducedProblem eigen_1x1 False)
        LinearEigensystem_init [[1, 0]] [[2, 1]] [] [] = Inr (s', p, a, pP, ot, 1)
      \<and> m_working_set s' = [0] \<and> m_errors s' = [sqrt (dot dense_ops [0, 1] [0, 1])]
      \<and> m_thresh s' = 1 / 10 ^ 8
      \<and> m_q_solutions s' 0 = None \<and> dom (m_q_solutions s') = {}
      \<and> (\<exists>residual. m_errors s' ! 0 = sqrt (dot dense_ops (residual ! 0) (residual ! 0))))
   \<and> entry_working_set (LinearEigensystem_init :: (real list) IterativeSolver) [[1, 0]] = [0]"
proof -
  let ?srp = "LinearEigensystem_solveReducedProblem eigen_1x1 False
                :: (real list) IterativeSolver \<Rightarrow> _"
  have frame: "\<forall>t u t'. ?srp t = Inr (u, t') \<longrightarrow> m_q_solutions t' = m_q_solutions t"
    using LinearEigensystem_keeps_q_solutions by blast
  have e: "entry_working_set (LinearEigensystem_init :: (real list) IterativeSolver) [[1, 0]] = [0]"
    by (simp add: entry_working_set_def LinearEigensystem_init_def IterativeSolver_init_def
          Q_init_def Q_size_def)
  have q0: "dom (m_q_solutions (LinearEigensystem_init :: (real list) IterativeSolver)) = {}"
    by (simp add: LinearEigensystem_init_def IterativeSolver_init_def)
  have A: "\<exists>s' p a pP ot.
      addVector dense_ops eigen_1x1 ?srp
        LinearEigensystem_init [[1, 0]] [[2, 1 / 10 ^ 9]] [] [] = Inr (s', p, a, pP, ot, 0)
      \<and> m_working_set s' = [] \<and> m_errors s' = [sqrt (dot dense_ops [0, 1 / 10 ^ 9] [0, 1 / 10 ^ 9])]
      \<and> m_thresh s' = 1 / 10 ^ 8
      \<and> m_q_solutions s' 0 = Some 0 \<and> dom (m_q_solutions s') = {0}
      \<and> (\<exists>residual. m_errors s' ! 0 = sqrt (dot dense_ops (residual ! 0) (residual ! 0)))"
  proof -
    define c :: real where "c = 1 / 10 ^ 9"
    have c: "\<bar>c\<bar> = c" "c < 1 / 10 ^ 8" by (simp_all add: c_def)
    obtain s' p a pP ot n where
      r: "addVector dense_ops eigen_1x1 ?srp LinearEigensystem_init [[1, 0]] [[2, c]] [] []
            = Inr (s', p, a, pP, ot, n)"
      using eigen_open_run [of c] by (auto simp: map_sum_def split: sum.splits)
    have v: "m_working_set s' = []" "m_errors s' = [c]" "n = 0"
      "m_q_solutions s' 0 = Some 0" "m_linear s'" "m_thresh s' = 1 / 10 ^ 8" "m_roots s' = 1"
      using eigen_open_run [of c] c by (simp_all add: r)
    note t = addVector_working_set [OF frame r]
    have d: "dom (m_q_solutions s') = {0}"
      using t e q0 v c by auto
    have "\<exists>residual. m_errors s' ! 0 = sqrt (dot dense_ops (residual ! 0) (residual ! 0))"
      using t e v by auto
    then have "\<exists>s' p a pP ot.
      addVector dense_ops eigen_1x1 ?srp
        LinearEigensystem_init [[1, 0]] [[2, c]] [] [] = Inr (s', p, a, pP, ot, 0)
      \<and> m_working_set s' = [] \<and> m_errors s' = [sqrt (dot dense_ops [0, c] [0, c])]
      \<and> m_thresh s' = 1 / 10 ^ 8
      \<and> m_q_solutions s' 0 = Some 0 \<and> dom (m_q_solutions s') = {0}
      \<and> (\<exists>residual. m_errors s' ! 0 = sqrt (dot dense_ops (residual ! 0) (residual ! 0)))"
      using r v d c by (simp add: dense_dot_2)
    then show ?thesis unfolding c_def .
  qed
  have B: "\<exists>s' p a pP ot.
      addVector dense_ops eigen_1x1 ?srp
        LinearEigensystem_init [[1, 0]] [[2, 1]] [] [] = Inr (s', p, a, pP, ot, 1)
      \<and> m_working_set s' = [0] \<and> m_errors s' = [sqrt (dot dense_ops [0, 1] [0, 1])]
      \<and> m_thresh s' = 1 / 10 ^ 8
      \<and> m_q_solutions s' 0 = None \<and> dom (m_q_solutions s') = {}
      \<and> (\<exists>residual. m_errors s' ! 0 = sqrt (dot dense_ops (residual ! 0) (residual ! 0)))"
  proof -
    obtain s' p a pP ot n where
      r: "addVector dense_ops eigen_1x1 ?srp LinearEigensystem_init [[1, 0]] [[2, 1]] [] []
            = Inr (s', p, a, pP, ot, n)"
      using eigen_open_run [of 1] by (auto simp: map_sum_def split: sum.splits)
    have v: "m_working_set s' = [0]" "m_errors s' = [1]" "n = 1"
      "m_q_solutions s' 0 = None" "m_linear s'" "m_thresh s' = 1 / 10 ^ 8" "m_roots s' = 1"
      using eigen_open_run [of 1] by (simp_all add: r)
    note t = addVector_working_set [OF frame r]
    have d: "dom (m_q_solutions s') = {}"
      using t e q0 v by auto
    have "\<exists>residual. m_errors s' ! 0 = sqrt (dot dense_ops (residual ! 0) (residual ! 0))"
      using t e v by auto
    then show ?thesis using r v d by (simp add: dense_dot_2)
  qed
  show ?thesis using A B e by simp
qed

subsection \<open>\<open>addVector\<close>: the early return\<close>

text \<open>
  C10. A call of \<open>addVector\<close> with an empty working set, on a solver whose Q space is not
  empty, returns 0 at once: the parameters, the actions and the other vectors come back
  as they were passed, and the Q space, the P space, the errors, the recorded solutions
  and the working set are those of the state on entry (of which only \<open>m_roots\<close> may have
  been set, by the first line, when it was 0).
\<close>

theorem addVector_empty_working_set:
  assumes "m_working_set s = []" and "0 < Q_size (m_qspace s)"
  shows "\<exists>s'. addVector T E srp s parameters action parametersP other
               = Inr (s', parameters, action, parametersP, other, 0)
     \<and> s' = (if m_roots s < 1 then s\<lparr>m_roots := length parameters\<rparr> else s)
     \<and> m_qspace s' = m_qspace s \<and> m_pspace s' = m_pspace s \<and> m_errors s' = m_errors s
     \<and> m_q_solutions s' = m_q_solutions s \<and> m_working_set s' = []
     \<and> m_iterations s' = m_iterations s \<and> m_current_r s' = m_current_r s
     \<and> m_current_v s' = m_current_v s"
  using assms by (simp add: addVector_def entry_working_set_def Let_def)

theorem addVector_empty_working_set_witness:
  "m_working_set eigen_converged = [] \<and> 0 < Q_size (m_qspace eigen_converged)
   \<and> addVector dense_ops eigen_1x1 (LinearEigensystem_solveReducedProblem eigen_1x1 False)
       eigen_converged [[5]] [[7]] [] []
     = Inr (eigen_converged, [[5]], [[7]], [], [], 0)"
proof -
  have a: "m_working_set eigen_converged = []" "0 < Q_size (m_qspace eigen_converged)"
    "m_roots eigen_converged = 1"
    by (simp_all add: eigen_converged_def LinearEigensystem_init_def IterativeSolver_init_def
          Q_size_def)
  show ?thesis
    using addVector_empty_working_set [OF a(1,2), of dense_ops eigen_1x1
        "LinearEigensystem_solveReducedProblem eigen_1x1 False" "[[5]]" "[[7]]" "[]" "[]"] a
    by simp
qed

subsection \<open>\<open>addVector\<close>: the size of the Q space on exit\<close>

lemma retire_converged_maxQ:
  "retire_converged T k st = (s', ps', as') \<Longrightarrow> m_maxQ s' = m_maxQ (fst st)"
proof (induction T k st arbitrary: s' ps' as' rule: retire_converged.induct)
  case (1 T k s ps as)
  let ?W = "m_working_set s"
  show ?case
  proof (cases "k < length ?W")
    case False
    then show ?thesis using "1.prems" by (simp add: retire_converged_done)
  next
    case k: True
    let ?root = "?W ! k"
    let ?s1 = "if converged s ?root \<and> m_q_solutions s ?root = None
               then record_solution T k (s, ps, as) else s"
    have c1: "converged ?s1 = converged s" by (simp add: converged_record_solution)
    have m1: "m_maxQ ?s1 = m_maxQ s" by (simp add: record_solution_def Let_def)
    show ?thesis
    proof (cases "converged s ?root")
      case conv: True
      let ?t = "fst (remove_from_working_set k (?s1, ps, as))"
      have t: "m_maxQ ?t = m_maxQ ?s1"
        by (simp add: remove_from_working_set_def Let_def)
      have eq: "retire_converged T k (remove_from_working_set k (?s1, ps, as)) = (s', ps', as')"
        using "1.prems" retire_converged_remove [OF k conv, of T ps as] conv by simp
      have c1r: "converged ?s1 ?root" using conv c1 by simp
      note IH = "1.IH"(1) [OF k refl refl c1r eq]
      show ?thesis using IH unfolding t m1 by simp
    next
      case nconv: False
      let ?s2 = "?s1\<lparr>m_last_d := m_last_d ?s1 @ [ps ! k], m_last_hd := m_last_hd ?s1 @ [as ! k]\<rparr>"
      have eq: "retire_converged T (k + 1) (?s2, ps, as) = (s', ps', as')"
        using "1.prems" retire_converged_keep [OF k nconv, of T ps as] nconv by simp
      have nc1: "\<not> converged ?s1 ?root" using nconv c1 by simp
      note IH = "1.IH"(2) [OF k refl refl nc1 eq]
      show ?thesis using IH nconv by simp
    qed
  qed
qed

lemma addVector_finish_maxQ:
  assumes "addVector_finish T s ps as pP ot = Inr (s', ps', as', pP', ot', n)"
  shows "m_maxQ s' = m_maxQ s"
  using assms unfolding addVector_finish_def Let_def
  by (auto simp: nullify_solution_def Let_def dest!: retire_converged_maxQ
        split: if_splits sum.splits prod.splits)

text \<open>
  C8. The part of \<open>addVector\<close> that follows \<open>solveReducedProblem\<close>, and so follows the
  conditioning of the subspace in \<open>buildSubspace\<close>, appends one vector to the Q space for
  every root that converges for the first time, and it never reads \<open>m_maxQ\<close>: the size of
  the Q space on exit is its size after the conditioning plus the number of roots of a
  linear solver whose error is below the threshold and which had no recorded solution.
  So the Q space on exit is larger than \<open>m_maxQ\<close> whenever the conditioning left \<open>m_maxQ\<close>
  vectors and one root newly converges, or when more than \<open>m_maxQ\<close> roots converge.
\<close>

theorem addVector_finish_Q_size:
  assumes "addVector_finish T s parameters action parametersP other
             = Inr (s', parameters', action', parametersP', other', n)"
  shows "m_maxQ s' = m_maxQ s
     \<and> Q_size (m_qspace s')
         = Q_size (m_qspace s)
           + card {r. r < m_roots s \<and> m_linear s \<and> m_errors s' ! r < m_thresh s
                      \<and> m_q_solutions s r = None}"
  using addVector_finish_spec [OF assms] addVector_finish_maxQ [OF assms]
  by (simp add: converged_def)

lemma interpolation_example_values:
  "m_roots interpolation_example = 1" "m_linear interpolation_example"
  "m_residual_eigen interpolation_example" "\<not> m_residual_rhs interpolation_example"
  "m_pspace interpolation_example = []" "m_current_r interpolation_example = [[1]]"
  "m_current_v interpolation_example = [[2]]"
  "rows (m_interpolation interpolation_example) = 1"
  "coeff (m_interpolation interpolation_example) 0 0 = 1"
  "coeff (m_subspaceEigenvalues interpolation_example) 0 0 = 2"
  "m_thresh interpolation_example = 1 / 10 ^ 8"
  "m_q_solutions interpolation_example = Map.empty" "m_qspace interpolation_example = Q_init"
  "\<not> m_nullify_solution_before_update interpolation_example"
  "m_errors interpolation_example = []" "m_maxQ interpolation_example = 16"
  by (simp_all add: interpolation_example_def LinearEigensystem_init_def IterativeSolver_init_def
        matrix_1x1_def)

theorem addVector_finish_Q_size_witness:
  "\<exists>s' pP ot.
      addVector_finish dense_ops interpolation_example [[1]] [[2]] [] []
        = Inr (s', [[0]], [[0]], pP, ot, 0)
      \<and> Q_size (m_qspace interpolation_example) = 0 \<and> Q_size (m_qspace s') = 1
      \<and> m_errors s' = [0] \<and> m_maxQ s' = 16"
proof -
  obtain s' p a pP ot n where
    r: "addVector_finish dense_ops interpolation_example [[1]] [[2]] [] []
          = Inr (s', p, a, pP, ot, n)"
    using addVector_finish_one_root [of interpolation_example] interpolation_example_values
    by (auto simp: map_sum_def split: sum.splits)
  have v: "m_errors s' = [0]" "p = [[0]]" "a = [[0]]" "n = 0"
    using addVector_finish_one_root [of interpolation_example] interpolation_example_values
    by (simp_all add: r)
  have c: "{r. r < m_roots interpolation_example \<and> m_linear interpolation_example
               \<and> m_errors s' ! r < m_thresh interpolation_example
               \<and> m_q_solutions interpolation_example r = None} = {0}"
    by (auto simp: interpolation_example_values v)
  have q: "Q_size (m_qspace interpolation_example) = 0"
    by (simp add: interpolation_example_values Q_size_def Q_init_def)
  show ?thesis
    using addVector_finish_Q_size [OF r] v r unfolding c q
    by (simp add: interpolation_example_values)
qed

subsection \<open>\<open>doInterpolation\<close> with the eigen-residual convention\<close>

lemma interpolate_root_eigen:
  assumes "m_residual_eigen s"
  shows "interpolate_root T s actionOnly root' st =
     (case combine T s actionOnly root' st of (x, r, xP) \<Rightarrow>
        if dot T x x = 0 then Inl (runtime_error ''new solution has zero norm'')
        else
          (let c = 1 / sqrt (dot T x x);
               r1 = scal T c r;
               r2 = (if actionOnly then r1
                     else axpy T (- Re (coeff (m_subspaceEigenvalues s) root' 0)) (scal T c x) r1)
           in Inr (scal T c x,
                   if \<not> actionOnly \<and> m_residual_rhs s then axpy T (- 1) (m_rhs s ! root') r2
                   else r2,
                   xP)))"
  using assms
  by (simp add: interpolate_root_def renormalise_def subtract_from_residual_def Let_def
        split: prod.splits)

lemma interpolate_root_Inl:
  "interpolate_root T s actionOnly root' st = Inl e \<Longrightarrow>
   e = runtime_error ''new solution has zero norm''"
  by (auto simp: interpolate_root_def renormalise_def subtract_from_residual_def Let_def
        split: prod.splits sum.splits if_splits)

lemma doInterpolation_loop_Inl:
  "doInterpolation_loop T s actionOnly ks st = Inl e \<Longrightarrow>
   e = runtime_error ''new solution has zero norm''"
proof (induction ks arbitrary: st)
  case Nil
  then show ?case by simp
next
  case (Cons kkk ks)
  obtain solution residual solutionP where st: "st = (solution, residual, solutionP)"
    by (cases st) auto
  show ?case
    using Cons.prems Cons.IH interpolate_root_Inl
    unfolding st by (auto simp: Let_def split: sum.splits prod.splits)
qed

text \<open>
  The loop, position by position: \<open>at_position\<close> is the body of the loop for the
  position \<open>k\<close> on the lists as they are on entry.
\<close>

lemma doInterpolation_loop_positions:
  fixes T :: "'v vector_ops" and s :: "('v, 'm) IterativeSolver_scheme"
  defines "at_position \<equiv> \<lambda>actionOnly (solution :: 'v list) (residual :: 'v list)
      (solutionP :: real list list) k.
      interpolate_root T s actionOnly (m_working_set s ! k)
        (solution ! k, residual ! k, if length (m_pspace s) > 0 then solutionP ! k else [])"
  assumes "distinct ks"
    and "\<forall>k\<in>set ks. k < length solution \<and> k < length residual"
  shows "(if \<exists>k\<in>set ks. isl (at_position actionOnly solution residual solutionP k)
          then isl (doInterpolation_loop T s actionOnly ks (solution, residual, solutionP))
          else \<exists>solution' residual' solutionP'.
                 doInterpolation_loop T s actionOnly ks (solution, residual, solutionP)
                   = Inr (solution', residual', solutionP')
                 \<and> (\<forall>k\<in>set ks. \<exists>xP. at_position actionOnly solution residual solutionP k
                                       = Inr (solution' ! k, residual' ! k, xP))
                 \<and> (\<forall>k. k \<notin> set ks \<longrightarrow>
                        solution' ! k = solution ! k \<and> residual' ! k = residual ! k))"
  using assms(2,3)
proof (induction ks arbitrary: solution residual solutionP)
  case Nil
  then show ?case by simp
next
  case (Cons kkk ks)
  let ?f = "at_position actionOnly solution residual solutionP"
  have kkk: "kkk < length solution" "kkk < length residual" "kkk \<notin> set ks" "distinct ks"
    using Cons.prems by auto
  show ?case
  proof (cases "?f kkk")
    case (Inl e)
    then show ?thesis
      by (auto simp: at_position_def Let_def)
  next
    case (Inr res)
    obtain x r xP where res: "res = (x, r, xP)" by (cases res) auto
    let ?sol = "solution[kkk := x]" and ?res = "residual[kkk := r]"
    let ?solP = "if length (m_pspace s) > 0 then solutionP[kkk := xP] else solutionP"
    have step: "doInterpolation_loop T s actionOnly (kkk # ks) (solution, residual, solutionP)
                  = doInterpolation_loop T s actionOnly ks (?sol, ?res, ?solP)"
      using Inr res by (simp add: at_position_def Let_def)
    have same: "at_position actionOnly ?sol ?res ?solP k = ?f k" if "k \<in> set ks" for k
    proof -
      have "k \<noteq> kkk" using that kkk by auto
      then show ?thesis by (simp add: at_position_def)
    qed
    have bounds: "\<forall>k\<in>set ks. k < length ?sol \<and> k < length ?res"
      using Cons.prems by simp
    note IH = Cons.IH [OF kkk(4) bounds, of ?solP]
    show ?thesis
    proof (cases "\<exists>k\<in>set ks. isl (?f k)")
      case True
      then have "\<exists>k\<in>set ks. isl (at_position actionOnly ?sol ?res ?solP k)"
        using same by auto
      then have "isl (doInterpolation_loop T s actionOnly ks (?sol, ?res, ?solP))"
        using IH by (simp del: list_update_overwrite)
      then show ?thesis using True step by simp
    next
      case False
      then have no: "\<not> (\<exists>k\<in>set ks. isl (at_position actionOnly ?sol ?res ?solP k))"
        using same by auto
      obtain solution' residual' solutionP' where
        run: "doInterpolation_loop T s actionOnly ks (?sol, ?res, ?solP)
                = Inr (solution', residual', solutionP')"
        and each: "\<forall>k\<in>set ks. \<exists>xP. at_position actionOnly ?sol ?res ?solP k
                                    = Inr (solution' ! k, residual' ! k, xP)"
        and rest: "\<forall>k. k \<notin> set ks \<longrightarrow> solution' ! k = ?sol ! k \<and> residual' ! k = ?res ! k"
        using IH no by (auto simp del: list_update_overwrite)
      have here: "?f kkk = Inr (solution' ! kkk, residual' ! kkk, xP)"
        using rest kkk Inr res by simp
      have each': "\<forall>k\<in>set (kkk # ks). \<exists>xP. ?f k = Inr (solution' ! k, residual' ! k, xP)"
        using each same here by auto
      have rest': "\<forall>k. k \<notin> set (kkk # ks) \<longrightarrow>
                     solution' ! k = solution ! k \<and> residual' ! k = residual ! k"
        using rest by auto
      have "\<not> (\<exists>k\<in>set (kkk # ks). isl (?f k))"
        using False Inr by auto
      then show ?thesis
        using step run each' rest' by (simp del: set_simps)
    qed
  qed
qed


lemma doInterpolation_run:
  assumes "m_residual_eigen s"
    and "length (m_pspace s) + length (m_current_r s) \<le> rows (m_interpolation s)"
    and "interpolation_nQ s \<le> Q_size (m_qspace s)"
    and "length (m_working_set s) \<le> length solution"
    and "length (m_working_set s) \<le> length residual"
    and "m_pspace s = [] \<or> length solutionP = length residual"
  shows "doInterpolation T s solution residual solutionP other actionOnly =
               (case doInterpolation_loop T s actionOnly [0..<length (m_working_set s)] (map (scal T 0) solution, map (scal T 0) residual, solutionP) of Inl e \<Rightarrow> Inl e
                | Inr (solution1, residual1, solutionP1) \<Rightarrow>
                    Inr (solution1, residual1, solutionP1, map (scal T 0) other))"
    using assms(2-6) by (auto simp: doInterpolation_def Let_def)

lemma at_position_assembled:
  assumes "m_residual_eigen s"
    and "length (m_working_set s) \<le> length solution"
    and "length (m_working_set s) \<le> length residual" "k < length (m_working_set s)"
  shows  "interpolate_root T s actionOnly (m_working_set s ! k)
        (map (scal T 0) solution ! k, map (scal T 0) residual ! k, if length (m_pspace s) > 0 then solutionP ! k else []) = (case assembled T s actionOnly solution residual solutionP k of (x, r, xP) \<Rightarrow>
        if dot T x x = 0 then Inl (runtime_error ''new solution has zero norm'')
        else
          (let c = 1 / sqrt (dot T x x);
               r1 = scal T c r;
               r2 = (if actionOnly then r1
                     else axpy T (- Re (coeff (m_subspaceEigenvalues s) (m_working_set s ! k) 0))
                            (scal T c x) r1)
           in Inr (scal T c x,
                   if \<not> actionOnly \<and> m_residual_rhs s
                   then axpy T (- 1) (m_rhs s ! (m_working_set s ! k)) r2 else r2,
                   xP)))" 
    using assms
    by (simp add: interpolate_root_eigen [OF assms(1)] assembled_def)

lemma doInterpolation_positions:
  fixes T :: "'v vector_ops" and s :: "('v, 'm) IterativeSolver_scheme"
    and actionOnly :: bool and solution residual :: "'v list" and solutionP :: "real list list"
  assumes "m_residual_eigen s"
    and "length (m_pspace s) + length (m_current_r s) \<le> rows (m_interpolation s)"
    and "interpolation_nQ s \<le> Q_size (m_qspace s)"
    and "length (m_working_set s) \<le> length solution"
    and "length (m_working_set s) \<le> length residual"
    and "m_pspace s = [] \<or> length solutionP = length residual"
  defines "outcome \<equiv> \<lambda>k. (case assembled T s actionOnly solution residual solutionP k of
      (x, r, xP) \<Rightarrow>
        if dot T x x = 0 then Inl (runtime_error ''new solution has zero norm'')
        else
          (let c = 1 / sqrt (dot T x x);
               r1 = scal T c r;
               r2 = (if actionOnly then r1
                     else axpy T (- Re (coeff (m_subspaceEigenvalues s) (m_working_set s ! k) 0))
                            (scal T c x) r1)
           in Inr (scal T c x,
                   if \<not> actionOnly \<and> m_residual_rhs s
                   then axpy T (- 1) (m_rhs s ! (m_working_set s ! k)) r2 else r2,
                   xP)))"
  shows "if \<exists>k<length (m_working_set s). isl (outcome k)
         then doInterpolation T s solution residual solutionP other actionOnly
                = Inl (runtime_error ''new solution has zero norm'')
         else \<exists>solution' residual' solutionP' other'.
                doInterpolation T s solution residual solutionP other actionOnly
                  = Inr (solution', residual', solutionP', other')
                \<and> (\<forall>k<length (m_working_set s). \<exists>xP.
                       outcome k = Inr (solution' ! k, residual' ! k, xP))"
proof -
  let ?n = "length (m_working_set s)"
  let ?sol = "map (scal T 0) solution" and ?res = "map (scal T 0) residual"
  define f where "f = (\<lambda>k. interpolate_root T s actionOnly (m_working_set s ! k)
        (?sol ! k, ?res ! k, if length (m_pspace s) > 0 then solutionP ! k else []))"
  let ?loop = "doInterpolation_loop T s actionOnly [0..<?n] (?sol, ?res, solutionP)"
  have bounds: "\<forall>k\<in>set [0..<?n]. k < length ?sol \<and> k < length ?res"
    using assms(4,5) by simp
  have loop: "if \<exists>k\<in>set [0..<?n]. isl (f k) then isl ?loop
          else \<exists>solution' residual' solutionP'.
                 ?loop = Inr (solution', residual', solutionP')
                 \<and> (\<forall>k\<in>set [0..<?n]. \<exists>xP. f k = Inr (solution' ! k, residual' ! k, xP))
                 \<and> (\<forall>k. k \<notin> set [0..<?n] \<longrightarrow>
                        solution' ! k = ?sol ! k \<and> residual' ! k = ?res ! k)"
    unfolding f_def by (rule doInterpolation_loop_positions [OF distinct_upt bounds])
  have f: "f k = outcome k" if "k < ?n" for k
    unfolding f_def outcome_def by (rule at_position_assembled [OF assms(1,4,5) that])
  have run: "doInterpolation T s solution residual solutionP other actionOnly =
               (case ?loop of Inl e \<Rightarrow> Inl e
                | Inr (solution1, residual1, solutionP1) \<Rightarrow>
                    Inr (solution1, residual1, solutionP1, map (scal T 0) other))"
    by (rule doInterpolation_run [OF assms(1-6)])
  show ?thesis
  proof (cases "\<exists>k<?n. isl (outcome k)")
    case True
    then have "\<exists>k\<in>set [0..<?n]. isl (f k)" using f by auto
    then have "isl ?loop" using loop by (simp only: if_True)
    then obtain e where e: "?loop = Inl e" by (cases ?loop) auto
    have "e = runtime_error ''new solution has zero norm''"
      using doInterpolation_loop_Inl [OF e] .
    then show ?thesis
      unfolding run e using True by simp
  next
    case False
    then have "\<not> (\<exists>k\<in>set [0..<?n]. isl (f k))" using f by auto
    then obtain solution' residual' solutionP' where
      l: "?loop = Inr (solution', residual', solutionP')"
      and each: "\<forall>k\<in>set [0..<?n]. \<exists>xP. f k = Inr (solution' ! k, residual' ! k, xP)"
      using loop by (simp only: if_False) blast
    have "\<forall>k<?n. \<exists>xP. outcome k = Inr (solution' ! k, residual' ! k, xP)"
      using each f by auto
    then show ?thesis
      unfolding run l using False by simp
  qed
qed


text \<open>
  C6, as the claim states it, fails when \<open>doInterpolation\<close> is called with \<open>actionOnly\<close>, as
  \<open>addVector\<close> does in its second call. For the solver with the eigenvalue \<open>2\<close>, the
  residual that comes back is the action \<open>(2)\<close> of the normalised solution \<open>(1)\<close>; \<open>2\<close> times
  the solution has not been subtracted, which would give \<open>(0)\<close>.
\<close>

theorem doInterpolation_eigen_counterexample:
  "m_residual_eigen interpolation_example
   \<and> m_working_set interpolation_example = [0]
   \<and> Re (coeff (m_subspaceEigenvalues interpolation_example) 0 0) = 2
   \<and> doInterpolation dense_ops interpolation_example [[0]] [[0]] [] [] True
       = Inr ([[1]], [[2]], [], [])
   \<and> axpy dense_ops (- 2) [1] [2] = [0]"
  by (simp add: doInterpolation_def interpolate_root_def combine_def renormalise_def
        subtract_from_residual_def add_P_contribution_def add_Q_contribution_def
        add_R_contribution_def interpolation_nQ_def Q_size_def Q_init_def dense_ops_def
        interpolation_example_def LinearEigensystem_init_def IterativeSolver_init_def
        matrix_1x1_def Let_def)



text \<open>
  C6, amended. Let the solver use the eigen-residual convention, and let the assertions
  of \<open>doInterpolation\<close> hold, with a residual for every position of the working set. If
  for some position the assembled solution \<open>x\<close> has \<open>\<langle>x,x\<rangle> = 0\<close>, the call fails with the
  error ``new solution has zero norm''. Otherwise it returns, and for every position of
  the working set the solution is \<open>x\<close> scaled by \<open>1/sqrt \<langle>x,x\<rangle>\<close>, and the residual is the
  assembled residual scaled by the same factor, from which the real part of the
  eigenvalue of the root times the scaled solution is then subtracted unless \<open>actionOnly\<close>
  is set (and then the right-hand side, unless \<open>actionOnly\<close>, if the solver also uses the
  right-hand-side convention).
\<close>

theorem doInterpolation_eigen:
  assumes "m_residual_eigen s"
    and "length (m_pspace s) + length (m_current_r s) \<le> rows (m_interpolation s)"
    and "interpolation_nQ s \<le> Q_size (m_qspace s)"
    and "length (m_working_set s) \<le> length solution"
    and "length (m_working_set s) \<le> length residual"
    and "m_pspace s = [] \<or> length solutionP = length residual"
  shows "if \<exists>kkk<length (m_working_set s).
              (case assembled T s actionOnly solution residual solutionP kkk of
                 (x, r, xP) \<Rightarrow> dot T x x = 0)
         then doInterpolation T s solution residual solutionP other actionOnly
                = Inl (runtime_error ''new solution has zero norm'')
         else \<exists>solution' residual' solutionP' other'.
                doInterpolation T s solution residual solutionP other actionOnly
                  = Inr (solution', residual', solutionP', other')
                \<and> (\<forall>kkk<length (m_working_set s).
                     (case assembled T s actionOnly solution residual solutionP kkk of
                        (x, r, xP) \<Rightarrow>
                          (let c = 1 / sqrt (dot T x x);
                               root' = m_working_set s ! kkk;
                               r1 = scal T c r;
                               r2 = (if actionOnly then r1
                                     else axpy T (- Re (coeff (m_subspaceEigenvalues s) root' 0))
                                            (scal T c x) r1)
                           in solution' ! kkk = scal T c x
                              \<and> residual' ! kkk
                                  = (if \<not> actionOnly \<and> m_residual_rhs s
                                     then axpy T (- 1) (m_rhs s ! root') r2 else r2))))"
proof -
  let ?n = "length (m_working_set s)"
  let ?asm = "assembled T s actionOnly solution residual solutionP"
  define outcome where "outcome = (\<lambda>k. (case ?asm k of
      (x, r, xP) \<Rightarrow>
        if dot T x x = 0 then Inl (runtime_error ''new solution has zero norm'')
        else
          (let c = 1 / sqrt (dot T x x);
               r1 = scal T c r;
               r2 = (if actionOnly then r1
                     else axpy T (- Re (coeff (m_subspaceEigenvalues s) (m_working_set s ! k) 0))
                            (scal T c x) r1)
           in Inr (scal T c x,
                   if \<not> actionOnly \<and> m_residual_rhs s
                   then axpy T (- 1) (m_rhs s ! (m_working_set s ! k)) r2 else r2,
                   xP) :: error + 'a \<times> 'a \<times> real list)))"
  let ?zero = "\<lambda>k. (case ?asm k of (x, r, xP) \<Rightarrow> dot T x x = 0)"
  have positions: "if \<exists>k<?n. isl (outcome k)
         then doInterpolation T s solution residual solutionP other actionOnly
                = Inl (runtime_error ''new solution has zero norm'')
         else \<exists>solution' residual' solutionP' other'.
                doInterpolation T s solution residual solutionP other actionOnly
                  = Inr (solution', residual', solutionP', other')
                \<and> (\<forall>k<?n. \<exists>xP. outcome k = Inr (solution' ! k, residual' ! k, xP))"
    unfolding outcome_def by (rule doInterpolation_positions [OF assms])
  have zero: "isl (outcome k) = ?zero k" for k
    by (cases "?asm k") (simp add: outcome_def Let_def)
  show ?thesis
  proof (cases "\<exists>k<?n. ?zero k")
    case True
    then have "\<exists>k<?n. isl (outcome k)" by (simp add: zero)
    then have "doInterpolation T s solution residual solutionP other actionOnly
                = Inl (runtime_error ''new solution has zero norm'')"
      using positions by (simp only: if_True)
    then show ?thesis using True by (simp only: if_True)
  next
    case False
    then have "\<not> (\<exists>k<?n. isl (outcome k))" by (simp add: zero)
    then obtain solution' residual' solutionP' other' where
      run: "doInterpolation T s solution residual solutionP other actionOnly
              = Inr (solution', residual', solutionP', other')"
      and each: "\<forall>k<?n. \<exists>xP. outcome k = Inr (solution' ! k, residual' ! k, xP)"
      using positions by (simp only: if_False) blast
    have "(case ?asm kkk of
               (x, r, xP) \<Rightarrow>
                 (let c = 1 / sqrt (dot T x x);
                      root' = m_working_set s ! kkk;
                      r1 = scal T c r;
                      r2 = (if actionOnly then r1
                            else axpy T (- Re (coeff (m_subspaceEigenvalues s) root' 0))
                                   (scal T c x) r1)
                  in solution' ! kkk = scal T c x
                     \<and> residual' ! kkk
                         = (if \<not> actionOnly \<and> m_residual_rhs s
                            then axpy T (- 1) (m_rhs s ! root') r2 else r2)))"
      if k: "kkk < ?n" for kkk
    proof -
      obtain x r xP where a: "?asm kkk = (x, r, xP)"
        by (cases "?asm kkk") auto
      have nz: "dot T x x \<noteq> 0"
        using False k a by auto
      obtain xP' where o: "outcome kkk = Inr (solution' ! kkk, residual' ! kkk, xP')"
        using each k by blast
      show ?thesis
        using o nz unfolding outcome_def a Let_def by (simp split del: if_split)
    qed
    then have "\<forall>kkk<?n. (case ?asm kkk of
               (x, r, xP) \<Rightarrow>
                 (let c = 1 / sqrt (dot T x x);
                      root' = m_working_set s ! kkk;
                      r1 = scal T c r;
                      r2 = (if actionOnly then r1
                            else axpy T (- Re (coeff (m_subspaceEigenvalues s) root' 0))
                                   (scal T c x) r1)
                  in solution' ! kkk = scal T c x
                     \<and> residual' ! kkk
                         = (if \<not> actionOnly \<and> m_residual_rhs s
                            then axpy T (- 1) (m_rhs s ! root') r2 else r2)))"
      by blast
    then have "\<exists>solution' residual' solutionP' other'.
                doInterpolation T s solution residual solutionP other actionOnly
                  = Inr (solution', residual', solutionP', other')
                \<and> (\<forall>kkk<?n. (case ?asm kkk of
               (x, r, xP) \<Rightarrow>
                 (let c = 1 / sqrt (dot T x x);
                      root' = m_working_set s ! kkk;
                      r1 = scal T c r;
                      r2 = (if actionOnly then r1
                            else axpy T (- Re (coeff (m_subspaceEigenvalues s) root' 0))
                                   (scal T c x) r1)
                  in solution' ! kkk = scal T c x
                     \<and> residual' ! kkk
                         = (if \<not> actionOnly \<and> m_residual_rhs s
                            then axpy T (- 1) (m_rhs s ! root') r2 else r2))))"
      using run by blast
    then show ?thesis using False by (simp only: if_False)
  qed
qed

theorem doInterpolation_eigen_witness:
  "\<exists>solution' residual' solutionP' other'.
      doInterpolation dense_ops interpolation_example [[0]] [[0]] [] [] False
        = Inr (solution', residual', solutionP', other')
      \<and> solution' ! 0 = [1] \<and> residual' ! 0 = [0]"
proof -
  have a: "m_residual_eigen interpolation_example"
    "length (m_pspace interpolation_example) + length (m_current_r interpolation_example)
       \<le> rows (m_interpolation interpolation_example)"
    "interpolation_nQ interpolation_example \<le> Q_size (m_qspace interpolation_example)"
    "length (m_working_set interpolation_example) \<le> length [[0::real]]"
    "m_pspace interpolation_example = [] \<or> length ([] :: real list list) = length [[0::real]]"
    by (simp_all add: interpolation_example_def LinearEigensystem_init_def
          IterativeSolver_init_def matrix_1x1_def interpolation_nQ_def)
  have b: "assembled dense_ops interpolation_example False [[0]] [[0]] [] 0 = ([1], [2], [])"
    by (simp add: assembled_def combine_def add_P_contribution_def add_Q_contribution_def
        add_R_contribution_def interpolation_nQ_def dense_ops_def
        interpolation_example_def LinearEigensystem_init_def IterativeSolver_init_def
        matrix_1x1_def Let_def)
  have c: "m_working_set interpolation_example = [0]"
    "\<not> m_residual_rhs interpolation_example"
    "coeff (m_subspaceEigenvalues interpolation_example) 0 0 = 2"
    by (simp_all add: interpolation_example_def LinearEigensystem_init_def
          IterativeSolver_init_def matrix_1x1_def)
  have d: "dot dense_ops [1] [1] = 1" "scal dense_ops 1 [1] = [1]" "scal dense_ops 1 [2] = [2]"
    "axpy dense_ops (- 2) [1] [2] = [0]"
    by (simp_all add: dense_ops_def)
  show ?thesis
    using doInterpolation_eigen [OF a(1,2,3,4,4,5), of dense_ops False "[]"]
    by (simp add: b c d)
qed

subsection \<open>The reduced eigenproblem: the errors\<close>


lemma solve_Hbar_Inl_iff:
  "(solve_Hbar E intel s = Inl e) =
     (intel
      \<and> \<not> eigenvectors_negligibly_complex (fst (EigenSolver E (Hbar E s)))
            (snd (EigenSolver E (Hbar E s)))
      \<and> e = runtime_error
               ''Intel compiler does not support working with complex eigen3 entities properly'')"
  by (auto simp: solve_Hbar_def Let_def split: prod.splits)

lemma diagonalizeSubspaceMatrix_Inl_iff:
  "(diagonalizeSubspaceMatrix E intel s = Inl e) = (solve_Hbar E intel s = Inl e)"
  by (auto simp: diagonalizeSubspaceMatrix_def Let_def split: sum.splits prod.splits)

lemma LinearEigensystem_runtime_error_iff:
  "(LinearEigensystem_solveReducedProblem E intel s = Inl (runtime_error msg))
   = (\<not> m_rspt s \<and> diagonalizeSubspaceMatrix E intel s = Inl (runtime_error msg))"
  by (auto simp: LinearEigensystem_solveReducedProblem_def Let_def split: sum.splits)

lemma eigen_1x1_negligible:
  "eigenvectors_negligibly_complex (fst (EigenSolver eigen_1x1 M)) (snd (EigenSolver eigen_1x1 M))"
  by (simp add: eigenvectors_negligibly_complex_def eigen_1x1_def matrix_1x1_def matrix_norm_def
        map_matrix_def)


subsection \<open>The reduced eigenproblem: the order of the eigensolutions\<close>

lemma first_unused_props:
  "first_unused m ll \<notin> set m \<and> ll \<le> first_unused m ll
   \<and> (\<forall>j. ll \<le> j \<and> j < first_unused m ll \<longrightarrow> j \<in> set m)"
proof (induction m ll rule: first_unused.induct)
  case (1 m ll)
  show ?case
  proof (cases "ll \<in> set m")
    case True
    have eq: "first_unused m ll = first_unused m (Suc ll)"
      using True by (subst first_unused.simps) simp
    have IH: "first_unused m (Suc ll) \<notin> set m \<and> Suc ll \<le> first_unused m (Suc ll)
        \<and> (\<forall>j. Suc ll \<le> j \<and> j < first_unused m (Suc ll) \<longrightarrow> j \<in> set m)"
      using "1.IH" [OF True] .
    show ?thesis
      unfolding eq using IH True
      by (metis Suc_leD Suc_leI le_neq_implies_less)
  next
    case False
    then have "first_unused m ll = ll" by (rule first_unused_notin)
    then show ?thesis using False by auto
  qed
qed

lemma first_unused_less:
  assumes "distinct m" and "set m \<subseteq> {0..<n}" and "length m < n"
  shows "first_unused m 0 < n"
proof (rule ccontr)
  assume "\<not> first_unused m 0 < n"
  then have "{0..<n} \<subseteq> set m"
    using first_unused_props [of m 0] by auto
  then have "card {0..<n} \<le> card (set m)"
    by (intro card_mono) simp_all
  then show False
    using assms(1,3) by (simp add: distinct_card)
qed

lemma foldl_lowest:
  fixes f :: "nat \<Rightarrow> real"
  defines "g \<equiv> \<lambda>m ll l. if l \<notin> set m \<and> f l < f ll then l else ll"
  shows "(foldl (g m) a xs = a \<or> (foldl (g m) a xs \<in> set xs \<and> foldl (g m) a xs \<notin> set m))
     \<and> f (foldl (g m) a xs) \<le> f a
     \<and> (\<forall>l\<in>set xs. l \<notin> set m \<longrightarrow> f (foldl (g m) a xs) \<le> f l)"
proof (induction xs arbitrary: a)
  case Nil
  then show ?case by simp
next
  case (Cons x xs)
  let ?a = "g m a x"
  have a: "(?a = a \<or> (?a = x \<and> x \<notin> set m)) \<and> f ?a \<le> f a \<and> (x \<notin> set m \<longrightarrow> f ?a \<le> f x)"
    by (auto simp: g_def)
  note IH = Cons.IH [of ?a]
  have step: "foldl (g m) a (x # xs) = foldl (g m) ?a xs" by simp
  show ?case
    unfolding step using IH a by (auto intro: order_trans)
qed

lemma select_lowest_props:
  assumes "distinct m" and "set m \<subseteq> {0..<n}" and "length m < n"
  shows "select_lowest eigval n m < n \<and> select_lowest eigval n m \<notin> set m
     \<and> (\<forall>l<n. l \<notin> set m \<longrightarrow>
           Re (coeff eigval (select_lowest eigval n m) 0) \<le> Re (coeff eigval l 0))"
proof -
  let ?a = "first_unused m 0"
  have a: "?a < n" "?a \<notin> set m"
    using first_unused_less [OF assms] first_unused_props [of m 0] by simp_all
  note fl = foldl_lowest [where f = "\<lambda>l. Re (coeff eigval l 0)" and m = m and a = ?a
      and xs = "[0..<n]"]
  show ?thesis
    unfolding select_lowest_def using fl a by auto
qed

lemma sort_step_invariant:
  assumes "k \<le> n"
    and "foldl (sort_step eigval eigvec n) ([], eigval, eigvec) [0..<k] = (m, values, vectors)"
  shows "length m = k \<and> distinct m \<and> set m \<subseteq> {0..<n}
     \<and> (\<forall>j<k. coeff values j 0 = coeff eigval (m ! j) 0)
     \<and> (\<forall>j<k. \<forall>i. coeff vectors i j = coeff eigvec i (m ! j))
     \<and> (\<forall>j<k. \<forall>l<n. l \<notin> set (take j m) \<longrightarrow>
           Re (coeff eigval (m ! j) 0) \<le> Re (coeff eigval l 0))
     \<and> rows vectors = rows eigvec \<and> cols vectors = cols eigvec"
  using assms
proof (induction k arbitrary: m "values" vectors)
  case 0
  then show ?case by simp
next
  case (Suc k)
  obtain m0 v0 w0 where
    prev: "foldl (sort_step eigval eigvec n) ([], eigval, eigvec) [0..<k] = (m0, v0, w0)"
    by (cases "foldl (sort_step eigval eigvec n) ([], eigval, eigvec) [0..<k]") auto
  have k: "k \<le> n" "k < n" using Suc.prems(1) by simp_all
  note IH = Suc.IH [OF k(1) prev]
  let ?ll = "select_lowest eigval n m0"
  have m0: "distinct m0" "set m0 \<subseteq> {0..<n}" "length m0 < n" "length m0 = k"
    using IH k by simp_all
  note sel = select_lowest_props [OF m0(1,2,3), of eigval]
  have res: "m = m0 @ [?ll]" "values = set_coeff k 0 (coeff eigval ?ll 0) v0"
    "vectors = set_col k eigvec ?ll w0"
  proof -
    have "foldl (sort_step eigval eigvec n) ([], eigval, eigvec) [0..<Suc k]
            = sort_step eigval eigvec n (m0, v0, w0) k"
      by (simp add: prev)
    then have "sort_step eigval eigvec n (m0, v0, w0) k = (m, values, vectors)"
      using Suc.prems(2) by simp
    then show "m = m0 @ [?ll]" "values = set_coeff k 0 (coeff eigval ?ll 0) v0"
      "vectors = set_col k eigvec ?ll w0"
      by (simp_all add: sort_step_def Let_def)
  qed
  have nth: "m ! j = (if j < k then m0 ! j else ?ll)" if "j < Suc k" for j
    using that m0(4) by (auto simp: res(1) nth_append)
  have tk: "take j m = (if j < k then take j m0 else m0)" if "j < Suc k" for j
    using that m0(4) by (auto simp: res(1))
  have len: "length m = Suc k" "distinct m" "set m \<subseteq> {0..<n}"
    using m0 sel by (auto simp: res(1))
  have vals: "coeff values j 0 = coeff eigval (m ! j) 0" if "j < Suc k" for j
    using that IH by (auto simp: nth [OF that] res(2) set_coeff_def)
  have vecs: "coeff vectors i j = coeff eigvec i (m ! j)" if "j < Suc k" for i j
    using that IH by (auto simp: nth [OF that] res(3) set_col_def)
  have low: "Re (coeff eigval (m ! j) 0) \<le> Re (coeff eigval l 0)"
    if "j < Suc k" "l < n" "l \<notin> set (take j m)" for j l
  proof (cases "j < k")
    case True
    then show ?thesis using that IH by (simp add: nth [OF that(1)] tk [OF that(1)])
  next
    case False
    then show ?thesis using that sel by (simp add: nth [OF that(1)] tk [OF that(1)])
  qed
  have dims: "rows vectors = rows eigvec" "cols vectors = cols eigvec"
    using IH by (simp_all add: res(3) set_col_def)
  show ?case using len vals vecs low dims by blast
qed

text \<open>
  The result of the sort: \<open>map\<close> is a permutation of the indices, the eigenvalues and the
  columns of the eigenvectors are rearranged by it, and the real parts of the eigenvalues
  ascend.
\<close>

lemma sort_eigensolutions_spec:
  assumes "sort_eigensolutions n eigval eigvec = (m, values, vectors)"
  shows "length m = n \<and> distinct m \<and> set m = {0..<n}
     \<and> (\<forall>k<n. coeff values k 0 = coeff eigval (m ! k) 0)
     \<and> (\<forall>k<n. \<forall>i. coeff vectors i k = coeff eigvec i (m ! k))
     \<and> (\<forall>j k. j \<le> k \<and> k < n \<longrightarrow> Re (coeff values j 0) \<le> Re (coeff values k 0))
     \<and> rows vectors = rows eigvec \<and> cols vectors = cols eigvec"
proof -
  note inv = sort_step_invariant [OF le_refl assms [unfolded sort_eigensolutions_def]]
  have m: "length m = n" "distinct m" "set m \<subseteq> {0..<n}" using inv by simp_all
  have "card (set m) = card {0..<n}" using m by (simp add: distinct_card)
  then have set: "set m = {0..<n}"
    using m(3) by (intro card_subset_eq) simp_all
  have asc: "Re (coeff values j 0) \<le> Re (coeff values k 0)" if "j \<le> k" "k < n" for j k
  proof -
    have j: "j < n" using that by simp
    have "m ! k \<notin> set (take j m)"
    proof
      assume "m ! k \<in> set (take j m)"
      then obtain i where i: "i < j" "i < length m" "m ! i = m ! k"
        by (auto simp: in_set_conv_nth)
      then have "i = k" using m(1,2) that by (simp add: nth_eq_iff_index_eq)
      then show False using i(1) that(1) by simp
    qed
    moreover have "m ! k < n" using m(1) set that(2) by (metis atLeastLessThan_iff nth_mem)
    ultimately have "Re (coeff eigval (m ! j) 0) \<le> Re (coeff eigval (m ! k) 0)"
      using inv j by blast
    then show ?thesis using inv j that(2) by simp
  qed
  show ?thesis using m(1,2) set inv asc by blast
qed

lemma project_out_dims:
  "rows (foldl (project_out ovlTimesVec k) V ls) = rows V
   \<and> cols (foldl (project_out ovlTimesVec k) V ls) = cols V"
  by (induction ls arbitrary: V) (simp_all add: project_out_def Let_def)

lemma normalise_step_dims:
  "rows (fst (normalise_step s st k)) = rows (fst st)
   \<and> cols (fst (normalise_step s st k)) = cols (fst st)"
  by (cases st)
    (simp add: normalise_step_def Let_def project_out_dims null_space_vector_def
       divide_column_def)

lemma normalise_pass_dims:
  "rows (fst (foldl (normalise_step s) st ks)) = rows (fst st)
   \<and> cols (fst (foldl (normalise_step s) st ks)) = cols (fst st)"
  by (induction ks arbitrary: st) (simp_all add: normalise_step_dims)

lemma normalise_eigenvectors_dims:
  "rows (normalise_eigenvectors s) = rows (m_subspaceEigenvectors s)
   \<and> cols (normalise_eigenvectors s) = cols (m_subspaceEigenvectors s)"
proof -
  have "rows (fst (foldl (\<lambda>st repeat. foldl (normalise_step s) st ks) st rs)) = rows (fst st)
      \<and> cols (fst (foldl (\<lambda>st repeat. foldl (normalise_step s) st ks) st rs)) = cols (fst st)"
    for ks st and rs :: "nat list"
    by (induction rs arbitrary: st) (simp_all add: normalise_pass_dims)
  then show ?thesis by (simp add: normalise_eigenvectors_def Let_def)
qed







subsection \<open>The reduced eigenproblem: the normalisation\<close>


lemma cd_sum_Some:
  "cd_sum (map Some zs) = Some (sum_list zs)"
proof -
  have "foldl (\<lambda>a z. case a of None \<Rightarrow> None | Some x \<Rightarrow> map_option (\<lambda>y. x + y) z) (Some a)
          (map Some zs) = Some (a + sum_list zs)" for a
    by (induction zs arbitrary: a) (simp_all add: add.assoc)
  then show ?thesis by (simp add: cd_sum_def)
qed

lemma cd_sum_None:
  "None \<in> set zs \<Longrightarrow> cd_sum zs = None"
proof -
  have n: "foldl (\<lambda>a z. case a of None \<Rightarrow> None | Some x \<Rightarrow> map_option (\<lambda>y. x + y) z) None zs
            = None" for zs :: "complex option list"
    by (induction zs) simp_all
  have "None \<in> set zs \<Longrightarrow>
        foldl (\<lambda>a z. case a of None \<Rightarrow> None | Some x \<Rightarrow> map_option (\<lambda>y. x + y) z) a zs = None"
    for a
  proof (induction zs arbitrary: a)
    case Nil
    then show ?case by simp
  next
    case (Cons z zs)
    show ?case
    proof (cases "z = None \<or> a = None")
      case True
      then show ?thesis using n by (auto split: option.splits)
    next
      case False
      then show ?thesis using Cons by (auto split: option.splits)
    qed
  qed
  then show "None \<in> set zs \<Longrightarrow> cd_sum zs = None" by (simp add: cd_sum_def)
qed

text \<open>The overlap of a column depends on this column only.\<close>

lemma overlap_norm_cong:
  assumes "rows V = rows W" and "\<forall>i. coeff V i k = coeff W i k"
  shows "overlap_norm S V k = overlap_norm S W k"
  using assms by (simp add: overlap_norm_def)

lemma overlap_norm_None:
  assumes "0 < rows V" and "coeff V 0 k = None"
  shows "overlap_norm S V k = None"
proof -
  have "cd_times (coeff V 0 k) x = None" for x
    using assms(2) by (simp add: cd_times_def)
  then have "None \<in> set (map (\<lambda>i. cd_times (coeff V i k)
                        (cd_sum (map (\<lambda>j. cd_times (Some (complex_of_real (coeff S i j)))
                                             (coeff V j k))
                                   [0..<cols S])))
               [0..<rows V])"
    using assms(1) by (auto simp: image_iff intro!: bexI [of _ 0])
  then show ?thesis
    unfolding overlap_norm_def by (rule cd_sum_None)
qed

lemma overlap_norm_unit_2:
  assumes "rows V = 2" and "coeff V 0 k = Some a" and "coeff V 1 k = Some b"
  shows "overlap_norm (unit_matrix 2) V k = Some (a * a + b * b)"
  using assms
  by (simp add: overlap_norm_def unit_matrix_def cd_sum_def cd_times_def upt_rec)

text \<open>
  One step of the normalisation without the projection: the other columns stay, and
  the column \<open>k\<close> either stays as it is, when it is normalised already and has the right
  sign, or is not a number any more, when its overlap is not a positive number.
\<close>

lemma normalise_step_other:
  assumes "\<not> m_hermitian s" and "j \<noteq> k"
  shows "coeff (fst (normalise_step s (V, ovlTimesVec) k)) i j = coeff V i j"
  using assms
  by (simp add: normalise_step_def null_space_vector_def divide_column_def Let_def)


lemma normalise_step_not_a_number:
  assumes "\<not> m_hermitian s" and "\<not> cmod (coeff (m_subspaceEigenvalues s) k 0) < 1 / 10 ^ 12"
    and "overlap_norm (m_subspaceOverlap s) V k = None
         \<or> (\<exists>z. overlap_norm (m_subspaceOverlap s) V k = Some z \<and> \<not> Re z > 0)"
  shows "coeff (fst (normalise_step s (V, ovlTimesVec) k)) i k = None"
  using assms
  by (auto simp: normalise_step_def null_space_vector_def divide_column_def Let_def)



lemma normalise_step_no_norm:
  assumes "\<not> m_hermitian s" and "\<not> cmod (coeff (m_subspaceEigenvalues s) k 0) < 1 / 10 ^ 12"
    and "no_norm (m_subspaceOverlap s) V k" and "0 < rows V"
    and "normalise_step s (V, ovlTimesVec) k = (V', o')"
  shows "rows V' = rows V \<and> cols V' = cols V
     \<and> (\<forall>i. coeff V' i k = None)
     \<and> (\<forall>j. j \<noteq> k \<longrightarrow> (\<forall>i. coeff V' i j = coeff V i j))
     \<and> (\<forall>j. no_norm (m_subspaceOverlap s) V j \<longrightarrow> no_norm (m_subspaceOverlap s) V' j)"
proof -
  have V': "V' = fst (normalise_step s (V, ovlTimesVec) k)" using assms(5) by simp
  have dims: "rows V' = rows V" "cols V' = cols V"
    using normalise_step_dims [of s "(V, ovlTimesVec)" k] by (simp_all add: V')
  have bad: "overlap_norm (m_subspaceOverlap s) V k = None
         \<or> (\<exists>z. overlap_norm (m_subspaceOverlap s) V k = Some z \<and> \<not> Re z > 0)"
    using assms(3) by (auto simp: no_norm_def split: option.splits)
  have col: "coeff V' i k = None" for i
    unfolding V' by (rule normalise_step_not_a_number [OF assms(1,2) bad])
  have other: "coeff V' i j = coeff V i j" if "j \<noteq> k" for i j
    unfolding V' by (rule normalise_step_other [OF assms(1) that])
  have keep: "no_norm (m_subspaceOverlap s) V' j" if "no_norm (m_subspaceOverlap s) V j" for j
  proof (cases "j = k")
    case True
    have "overlap_norm (m_subspaceOverlap s) V' k = None"
      by (rule overlap_norm_None) (use assms(4) dims col in simp_all)
    then show ?thesis using True by (simp add: no_norm_def)
  next
    case False
    have "overlap_norm (m_subspaceOverlap s) V' j = overlap_norm (m_subspaceOverlap s) V j"
      by (rule overlap_norm_cong) (use dims other [OF False] in simp_all)
    then show ?thesis using that by (simp add: no_norm_def)
  qed
  show ?thesis using dims col other keep by blast
qed

lemma normalise_pass_no_norm:
  assumes "\<not> m_hermitian s"
    and "\<forall>k\<in>set ks. \<not> cmod (coeff (m_subspaceEigenvalues s) k 0) < 1 / 10 ^ 12
                     \<and> no_norm (m_subspaceOverlap s) V k"
    and "0 < rows V"
    and "foldl (normalise_step s) (V, ovlTimesVec) ks = (V', o')"
  shows "rows V' = rows V \<and> cols V' = cols V
     \<and> (\<forall>k\<in>set ks. \<forall>i. coeff V' i k = None)
     \<and> (\<forall>j. j \<notin> set ks \<longrightarrow> (\<forall>i. coeff V' i j = coeff V i j))
     \<and> (\<forall>j. no_norm (m_subspaceOverlap s) V j \<longrightarrow> no_norm (m_subspaceOverlap s) V' j)"
  using assms(2-)
proof (induction ks arbitrary: V ovlTimesVec)
  case Nil
  then show ?case by simp
next
  case (Cons k ks)
  obtain V1 o1 where st: "normalise_step s (V, ovlTimesVec) k = (V1, o1)"
    by (cases "normalise_step s (V, ovlTimesVec) k") auto
  have k: "\<not> cmod (coeff (m_subspaceEigenvalues s) k 0) < 1 / 10 ^ 12"
    "no_norm (m_subspaceOverlap s) V k"
    using Cons.prems(1) by simp_all
  note one = normalise_step_no_norm [OF assms(1) k Cons.prems(2) st]
  have rest: "foldl (normalise_step s) (V1, o1) ks = (V', o')"
    using Cons.prems(3) st by simp
  have pre: "\<forall>k\<in>set ks. \<not> cmod (coeff (m_subspaceEigenvalues s) k 0) < 1 / 10 ^ 12
                     \<and> no_norm (m_subspaceOverlap s) V1 k"
    using Cons.prems(1) one by simp
  have r1: "0 < rows V1" using one Cons.prems(2) by simp
  note IH = Cons.IH [OF pre r1 rest]
  have "coeff V' i k = None" for i
  proof (cases "k \<in> set ks")
    case True
    then show ?thesis using IH by blast
  next
    case False
    then have "coeff V' i k = coeff V1 i k" using IH by blast
    then show ?thesis using one by simp
  qed
  moreover have "coeff V' i j = coeff V i j" if "j \<notin> set (k # ks)" for i j
  proof -
    have "coeff V' i j = coeff V1 i j" using IH that by simp
    then show ?thesis using one that by simp
  qed
  ultimately show ?case using IH one by (simp add: ball_simps)
qed

lemma normalise_eigenvectors_no_norm:
  assumes "\<not> m_hermitian s"
    and "\<forall>k<cols (m_subspaceEigenvectors s).
           \<not> cmod (coeff (m_subspaceEigenvalues s) k 0) < 1 / 10 ^ 12
           \<and> no_norm (m_subspaceOverlap s) (m_subspaceEigenvectors s) k"
    and "0 < rows (m_subspaceEigenvectors s)"
  shows "\<forall>k<cols (m_subspaceEigenvectors s). \<forall>i. coeff (normalise_eigenvectors s) i k = None"
proof -
  let ?V = "m_subspaceEigenvectors s" and ?c = "cols (m_subspaceEigenvectors s)"
  define good where "good = (\<lambda>V. rows V = rows ?V \<and> cols V = ?c
      \<and> (\<forall>k<?c. no_norm (m_subspaceOverlap s) V k))"
  have pass: "good V' \<and> (\<forall>k<?c. \<forall>i. coeff V' i k = None)"
    if "good V" and "foldl (normalise_step s) (V, ovlTimesVec) [0..<?c] = (V', o')"
    for V V' ovlTimesVec o'
  proof -
    have pre: "\<forall>k\<in>set [0..<?c]. \<not> cmod (coeff (m_subspaceEigenvalues s) k 0) < 1 / 10 ^ 12
                     \<and> no_norm (m_subspaceOverlap s) V k"
      using assms(2) that(1) by (simp add: good_def)
    have r: "0 < rows V" using that(1) assms(3) by (simp add: good_def)
    note p = normalise_pass_no_norm [OF assms(1) pre r that(2)]
    show ?thesis using p that(1) by (simp add: good_def)
  qed
  have passes: "good V' \<and> (\<forall>k<?c. \<forall>i. coeff V' i k = None)"
    if "good V" and "rs \<noteq> []"
      and "foldl (\<lambda>st repeat. foldl (normalise_step s) st [0..<?c]) (V, ovlTimesVec) rs = (V', o')"
    for V V' ovlTimesVec o' and rs :: "nat list"
    using that
  proof (induction rs arbitrary: V ovlTimesVec)
    case Nil
    then show ?case by simp
  next
    case (Cons r rs)
    obtain V1 o1 where st: "foldl (normalise_step s) (V, ovlTimesVec) [0..<?c] = (V1, o1)"
      by (cases "foldl (normalise_step s) (V, ovlTimesVec) [0..<?c]") auto
    note one = pass [OF Cons.prems(1) st]
    show ?case
    proof (cases "rs = []")
      case True
      then show ?thesis using Cons.prems(3) st one by simp
    next
      case False
      have "foldl (\<lambda>st repeat. foldl (normalise_step s) st [0..<?c]) (V1, o1) rs = (V', o')"
        using Cons.prems(3) st by simp
      then show ?thesis using Cons.IH [OF _ False] one by blast
    qed
  qed
  have g: "good ?V" using assms(2) by (simp add: good_def)
  obtain V' o' where
    f: "foldl (\<lambda>st repeat. foldl (normalise_step s) st [0..<?c])
          (?V, \<lparr>rows = ?c, cols = rows ?V, coeff = (\<lambda>i j. Some 0)\<rparr>) [0..<3] = (V', o')"
    by (cases "foldl (\<lambda>st repeat. foldl (normalise_step s) st [0..<?c])
          (?V, \<lparr>rows = ?c, cols = rows ?V, coeff = (\<lambda>i j. Some 0)\<rparr>) [0..<3]") auto
  have "[0..<3] \<noteq> ([] :: nat list)" by simp
  note p = passes [OF g this f]
  have "normalise_eigenvectors s = V'"
    using f by (simp add: normalise_eigenvectors_def Let_def)
  then show ?thesis using p by simp
qed

subsection \<open>The reduced eigenproblem: sorted eigensolutions and the interpolation matrix\<close>














subsection \<open>The reduced eigenproblem: complex eigensolutions\<close>


lemma rotation_Hbar:
  "coeff (Hbar eigen_rotation rotation_example) 0 0 = 0"
  "coeff (Hbar eigen_rotation rotation_example) 1 0 = 1"
  "cols (Hbar eigen_rotation rotation_example) = 2"
  by (simp_all add: Hbar_def svmh_def overlap_for_svd_def mat_mult_def asDiagonal_def
        leftCols_def adjoint_def block_def unit_matrix_def eigen_rotation_def rotation_example_def
        LinearEigensystem_init_def IterativeSolver_init_def Let_def upt_rec)

lemma eigen_rotation_solver:
  "EigenSolver eigen_rotation M =
     (\<lparr>rows = 2, cols = 1,
        coeff = (\<lambda>i j. if i = 0 then Complex (coeff M 0 0) (coeff M 1 0)
                       else Complex (coeff M 0 0) (- coeff M 1 0))\<rparr>,
      \<lparr>rows = 2, cols = 2,
        coeff = (\<lambda>i j. if i = 0 then complex_of_real (1 / sqrt 2)
                       else if j = 0 then Complex 0 (- 1 / sqrt 2)
                       else Complex 0 (1 / sqrt 2))\<rparr>)"
  by (simp add: eigen_rotation_def)

lemma rotation_back:
  "back_transformation eigen_rotation rotation_example
     = \<lparr>rows = 2, cols = 2, coeff = (\<lambda>i j. if i = j \<and> j < 2 then 1 else 0)\<rparr>"
  apply (simp add: back_transformation_def svmh_def overlap_for_svd_def mat_mult_def asDiagonal_def
        leftCols_def block_def unit_matrix_def eigen_rotation_def rotation_example_def
        LinearEigensystem_init_def IterativeSolver_init_def Let_def upt_rec)
  apply (intro ext)
  apply auto
  done

lemma rotation_not_negligible:
  "\<not> eigenvectors_negligibly_complex
        (fst (EigenSolver eigen_rotation (Hbar eigen_rotation rotation_example)))
        (snd (EigenSolver eigen_rotation (Hbar eigen_rotation rotation_example)))"
proof -
  have "matrix_norm (map_matrix Im
          (fst (EigenSolver eigen_rotation (Hbar eigen_rotation rotation_example)))) = sqrt 2"
    using rotation_Hbar
    by (simp add: eigen_rotation_solver matrix_norm_def map_matrix_def upt_rec)
  moreover have "\<not> sqrt 2 < 1 / 10 ^ 10"
  proof
    assume "sqrt 2 < 1 / 10 ^ 10"
    moreover have "(1 / 10 ^ 10 :: real) \<le> 1" by simp
    ultimately have "sqrt 2 < 1" by (rule less_le_trans)
    then show False by simp
  qed
  ultimately show ?thesis
    unfolding eigenvectors_negligibly_complex_def by (simp only: simp_thms)
qed

lemma rotation_solved:
  "solve_Hbar eigen_rotation False rotation_example
     = Inr (rotation_example
              \<lparr>m_subspaceEigenvalues :=
                 fst (EigenSolver eigen_rotation (Hbar eigen_rotation rotation_example)),
               m_subspaceEigenvectors := rotation_vectors\<rparr>)"
  using rotation_not_negligible
  by (simp add: solve_Hbar_def Let_def split_beta rotation_vectors_def)

lemma rotation_vectors_values:
  "rows rotation_vectors = 2" "cols rotation_vectors = 2"
  "coeff rotation_vectors 0 0 = Some (complex_of_real (1 / sqrt 2))"
  "coeff rotation_vectors 1 0 = Some (Complex 0 (- 1 / sqrt 2))"
  "coeff rotation_vectors 0 1 = Some (complex_of_real (1 / sqrt 2))"
  "coeff rotation_vectors 1 1 = Some (Complex 0 (1 / sqrt 2))"
  by (simp_all add: rotation_vectors_def eigen_rotation_solver rotation_back mat_mult_def
        map_matrix_def upt_rec)

lemma rotation_eigenvalues:
  "coeff (fst (EigenSolver eigen_rotation (Hbar eigen_rotation rotation_example))) 0 0 = \<i>"
  "coeff (fst (EigenSolver eigen_rotation (Hbar eigen_rotation rotation_example))) 1 0 = - \<i>"
  using rotation_Hbar by (simp_all add: eigen_rotation_solver complex_eq_iff)

lemma rotation_no_norm:
  assumes "rows V = 2" and "m < 2" and "\<forall>i. coeff V i k = coeff rotation_vectors i m"
  shows "no_norm (unit_matrix 2) V k"
proof -
  have "m = 0 \<or> m = 1" using assms(2) by auto
  then show ?thesis
  proof
    assume m: "m = 0"
    have "overlap_norm (unit_matrix 2) V k
            = Some (complex_of_real (1 / sqrt 2) * complex_of_real (1 / sqrt 2)
                    + Complex 0 (- 1 / sqrt 2) * Complex 0 (- 1 / sqrt 2))"
      by (rule overlap_norm_unit_2) (use assms m rotation_vectors_values in simp_all)
    then show ?thesis by (simp add: no_norm_def)
  next
    assume m: "m = 1"
    have "overlap_norm (unit_matrix 2) V k
            = Some (complex_of_real (1 / sqrt 2) * complex_of_real (1 / sqrt 2)
                    + Complex 0 (1 / sqrt 2) * Complex 0 (1 / sqrt 2))"
      by (rule overlap_norm_unit_2) (use assms m rotation_vectors_values in simp_all)
    then show ?thesis by (simp add: no_norm_def)
  qed
qed

lemma rotation_diagonalized:
  "\<exists>s'. diagonalizeSubspaceMatrix eigen_rotation False rotation_example = Inr s'
      \<and> rows (m_subspaceEigenvectors s') = 2 \<and> cols (m_subspaceEigenvectors s') = 2
      \<and> m_roots s' = 1
      \<and> (\<forall>k<2. \<forall>i. coeff (m_subspaceEigenvectors s') i k = None)"
proof -
  let ?E = eigen_rotation and ?s = rotation_example
  let ?eigval = "fst (EigenSolver ?E (Hbar ?E ?s))"
  let ?s1 = "?s\<lparr>m_subspaceEigenvalues := ?eigval, m_subspaceEigenvectors := rotation_vectors\<rparr>"
  obtain m "values" vectors where
    srt: "sort_eigensolutions 2 ?eigval rotation_vectors = (m, values, vectors)"
    by (cases "sort_eigensolutions 2 ?eigval rotation_vectors") auto
  note sp = sort_eigensolutions_spec [OF srt]
  let ?s2 = "?s1\<lparr>m_subspaceEigenvalues := values, m_subspaceEigenvectors := vectors\<rparr>"
  have d: "diagonalizeSubspaceMatrix ?E False ?s
             = Inr (?s2\<lparr>m_subspaceEigenvectors := normalise_eigenvectors ?s2\<rparr>)"
    by (simp add: diagonalizeSubspaceMatrix_def rotation_solved rotation_Hbar srt Let_def)
  have dims: "rows vectors = 2" "cols vectors = 2"
    using sp by (simp_all add: rotation_vectors_values)
  have mk: "m ! k < 2" if "k < 2" for k
    using sp that by (metis atLeastLessThan_iff nth_mem)
  have f: "\<not> m_hermitian ?s2" "m_subspaceOverlap ?s2 = unit_matrix 2" "m_roots ?s2 = 1"
    by (simp_all add: rotation_example_def LinearEigensystem_init_def IterativeSolver_init_def)
  have ev: "cmod (coeff values k 0) = 1" if "k < 2" for k
  proof -
    have "coeff values k 0 = coeff ?eigval (m ! k) 0" using sp that by simp
    moreover have "m ! k = 0 \<or> m ! k = 1" using mk [OF that] by auto
    ultimately show ?thesis using rotation_eigenvalues by auto
  qed
  have pre: "\<forall>k<cols (m_subspaceEigenvectors ?s2).
           \<not> cmod (coeff (m_subspaceEigenvalues ?s2) k 0) < 1 / 10 ^ 12
           \<and> no_norm (m_subspaceOverlap ?s2) (m_subspaceEigenvectors ?s2) k"
  proof (intro allI impI)
    fix k assume "k < cols (m_subspaceEigenvectors ?s2)"
    then have k: "k < 2" by (simp add: dims)
    have "no_norm (unit_matrix 2) vectors k"
      by (rule rotation_no_norm [OF dims(1) mk [OF k]]) (use sp k in simp)
    then show "\<not> cmod (coeff (m_subspaceEigenvalues ?s2) k 0) < 1 / 10 ^ 12
           \<and> no_norm (m_subspaceOverlap ?s2) (m_subspaceEigenvectors ?s2) k"
      using ev [OF k] f(2) by simp
  qed
  have r: "0 < rows (m_subspaceEigenvectors ?s2)" by (simp add: dims)
  note n = normalise_eigenvectors_no_norm [OF f(1) pre r]
  have nd: "rows (normalise_eigenvectors ?s2) = 2" "cols (normalise_eigenvectors ?s2) = 2"
    using normalise_eigenvectors_dims [of ?s2] by (simp_all add: dims)
  show ?thesis
    using n nd f(3) unfolding d by (simp add: dims)
qed


text \<open>
  C7, as the claim states it, fails in every build without the Intel compiler. For the
  rotation the eigenvalues are \<open>i\<close> and \<open>-i\<close>, so the imaginary parts are not negligible.
  \<open>diagonalizeSubspaceMatrix\<close> raises no error: it returns, and as \<open>v\<^sup>T S v\<close> is zero for
  both eigenvectors, their normalisation has divided by zero and the coefficients it
  leaves are not numbers. \<open>LinearEigensystem::solveReducedProblem\<close> then writes their real
  parts to the interpolation matrix, again without an exception.
\<close>

theorem diagonalizeSubspaceMatrix_complex_counterexample:
  "\<not> eigenvectors_negligibly_complex
        (fst (EigenSolver eigen_rotation (Hbar eigen_rotation rotation_example)))
        (snd (EigenSolver eigen_rotation (Hbar eigen_rotation rotation_example)))
   \<and> coeff (fst (EigenSolver eigen_rotation (Hbar eigen_rotation rotation_example))) 0 0 = \<i>
   \<and> (\<exists>s'. diagonalizeSubspaceMatrix eigen_rotation False rotation_example = Inr s'
          \<and> coeff (m_subspaceEigenvectors s') 0 0 = None
          \<and> coeff (m_subspaceEigenvectors s') 1 0 = None
          \<and> coeff (m_subspaceEigenvectors s') 0 1 = None
          \<and> coeff (m_subspaceEigenvectors s') 1 1 = None)
   \<and> LinearEigensystem_solveReducedProblem eigen_rotation False rotation_example
       = Inl (not_a_number ''m_interpolation'')"
proof -
  obtain s' where d: "diagonalizeSubspaceMatrix eigen_rotation False rotation_example = Inr s'"
    and dims: "rows (m_subspaceEigenvectors s') = 2" "cols (m_subspaceEigenvectors s') = 2"
      "m_roots s' = 1"
    and n: "\<forall>k<2. \<forall>i. coeff (m_subspaceEigenvectors s') i k = None"
    using rotation_diagonalized by blast
  have n4: "coeff (m_subspaceEigenvectors s') 0 0 = None"
    "coeff (m_subspaceEigenvectors s') 1 0 = None"
    "coeff (m_subspaceEigenvectors s') 0 1 = None"
    "coeff (m_subspaceEigenvectors s') 1 1 = None"
    using n by simp_all
  have "\<not> block_is_finite 2 1 (m_subspaceEigenvectors s')"
    using n4 by (simp add: block_is_finite_def upt_rec)
  moreover have "\<not> m_rspt rotation_example"
    by (simp add: rotation_example_def LinearEigensystem_init_def IterativeSolver_init_def)
  ultimately have "LinearEigensystem_solveReducedProblem eigen_rotation False rotation_example
       = Inl (not_a_number ''m_interpolation'')"
    by (simp add: LinearEigensystem_solveReducedProblem_def d dims Let_def)
  then show ?thesis
    using rotation_not_negligible rotation_eigenvalues(1) d n4 by simp
qed

text \<open>
  C7, amended. One test decides for all eigenvectors together: the imaginary parts are
  negligible when the norm of the imaginary parts of the eigenvalues and the norm of the
  imaginary parts of the eigenvector matrix are both below \<open>10^-10\<close>. Then the real part
  of the eigenvectors is taken and transformed back to the subspace. Otherwise the fatal
  error is raised only in a build with the Intel compiler; any other build raises no
  error and transforms back the complex eigenvectors. \<open>diagonalizeSubspaceMatrix\<close> raises
  no other error, and \<open>LinearEigensystem::solveReducedProblem\<close> throws no other
  \<open>runtime_error\<close>.
\<close>

theorem diagonalizeSubspaceMatrix_complex:
  "(let (eigenvalues, eigenvectors) = EigenSolver E (Hbar E s);
        negligible = (matrix_norm (map_matrix Im eigenvalues) < 1 / 10 ^ 10
                      \<and> matrix_norm (map_matrix Im eigenvectors) < 1 / 10 ^ 10);
        message =
          ''Intel compiler does not support working with complex eigen3 entities properly''
    in (\<forall>e. (diagonalizeSubspaceMatrix E intel s = Inl e)
              = (intel \<and> \<not> negligible \<and> e = runtime_error message))
       \<and> (\<forall>msg. (LinearEigensystem_solveReducedProblem E intel s = Inl (runtime_error msg))
              = (\<not> m_rspt s \<and> intel \<and> \<not> negligible \<and> msg = message))
       \<and> (negligible \<longrightarrow>
            (\<exists>s1. solve_Hbar E intel s = Inr s1
                  \<and> m_subspaceEigenvalues s1 = eigenvalues
                  \<and> m_subspaceEigenvectors s1
                      = map_matrix (\<lambda>x. Some (complex_of_real x))
                          (mat_mult (back_transformation E s) (map_matrix Re eigenvectors))))
       \<and> (\<not> negligible \<and> \<not> intel \<longrightarrow>
            (\<exists>s1. solve_Hbar E intel s = Inr s1
                  \<and> m_subspaceEigenvalues s1 = eigenvalues
                  \<and> m_subspaceEigenvectors s1
                      = map_matrix Some
                          (mat_mult (map_matrix complex_of_real (back_transformation E s))
                             eigenvectors))))"
proof -
  obtain eigenvalues eigenvectors where e: "EigenSolver E (Hbar E s) = (eigenvalues, eigenvectors)"
    by (cases "EigenSolver E (Hbar E s)") auto
  let ?negligible = "matrix_norm (map_matrix Im eigenvalues) < 1 / 10 ^ 10
                      \<and> matrix_norm (map_matrix Im eigenvectors) < 1 / 10 ^ 10"
  let ?message =
    "''Intel compiler does not support working with complex eigen3 entities properly''"
  have A: "\<forall>e. (diagonalizeSubspaceMatrix E intel s = Inl e)
              = (intel \<and> \<not> ?negligible \<and> e = runtime_error ?message)"
    by (simp add: diagonalizeSubspaceMatrix_Inl_iff solve_Hbar_Inl_iff e
          eigenvectors_negligibly_complex_def)
  have A2: "\<forall>msg. (LinearEigensystem_solveReducedProblem E intel s = Inl (runtime_error msg))
              = (\<not> m_rspt s \<and> intel \<and> \<not> ?negligible \<and> msg = ?message)"
    unfolding LinearEigensystem_runtime_error_iff using A by auto
  have B: "?negligible \<longrightarrow>
            (\<exists>s1. solve_Hbar E intel s = Inr s1
                  \<and> m_subspaceEigenvalues s1 = eigenvalues
                  \<and> m_subspaceEigenvectors s1
                      = map_matrix (\<lambda>x. Some (complex_of_real x))
                          (mat_mult (back_transformation E s) (map_matrix Re eigenvectors)))"
    by (simp add: solve_Hbar_def e eigenvectors_negligibly_complex_def Let_def)
  have C: "\<not> ?negligible \<and> \<not> intel \<longrightarrow>
            (\<exists>s1. solve_Hbar E intel s = Inr s1
                  \<and> m_subspaceEigenvalues s1 = eigenvalues
                  \<and> m_subspaceEigenvectors s1
                      = map_matrix Some
                          (mat_mult (map_matrix complex_of_real (back_transformation E s))
                             eigenvectors))"
    by (auto simp: solve_Hbar_def e eigenvectors_negligibly_complex_def Let_def)
  show ?thesis
    unfolding e Let_def prod.case using A A2 B C by blast
qed

theorem diagonalizeSubspaceMatrix_complex_witness:
  "(\<exists>s1. solve_Hbar eigen_1x1 True eigen_call_reduced = Inr s1
         \<and> coeff (m_subspaceEigenvalues s1) 0 0 = 2
         \<and> coeff (m_subspaceEigenvectors s1) 0 0 = Some 1)
   \<and> (\<forall>e. diagonalizeSubspaceMatrix eigen_1x1 True eigen_call_reduced \<noteq> Inl e)
   \<and> (\<exists>s1. solve_Hbar eigen_rotation False rotation_example = Inr s1
         \<and> coeff (m_subspaceEigenvalues s1) 0 0 = \<i>
         \<and> coeff (m_subspaceEigenvectors s1) 1 0 = Some (Complex 0 (- 1 / sqrt 2)))"
proof -
  have n1: "matrix_norm (map_matrix Im (fst (EigenSolver eigen_1x1 M))) < 1 / 10 ^ 10
            \<and> matrix_norm (map_matrix Im (snd (EigenSolver eigen_1x1 M))) < 1 / 10 ^ 10" for M
    using eigen_1x1_negligible [of M] by (simp add: eigenvectors_negligibly_complex_def)
  have v: "coeff (fst (EigenSolver eigen_1x1 (Hbar eigen_1x1 eigen_call_reduced))) 0 0 = 2"
    using eigen_call_reduced_values(1-4)
    by (simp add: eigen_1x1_def matrix_1x1_def Hbar_def svmh_def overlap_for_svd_def mat_mult_def
          asDiagonal_def leftCols_def adjoint_def block_def Let_def upt_rec)
  have w: "coeff (map_matrix (\<lambda>x. Some (complex_of_real x))
                   (mat_mult (back_transformation eigen_1x1 eigen_call_reduced)
                      (map_matrix Re (snd (EigenSolver eigen_1x1
                         (Hbar eigen_1x1 eigen_call_reduced)))))) 0 0 = Some 1"
    using eigen_call_reduced_values(1-4)
    by (simp add: eigen_1x1_def matrix_1x1_def back_transformation_def svmh_def
          overlap_for_svd_def mat_mult_def map_matrix_def
          asDiagonal_def leftCols_def block_def Let_def upt_rec)
  have n2: "\<not> (matrix_norm (map_matrix Im
                  (fst (EigenSolver eigen_rotation (Hbar eigen_rotation rotation_example))))
                < 1 / 10 ^ 10
              \<and> matrix_norm (map_matrix Im
                  (snd (EigenSolver eigen_rotation (Hbar eigen_rotation rotation_example))))
                < 1 / 10 ^ 10)"
    using rotation_not_negligible unfolding eigenvectors_negligibly_complex_def .
  have a: "\<exists>s1. solve_Hbar eigen_1x1 True eigen_call_reduced = Inr s1
         \<and> coeff (m_subspaceEigenvalues s1) 0 0 = 2
         \<and> coeff (m_subspaceEigenvectors s1) 0 0 = Some 1"
    and b: "\<forall>e. diagonalizeSubspaceMatrix eigen_1x1 True eigen_call_reduced \<noteq> Inl e"
    using diagonalizeSubspaceMatrix_complex [of eigen_1x1 eigen_call_reduced True]
      n1 [of "Hbar eigen_1x1 eigen_call_reduced"] v w
    by (auto simp: Let_def split_beta)
  have c: "\<exists>s1. solve_Hbar eigen_rotation False rotation_example = Inr s1
         \<and> coeff (m_subspaceEigenvalues s1) 0 0 = \<i>
         \<and> coeff (m_subspaceEigenvectors s1) 1 0 = Some (Complex 0 (- 1 / sqrt 2))"
    using diagonalizeSubspaceMatrix_complex [of eigen_rotation rotation_example False] n2
      rotation_eigenvalues(1) rotation_vectors_values(4)
    by (auto simp: Let_def split_beta rotation_vectors_def)
  show ?thesis using a b c by blast
qed

end
